(* ===== verification/Prelude.thy ===== *)
theory Prelude
  imports Main "HOL-Library.Word"
begin

text \<open>
  What every component shares: Python exceptions as values, results and state
  transformers with their composition, the named collections the component
  proofs use, positional digits, and the two codec interfaces (an encoder with
  a left inverse; an encoder whose output never holds a separator).
\<close>

section \<open>Automation collections\<close>

named_theorems run_simps \<open>equations that execute results and state transformers\<close>
named_theorems text_simps \<open>facts about characters, texts and their printers\<close>
named_theorems frame_simps \<open>what an operation leaves unchanged\<close>

section \<open>Exceptions and results\<close>

text \<open>
  A Python exception is its class and its message. The classes are those that
  the modelled modules raise or that their collaborators raise into them;
  \<open>OtherExn\<close> is any other subclass of \<open>Exception\<close>, with its class name. A message
  keeps the sentence that names the failure; hints to the operator after it and the
  text of a nested exception are left out unless a caller sees them.
\<close>

datatype exn =
    ValueError string
  | RuntimeError string
  | TypeError string
  | KeyError string
  | AttributeError string
  | StructError string
  | InvalidTag
  | UnicodeError string
  | IntegrityError string
  | OtherExn string string

text \<open>\<open>str(exc)\<close>: a missing key is shown by its repr, here of a text without quotes.\<close>

definition quoted :: "string \<Rightarrow> string" where
  "quoted s = CHR 0x27 # s @ [CHR 0x27]"

fun exn_text :: "exn \<Rightarrow> string" where
  "exn_text (ValueError m) = m"
| "exn_text (RuntimeError m) = m"
| "exn_text (TypeError m) = m"
| "exn_text (KeyError m) = quoted m"
| "exn_text (AttributeError m) = m"
| "exn_text (StructError m) = m"
| "exn_text InvalidTag = []"
| "exn_text (UnicodeError m) = m"
| "exn_text (IntegrityError m) = m"
| "exn_text (OtherExn cls m) = m"

type_synonym 'a result = "exn + 'a"

abbreviation Raise :: "exn \<Rightarrow> 'a result" where
  "Raise e \<equiv> Inl e"

abbreviation Ok :: "'a \<Rightarrow> 'a result" where
  "Ok v \<equiv> Inr v"

fun is_ok :: "'a result \<Rightarrow> bool" where
  "is_ok (Inl e) = False"
| "is_ok (Inr v) = True"

fun rbind :: "'a result \<Rightarrow> ('a \<Rightarrow> 'b result) \<Rightarrow> 'b result" where
  "rbind (Inl e) k = Inl e"
| "rbind (Inr v) k = k v"

text \<open>
  A step reads and updates a state and returns or raises; the updates made
  before an exception stay, as they do in Python.
\<close>

type_synonym ('s, 'a) step = "'s \<Rightarrow> 'a result \<times> 's"

definition sret :: "'a \<Rightarrow> ('s, 'a) step" where
  "sret v s = (Inr v, s)"

definition sraise :: "exn \<Rightarrow> ('s, 'a) step" where
  "sraise e s = (Inl e, s)"

definition slift :: "'a result \<Rightarrow> ('s, 'a) step" where
  "slift r s = (r, s)"

definition sbind :: "('s, 'a) step \<Rightarrow> ('a \<Rightarrow> ('s, 'b) step) \<Rightarrow> ('s, 'b) step" where
  "sbind m k s = (case m s of (Inl e, s') \<Rightarrow> (Inl e, s') | (Inr v, s') \<Rightarrow> k v s')"

declare sret_def [run_simps] sraise_def [run_simps] slift_def [run_simps]

lemma rbind_Inr_iff:
  "rbind r k = Inr v \<longleftrightarrow> (\<exists>u. r = Inr u \<and> k u = Inr v)"
  by (cases r) auto

lemma rbind_Inl_iff:
  "rbind r k = Inl e \<longleftrightarrow> r = Inl e \<or> (\<exists>u. r = Inr u \<and> k u = Inl e)"
  by (cases r) auto

lemma rbind_assoc: "rbind (rbind r f) g = rbind r (\<lambda>x. rbind (f x) g)"
  by (cases r) auto

lemma is_ok_iff: "is_ok r \<longleftrightarrow> (\<exists>v. r = Inr v)"
  by (cases r) auto

lemma sbind_Inr [run_simps]: "m s = (Inr v, s') \<Longrightarrow> sbind m k s = k v s'"
  by (simp add: sbind_def)

lemma sbind_Inl [run_simps]: "m s = (Inl e, s') \<Longrightarrow> sbind m k s = (Inl e, s')"
  by (simp add: sbind_def)

lemma sbind_run: "sbind m k s = (case m s of (Inl e, s') \<Rightarrow> (Inl e, s') | (Inr v, s') \<Rightarrow> k v s')"
  by (simp add: sbind_def)

lemma sbind_ret [run_simps]: "sbind (sret v) k = k v"
  by (rule ext) (simp add: sbind_def sret_def)

lemma sbind_raise [run_simps]: "sbind (sraise e) k = sraise e"
  by (rule ext) (simp add: sbind_def sraise_def)

text \<open>
  A loop that runs one step per element and stops at the first exception.
\<close>

fun seach :: "('a \<Rightarrow> ('s, unit) step) \<Rightarrow> 'a list \<Rightarrow> ('s, unit) step" where
  "seach f [] s = (Inr (), s)"
| "seach f (x # xs) s =
     (case f x s of (Inl e, s') \<Rightarrow> (Inl e, s') | (Inr _, s') \<Rightarrow> seach f xs s')"

lemma seach_frame:
  assumes "\<And>x s. proj (snd (f x s)) = proj s"
  shows "proj (snd (seach f xs s)) = proj s"
proof (induction xs arbitrary: s)
  case (Cons x xs)
  then show ?case using assms [of x s] by (auto split: prod.splits sum.splits)
qed simp

section \<open>Lists and options\<close>

lemma filter_map_none:
  assumes "\<And>x. x \<in> set xs \<Longrightarrow> \<not> P (f x)"
  shows "filter P (map f xs) = []"
  using assms by (induction xs) auto

lemma append_sep_eq_iff:
  assumes "c \<notin> set xs" and "c \<notin> set ys"
  shows "xs @ c # us = ys @ c # vs \<longleftrightarrow> xs = ys \<and> us = vs"
  using assms
proof (induction xs arbitrary: ys)
  case Nil
  then show ?case by (cases ys) auto
next
  case (Cons x xs)
  then show ?case by (cases ys) auto
qed

section \<open>Positional digits\<close>

text \<open>
  The low \<open>k\<close> digits of \<open>n\<close> in base \<open>b\<close>, most significant first: what a
  zero-padded fixed-width format prints.
\<close>

fun digits_be :: "nat \<Rightarrow> nat \<Rightarrow> nat \<Rightarrow> nat list" where
  "digits_be b 0 n = []"
| "digits_be b (Suc k) n = digits_be b k (n div b) @ [n mod b]"

lemma digits_be_numeral [run_simps]:
  "digits_be b (numeral k) n = digits_be b (pred_numeral k) (n div b) @ [n mod b]"
  "digits_be b 1 n = [n mod b]"
  by (simp_all add: numeral_eq_Suc)

definition undigits :: "nat \<Rightarrow> nat list \<Rightarrow> nat" where
  "undigits b ds = foldl (\<lambda>a d. a * b + d) 0 ds"

lemma length_digits_be [simp]: "length (digits_be b k n) = k"
  by (induction k arbitrary: n) auto

lemma digits_be_less: "0 < b \<Longrightarrow> d \<in> set (digits_be b k n) \<Longrightarrow> d < b"
  by (induction k arbitrary: n) auto

lemma undigits_snoc: "undigits b (ds @ [d]) = undigits b ds * b + d"
  by (simp add: undigits_def)

lemma undigits_digits_be: "undigits b (digits_be b k n) = n mod b ^ k"
proof (induction k arbitrary: n)
  case 0
  then show ?case by (simp add: undigits_def)
next
  case (Suc k)
  have "undigits b (digits_be b (Suc k) n) = (n div b) mod b ^ k * b + n mod b"
    by (simp only: digits_be.simps undigits_snoc Suc)
  also have "\<dots> = n mod (b * b ^ k)"
    using mod_mult2_eq [of n b "b ^ k"] by (simp only: mult.commute [of b "n div b mod b ^ k"])
  finally show ?case by (simp only: power_Suc)
qed

lemma digits_be_inj:
  assumes "digits_be b k m = digits_be b k n" and "m < b ^ k" and "n < b ^ k"
  shows "m = n"
  using assms by (metis undigits_digits_be mod_less)

section \<open>Interfaces of encoders\<close>

text \<open>
  An encoder with a left inverse on the values it is meant for.
\<close>

locale codec =
  fixes enc :: "'a \<Rightarrow> 'b"
    and dec :: "'b \<Rightarrow> 'a option"
    and valid :: "'a \<Rightarrow> bool"
  assumes dec_enc: "valid x \<Longrightarrow> dec (enc x) = Some x"
begin

lemma enc_eq_iff: "valid x \<Longrightarrow> valid y \<Longrightarrow> enc x = enc y \<longleftrightarrow> x = y"
  by (metis dec_enc option.inject)

lemma inj_on_enc: "inj_on enc {x. valid x}"
  by (auto simp: inj_on_def enc_eq_iff)

lemma enc_distinct:
  assumes "distinct xs" and "\<forall>x\<in>set xs. valid x"
  shows "distinct (map enc xs)"
  using assms inj_on_enc by (auto simp: distinct_map intro: inj_on_subset)

end

text \<open>
  An encoder into texts that never print a separator: fields of such encoders
  can be joined by the separator and the joined text determines each of them.
\<close>

locale field_codec = codec enc dec valid
  for enc :: "'a \<Rightarrow> char list"
    and dec :: "char list \<Rightarrow> 'a option"
    and valid :: "'a \<Rightarrow> bool" +
  fixes sep :: char
  assumes sep_free: "valid x \<Longrightarrow> sep \<notin> set (enc x)"
begin

lemma cons_field_eq_iff:
  assumes "valid x" and "valid y"
  shows "enc x @ sep # us = enc y @ sep # vs \<longleftrightarrow> x = y \<and> us = vs"
  using assms sep_free enc_eq_iff append_sep_eq_iff by metis

lemma enc_not_joined: "valid x \<Longrightarrow> enc x \<noteq> us @ sep # vs"
  using sep_free by fastforce

end

section \<open>Step systems\<close>

text \<open>A step system: an invariant of the initial states that every step keeps.\<close>

locale step_system =
  fixes init :: "'s \<Rightarrow> bool"
    and step :: "'s \<Rightarrow> 's \<Rightarrow> bool"
    and inv :: "'s \<Rightarrow> bool"
  assumes inv_init: "init s \<Longrightarrow> inv s"
    and inv_step: "inv s \<Longrightarrow> step s t \<Longrightarrow> inv t"
begin

lemma inv_steps: "step\<^sup>*\<^sup>* s t \<Longrightarrow> inv s \<Longrightarrow> inv t"
  by (induction rule: rtranclp_induct) (auto intro: inv_step)

lemma inv_reachable: "init s \<Longrightarrow> step\<^sup>*\<^sup>* s t \<Longrightarrow> inv t"
  by (blast intro: inv_init inv_steps)

end

end
