(* ===== verification/PyText.thy ===== *)
theory PyText
  imports Prelude
begin

text \<open>
  The text operations of the Python standard library that the modelled modules
  call. A Python \<open>str\<close> is a HOL \<open>string\<close>: its characters are the code points
  below 256, and case mapping, stripping and the UTF-8 encoding are given on
  all of them (the capital of \<open>\<yen>\<close>-like characters outside that range, those of
  \<open>0xB5\<close> and \<open>0xFF\<close>, are left as they are). A Python \<open>bytes\<close> is a list of
  8-bit words. Hexadecimal and decimal printers come with their inverses and
  are interpreted as field encoders.
\<close>

type_synonym byte = "8 word"
type_synonym bytes = "byte list"

definition code_point :: "char \<Rightarrow> nat" where
  "code_point c = of_char c"

lemma code_point_less [simp]: "code_point c < 256"
  by (simp add: code_point_def)

lemma unat_byte_of_nat: "n < 256 \<Longrightarrow> unat (word_of_nat n :: byte) = n"
  by (simp add: unat_of_nat)

section \<open>Case, white space and searching\<close>

definition lower_char :: "char \<Rightarrow> char" where
  "lower_char c =
     (let n = code_point c in
      if (65 \<le> n \<and> n \<le> 90) \<or> (192 \<le> n \<and> n \<le> 222 \<and> n \<noteq> 215) then char_of (n + 32) else c)"

definition upper_char :: "char \<Rightarrow> string" where
  "upper_char c =
     (let n = code_point c in
      if n = 223 then ''SS''
      else if (97 \<le> n \<and> n \<le> 122) \<or> (224 \<le> n \<and> n \<le> 254 \<and> n \<noteq> 247) then [char_of (n - 32)]
      else [c])"

definition lower :: "string \<Rightarrow> string" where
  "lower s = map lower_char s"

definition upper :: "string \<Rightarrow> string" where
  "upper s = concat (map upper_char s)"

definition is_space :: "char \<Rightarrow> bool" where
  "is_space c =
     (let n = code_point c in
      (9 \<le> n \<and> n \<le> 13) \<or> (28 \<le> n \<and> n \<le> 32) \<or> n = 133 \<or> n = 160)"

definition strip :: "string \<Rightarrow> string" where
  "strip s = rev (dropWhile is_space (rev (dropWhile is_space s)))"

definition is_ascii :: "string \<Rightarrow> bool" where
  "is_ascii s = list_all (\<lambda>c. code_point c < 128) s"

fun starts_with :: "string \<Rightarrow> string \<Rightarrow> bool" where
  "starts_with [] s = True"
| "starts_with (p # ps) [] = False"
| "starts_with (p # ps) (c # s) = (p = c \<and> starts_with ps s)"

fun contains :: "string \<Rightarrow> string \<Rightarrow> bool" where
  "contains p [] = (p = [])"
| "contains p (c # s) = (starts_with p (c # s) \<or> contains p s)"

fun join :: "string \<Rightarrow> string list \<Rightarrow> string" where
  "join sep [] = []"
| "join sep [x] = x"
| "join sep (x # y # ys) = x @ sep @ join sep (y # ys)"

lemma length_lower [simp]: "length (lower s) = length s"
  by (simp add: lower_def)

lemma lower_append [simp]: "lower (s @ t) = lower s @ lower t"
  by (simp add: lower_def)

lemma upper_append [simp]: "upper (s @ t) = upper s @ upper t"
  by (simp add: upper_def)

lemma upper_Nil [simp]: "upper [] = []"
  by (simp add: upper_def)

lemma upper_Cons [simp]: "upper (c # s) = upper_char c @ upper s"
  by (simp add: upper_def)

lemma is_ascii_append [simp]: "is_ascii (s @ t) \<longleftrightarrow> is_ascii s \<and> is_ascii t"
  by (simp add: is_ascii_def)

lemma starts_with_iff: "starts_with p s \<longleftrightarrow> (\<exists>r. s = p @ r)"
  by (induction p s rule: starts_with.induct) auto

lemma contains_iff: "contains p s \<longleftrightarrow> (\<exists>l r. s = l @ p @ r)"
proof (induction s)
  case (Cons c s)
  show ?case
  proof
    assume "contains p (c # s)"
    then consider r where "c # s = p @ r" | l r where "s = l @ p @ r"
      using Cons starts_with_iff by auto
    then show "\<exists>l r. c # s = l @ p @ r"
      by cases (metis append_Nil, metis append_Cons)
  next
    assume "\<exists>l r. c # s = l @ p @ r"
    then obtain l r where lr: "c # s = l @ p @ r" by blast
    then show "contains p (c # s)"
    proof (cases l)
      case Nil
      then have "starts_with p (c # s)" using lr starts_with_iff by auto
      then show ?thesis by simp
    next
      case (Cons d l')
      then show ?thesis using lr Cons.IH by auto
    qed
  qed
qed auto

lemma strip_strip [simp]: "strip (strip s) = strip s"
proof -
  have front: "dropWhile is_space (rev (dropWhile is_space (rev t))) =
      rev (dropWhile is_space (rev t))" if "dropWhile is_space t = t" for t
  proof (cases "rev (dropWhile is_space (rev t))")
    case (Cons c u)
    have "\<exists>v. t = rev (dropWhile is_space (rev t)) @ v"
      by (metis rev_append rev_rev_ident takeWhile_dropWhile_id)
    then obtain v where "t = c # u @ v" using Cons by auto
    then have "\<not> is_space c"
      using that by (metis append_Cons dropWhile_eq_Cons_conv)
    then show ?thesis using Cons by simp
  next
    case Nil
    then show ?thesis by (simp only: dropWhile.simps)
  qed
  have "dropWhile is_space (strip s) = strip s"
    unfolding strip_def by (rule front) simp
  then show ?thesis
    unfolding strip_def by simp
qed

section \<open>Hexadecimal\<close>

definition hexdig :: "nat \<Rightarrow> char" where
  "hexdig n = ''0123456789abcdef'' ! n"

definition hexval :: "char \<Rightarrow> nat option" where
  "hexval c =
     (let n = code_point c in
      if 48 \<le> n \<and> n \<le> 57 then Some (n - 48)
      else if 97 \<le> n \<and> n \<le> 102 then Some (n - 87)
      else if 65 \<le> n \<and> n \<le> 70 then Some (n - 55)
      else None)"

definition hex_byte :: "byte \<Rightarrow> string" where
  "hex_byte b = [hexdig (unat b div 16), hexdig (unat b mod 16)]"

definition hexlify :: "bytes \<Rightarrow> string" where
  "hexlify bs = concat (map hex_byte bs)"

text \<open>
  \<open>bytes.fromhex\<close>: ASCII white space may stand before and after each pair of
  digits, never inside one; the error names the position of the first bad
  character, and a text with a non-ASCII character is refused first.
\<close>

definition c_space :: "char \<Rightarrow> bool" where
  "c_space c = (let n = code_point c in (9 \<le> n \<and> n \<le> 13) \<or> n = 32)"

fun nat_str :: "nat \<Rightarrow> string" where
  "nat_str n = (if n < 10 then [hexdig n] else nat_str (n div 10) @ [hexdig (n mod 10)])"

declare nat_str.simps [simp del]

definition fromhex_error :: "nat \<Rightarrow> exn" where
  "fromhex_error i =
     ValueError (''non-hexadecimal number found in fromhex() arg at position '' @ nat_str i)"

fun fromhex_at :: "nat \<Rightarrow> string \<Rightarrow> bytes result" where
  "fromhex_at i [] = Ok []"
| "fromhex_at i [c] = (if c_space c then Ok [] else
     case hexval c of None \<Rightarrow> Raise (fromhex_error i) | Some _ \<Rightarrow> Raise (fromhex_error (i + 1)))"
| "fromhex_at i (c # d # s) =
     (if c_space c then fromhex_at (i + 1) (d # s)
      else case hexval c of
        None \<Rightarrow> Raise (fromhex_error i)
      | Some h \<Rightarrow> (case hexval d of
          None \<Rightarrow> Raise (fromhex_error (i + 1))
        | Some l \<Rightarrow> rbind (fromhex_at (i + 2) s) (\<lambda>bs. Ok (word_of_nat (h * 16 + l) # bs))))"

fun first_non_ascii :: "nat \<Rightarrow> string \<Rightarrow> nat option" where
  "first_non_ascii i [] = None"
| "first_non_ascii i (c # s) = (if code_point c < 128 then first_non_ascii (i + 1) s else Some i)"

definition fromhex :: "string \<Rightarrow> bytes result" where
  "fromhex s = (case first_non_ascii 0 s of
     Some i \<Rightarrow> Raise (fromhex_error i)
   | None \<Rightarrow> fromhex_at 0 s)"

lemma hexdig_facts:
  assumes "n < 16"
  shows "hexval (hexdig n) = Some n" and "lower_char (hexdig n) = hexdig n"
    and "code_point (hexdig n) < 128" and "c_space (hexdig n) = False"
    and "is_space (hexdig n) = False" and "hexdig n \<in> set ''0123456789abcdef''"
proof -
  have "\<forall>k\<in>set [0..<16]. hexval (hexdig k) = Some k \<and> lower_char (hexdig k) = hexdig k
      \<and> code_point (hexdig k) < 128 \<and> c_space (hexdig k) = False
      \<and> is_space (hexdig k) = False \<and> hexdig k \<in> set ''0123456789abcdef''"
    by code_simp
  moreover have "n \<in> set [0..<16]" using assms by simp
  ultimately show "hexval (hexdig n) = Some n" and "lower_char (hexdig n) = hexdig n"
    and "code_point (hexdig n) < 128" and "c_space (hexdig n) = False"
    and "is_space (hexdig n) = False" and "hexdig n \<in> set ''0123456789abcdef''"
    by blast+
qed

declare hexdig_facts(1-5) [text_simps]

lemma hexdig_inj: "m < 16 \<Longrightarrow> n < 16 \<Longrightarrow> hexdig m = hexdig n \<longleftrightarrow> m = n"
  by (metis hexdig_facts(1) option.inject)

lemma unat_byte_less [simp]: "unat (b :: byte) div 16 < 16"
  using unsigned_less [of b, where 'a = nat] by simp

lemma hexlify_Nil [simp]: "hexlify [] = []"
  by (simp add: hexlify_def)

lemma hexlify_Cons [simp]: "hexlify (b # bs) = hex_byte b @ hexlify bs"
  by (simp add: hexlify_def)

lemma length_hexlify [simp]: "length (hexlify bs) = 2 * length bs"
  by (induction bs) (auto simp: hex_byte_def)

lemma lower_hexlify [simp]: "lower (hexlify bs) = hexlify bs"
  by (induction bs) (auto simp: hex_byte_def lower_def hexdig_facts)

lemma set_hexlify: "set (hexlify bs) \<subseteq> set ''0123456789abcdef''"
proof (induction bs)
  case (Cons b bs)
  have "set (hex_byte b) \<subseteq> set ''0123456789abcdef''"
    using hexdig_facts(6) [of "unat b div 16"] hexdig_facts(6) [of "unat b mod 16"]
    by (simp only: hex_byte_def list.set unat_byte_less mod_less_divisor zero_less_numeral
        insert_subset empty_subsetI simp_thms)
  then show ?case using Cons by (simp only: hexlify_Cons set_append Un_subset_iff simp_thms)
qed simp

lemma ascii_hexlify [simp]: "is_ascii (hexlify bs)"
  by (induction bs) (auto simp: is_ascii_def hex_byte_def hexdig_facts)

lemma first_non_ascii_hexlify: "first_non_ascii i (hexlify bs) = None"
  by (induction bs arbitrary: i) (auto simp: hex_byte_def hexdig_facts)

lemma fromhex_at_hexlify: "fromhex_at i (hexlify bs) = Ok bs"
  by (induction bs arbitrary: i) (auto simp: hex_byte_def hexdig_facts div_mult_mod_eq)

lemma fromhex_hexlify [simp]: "fromhex (hexlify bs) = Ok bs"
  by (simp add: fromhex_def first_non_ascii_hexlify fromhex_at_hexlify)

definition unhex :: "string \<Rightarrow> bytes option" where
  "unhex s = (case fromhex s of Inl _ \<Rightarrow> None | Inr bs \<Rightarrow> Some bs)"

interpretation hex: field_codec hexlify unhex "\<lambda>_. True" "CHR ''|''"
proof unfold_locales
  fix bs :: bytes
  show "unhex (hexlify bs) = Some bs" by (simp add: unhex_def)
  have "CHR ''|'' \<notin> set ''0123456789abcdef''" by simp
  then show "CHR ''|'' \<notin> set (hexlify bs)" using set_hexlify by blast
qed

section \<open>Decimal\<close>

definition is_digit :: "char \<Rightarrow> bool" where
  "is_digit c = (48 \<le> code_point c \<and> code_point c \<le> 57)"

definition digit_val :: "char \<Rightarrow> nat" where
  "digit_val c = code_point c - 48"

definition read_nat :: "string \<Rightarrow> nat option" where
  "read_nat s = (if s \<noteq> [] \<and> list_all is_digit s then Some (undigits 10 (map digit_val s)) else None)"

definition int_str :: "int \<Rightarrow> string" where
  "int_str i = (if i < 0 then CHR ''-'' # nat_str (nat (- i)) else nat_str (nat i))"

definition pad_nat :: "nat \<Rightarrow> nat \<Rightarrow> string" where
  "pad_nat k n = map hexdig (digits_be 10 k n)"

lemma hexdig_digit:
  assumes "n < 10"
  shows "is_digit (hexdig n)" and "digit_val (hexdig n) = n" and "hexdig n \<noteq> CHR ''|''"
    and "hexdig n \<noteq> CHR ''-''"
proof -
  have "\<forall>k\<in>set [0..<10]. is_digit (hexdig k) \<and> digit_val (hexdig k) = k \<and> hexdig k \<noteq> CHR ''|''
      \<and> hexdig k \<noteq> CHR ''-''"
    by code_simp
  moreover have "n \<in> set [0..<10]" using assms by simp
  ultimately show "is_digit (hexdig n)" and "digit_val (hexdig n) = n"
    and "hexdig n \<noteq> CHR ''|''" and "hexdig n \<noteq> CHR ''-''"
    by blast+
qed

lemma nat_str_not_Nil [simp]: "nat_str n \<noteq> []"
  by (subst nat_str.simps) simp

lemma nat_str_digits: "list_all is_digit (nat_str n)"
proof (induction n rule: nat_str.induct)
  case (1 n)
  then show ?case by (subst nat_str.simps) (auto simp: hexdig_digit)
qed

lemma undigits_nat_str: "undigits 10 (map digit_val (nat_str n)) = n"
proof (induction n rule: nat_str.induct)
  case (1 n)
  then show ?case
    by (subst nat_str.simps) (auto simp: hexdig_digit undigits_snoc undigits_def [of 10 "[_]"])
qed

lemma read_nat_str [simp]: "read_nat (nat_str n) = Some n"
  by (simp add: read_nat_def nat_str_digits undigits_nat_str)

lemma no_bar_nat_str: "CHR ''|'' \<notin> set (nat_str n)"
  using nat_str_digits [of n] by (auto simp: list_all_iff is_digit_def code_point_def)

interpretation decimal: field_codec nat_str read_nat "\<lambda>_. True" "CHR ''|''"
  by unfold_locales (simp_all add: no_bar_nat_str)

lemma length_pad_nat [simp]: "length (pad_nat k n) = k"
  by (simp add: pad_nat_def)

lemma pad_nat_digit: "c \<in> set (pad_nat k n) \<Longrightarrow> is_digit c"
  by (auto simp: pad_nat_def hexdig_digit dest!: digits_be_less [of 10, rotated])

lemma pad_nat_inj:
  assumes "pad_nat k m = pad_nat k n" and "m < 10 ^ k" and "n < 10 ^ k"
  shows "m = n"
proof -
  have "inj_on hexdig {..<10}"
    by (auto simp: inj_on_def hexdig_inj)
  moreover have "set (digits_be 10 k m) \<subseteq> {..<10}" "set (digits_be 10 k n) \<subseteq> {..<10}"
    using digits_be_less [of 10] by auto
  ultimately have "digits_be 10 k m = digits_be 10 k n"
    using assms(1) by (auto simp: pad_nat_def intro: map_inj_on inj_on_subset)
  then show ?thesis using assms(2,3) by (rule digits_be_inj)
qed

section \<open>UTF-8\<close>

definition utf8_char :: "char \<Rightarrow> bytes" where
  "utf8_char c =
     (let n = code_point c in
      if n < 128 then [word_of_nat n]
      else [word_of_nat (192 + n div 64), word_of_nat (128 + n mod 64)])"

definition utf8 :: "string \<Rightarrow> bytes" where
  "utf8 s = concat (map utf8_char s)"

text \<open>\<open>None\<close> stands for every byte string that encodes no text of the modelled range.\<close>

fun utf8_decode :: "bytes \<Rightarrow> string option" where
  "utf8_decode [] = Some []"
| "utf8_decode (b # bs) =
     (if unat b < 128 then map_option (Cons (char_of (unat b))) (utf8_decode bs)
      else case bs of
        [] \<Rightarrow> None
      | b2 # bs2 \<Rightarrow>
          if (unat b = 194 \<or> unat b = 195) \<and> 128 \<le> unat b2 \<and> unat b2 < 192
          then map_option (Cons (char_of ((unat b - 192) * 64 + (unat b2 - 128)))) (utf8_decode bs2)
          else None)"

lemma utf8_Nil [simp]: "utf8 [] = []"
  by (simp add: utf8_def)

lemma utf8_Cons [simp]: "utf8 (c # s) = utf8_char c @ utf8 s"
  by (simp add: utf8_def)

lemma utf8_append [simp]: "utf8 (s @ t) = utf8 s @ utf8 t"
  by (simp add: utf8_def)

lemma utf8_eq_Nil_iff [simp]: "utf8 s = [] \<longleftrightarrow> s = []"
  by (cases s) (auto simp: utf8_char_def Let_def)

lemma utf8_decode_char:
  "utf8_decode (utf8_char c @ bs) = map_option (Cons c) (utf8_decode bs)"
proof (cases "code_point c < 128")
  case True
  then show ?thesis
    by (simp add: utf8_char_def unat_of_nat take_bit_eq_mod code_point_def)
next
  case False
  define n where "n = code_point c"
  have n: "128 \<le> n" "n < 256" using False by (simp_all add: n_def)
  have q: "n div 64 = 2 \<or> n div 64 = 3" using n by linarith
  have m: "n mod 64 < 64" by simp
  define h l :: byte where "h = word_of_nat (192 + n div 64)" and "l = word_of_nat (128 + n mod 64)"
  have hi: "unat h = 192 + n div 64"
    unfolding h_def by (rule unat_byte_of_nat) (use q in auto)
  have lo: "unat l = 128 + n mod 64"
    unfolding l_def by (rule unat_byte_of_nat) (use m in simp)
  have enc: "utf8_char c = [h, l]"
    using n by (simp add: utf8_char_def n_def [symmetric] h_def l_def Let_def del: of_nat_add)
  have "n div 64 * 64 + n mod 64 = n" by simp
  moreover have "char_of n = c" by (simp add: n_def code_point_def)
  ultimately show ?thesis
    using q m by (simp add: enc hi lo)
qed

lemma utf8_decode_utf8 [simp]: "utf8_decode (utf8 s) = Some s"
  by (induction s) (simp_all add: utf8_decode_char del: utf8_decode.simps(2))

interpretation utf8: codec utf8 utf8_decode "\<lambda>_. True"
  by unfold_locales simp

section \<open>Constant-time comparison\<close>

definition compare_digest :: "string \<Rightarrow> string \<Rightarrow> bool result" where
  "compare_digest a b =
     (if is_ascii a \<and> is_ascii b then Ok (a = b)
      else Raise (TypeError ''comparing strings with non-ASCII characters is not supported''))"

lemma compare_digest_refl [simp]: "is_ascii a \<Longrightarrow> compare_digest a a = Ok True"
  by (simp add: compare_digest_def)

lemma compare_digest_True_iff:
  "compare_digest a b = Ok True \<longleftrightarrow> is_ascii a \<and> a = b"
  by (auto simp: compare_digest_def)

end
