(* ===== verification/Process.thy ===== *)
theory Process
  imports PyText
begin

text \<open>
  The process-wide state of the security modules: \<open>os.environ\<close>, the lazily
  loaded keys (\<open>_server_hmac_key\<close>, \<open>_server_hmac_key_previous\<close>, \<open>_pan_hmac_key\<close>,
  \<open>_aes_key\<close>) and the secrets loader's \<open>_secret_cache\<close> and \<open>_loaded\<close>. A dict is
  the list of its items in insertion order.
\<close>

type_synonym env_items = "(string \<times> string) list"

record proc =
  os_environ :: env_items
  server_hmac_key :: "bytes option"
  server_hmac_key_previous :: "bytes option"
  pan_hmac_key :: "bytes option"
  aes_key :: "bytes option"
  secret_cache :: env_items
  secrets_loaded :: bool

definition get_or :: "string \<Rightarrow> env_items \<Rightarrow> string \<Rightarrow> string" where
  "get_or k d dflt = (case map_of d k of None \<Rightarrow> dflt | Some v \<Rightarrow> v)"

fun set_item :: "string \<Rightarrow> string \<Rightarrow> env_items \<Rightarrow> env_items" where
  "set_item k v [] = [(k, v)]"
| "set_item k v ((k', v') # d) = (if k' = k then (k, v) # d else (k', v') # set_item k v d)"

definition update_items :: "env_items \<Rightarrow> env_items \<Rightarrow> env_items" where
  "update_items d new = foldl (\<lambda>d kv. set_item (fst kv) (snd kv) d) d new"

lemma map_of_set_item [simp]: "map_of (set_item k v d) = (map_of d)(k \<mapsto> v)"
  by (induction k v d rule: set_item.induct) auto

lemma get_or_set_item [simp]:
  "get_or k (set_item k' v d) dflt = (if k' = k then v else get_or k d dflt)"
  by (simp add: get_or_def)

lemma map_of_update_items:
  "map_of (update_items d new) k = (case map_of (rev new) k of None \<Rightarrow> map_of d k | Some v \<Rightarrow> Some v)"
  unfolding update_items_def
  by (induction new arbitrary: d) (auto simp: map_add_def split: option.splits)

lemma map_of_rev_distinct: "distinct (map fst new) \<Longrightarrow> map_of (rev new) = map_of new"
proof (induction new)
  case (Cons kv new)
  then have "map_of new (fst kv) = None" by (simp add: map_of_eq_None_iff)
  then show ?case using Cons by (auto simp: fun_eq_iff map_add_def split: option.splits)
qed simp

lemma map_of_update_distinct:
  assumes "distinct (map fst new)"
  shows "map_of (update_items d new) k = (case map_of new k of None \<Rightarrow> map_of d k | Some v \<Rightarrow> Some v)"
  using assms by (simp add: map_of_update_items map_of_rev_distinct)

section \<open>Loading a 32-byte key\<close>

text \<open>
  The three key loaders (\<open>_load_hmac_key\<close>, \<open>_load_pan_hmac_key\<close>, \<open>_load_aes_key\<close>)
  share this: the variable must be set and not empty, be hexadecimal, and have
  32 bytes.
\<close>

definition load_key32 :: "string \<Rightarrow> env_items \<Rightarrow> bytes result" where
  "load_key32 var env =
     (let raw = get_or var env [] in
      if raw = [] then Raise (RuntimeError (var @ '' environment variable is not set.''))
      else case fromhex raw of
        Inl _ \<Rightarrow> Raise (RuntimeError (var @ '' is not valid hex''))
      | Inr key \<Rightarrow>
          if length key \<noteq> 32
          then Raise (RuntimeError (var @ '' must be exactly 32 bytes. Got '' @ nat_str (length key) @ '' bytes.''))
          else Ok key)"

lemma load_key32_Ok_iff:
  "load_key32 var env = Ok key \<longleftrightarrow>
     get_or var env [] \<noteq> [] \<and> fromhex (get_or var env []) = Ok key \<and> length key = 32"
  by (auto simp: load_key32_def Let_def split: sum.splits if_splits)

lemma load_key32_error: "load_key32 var env = Raise e \<Longrightarrow> \<exists>m. e = RuntimeError m"
  by (auto simp: load_key32_def Let_def split: sum.splits if_splits)

lemma load_key32_hexlify:
  assumes "map_of env var = Some (hexlify key)" and "length key = 32"
  shows "load_key32 var env = Ok key"
proof -
  have "hexlify key \<noteq> []" using assms(2) length_hexlify [of key] by (cases "hexlify key") auto
  then show ?thesis using assms by (simp add: load_key32_Ok_iff get_or_def)
qed

end
