(* ===== verification/PyTime.thy ===== *)
theory PyTime
  imports PyText
begin

text \<open>
  \<open>datetime\<close> of the standard library: wall-clock microseconds since
  0001-01-01T00:00 with an optional UTC offset, the proleptic Gregorian
  calendar, \<open>astimezone(utc)\<close>, \<open>isoformat\<close> and the two \<open>strftime\<close> fields the
  program uses. The calendar is shown to be injective, so the UTC ISO text of
  an instant determines the instant.
\<close>

section \<open>Values\<close>

record datetime =
  dt_wall :: int
  dt_off :: "int option"

abbreviation usec_per_day :: int where
  "usec_per_day \<equiv> 86400000000"

definition max_wall :: int where
  "max_wall = 3652059 * usec_per_day"

definition valid_wall :: "int \<Rightarrow> bool" where
  "valid_wall w = (0 \<le> w \<and> w < max_wall)"

text \<open>An instant is a count of microseconds in UTC; the database stores instants.\<close>

definition utc_datetime :: "int \<Rightarrow> datetime" where
  "utc_datetime t = \<lparr>dt_wall = t, dt_off = Some 0\<rparr>"

definition instant_of :: "datetime \<Rightarrow> int" where
  "instant_of d = (case dt_off d of None \<Rightarrow> dt_wall d | Some z \<Rightarrow> dt_wall d - z)"

section \<open>Calendar\<close>

definition is_leap :: "nat \<Rightarrow> bool" where
  "is_leap y = (y mod 4 = 0 \<and> (y mod 100 \<noteq> 0 \<or> y mod 400 = 0))"

definition month_lengths :: "bool \<Rightarrow> nat list" where
  "month_lengths leap = [31, if leap then 29 else 28, 31, 30, 31, 30, 31, 31, 30, 31, 30, 31]"

fun split_month :: "nat \<Rightarrow> nat list \<Rightarrow> nat \<Rightarrow> nat \<times> nat" where
  "split_month m [] d = (m, d + 1)"
| "split_month m (l # ls) d = (if d < l then (m, d + 1) else split_month (m + 1) ls (d - l))"

text \<open>Year (from 1) and day of the year (from 0) of a day count.\<close>

definition year_day :: "nat \<Rightarrow> nat \<times> nat" where
  "year_day n =
     (let n400 = n div 146097; r400 = n mod 146097;
          n100 = r400 div 36524; r100 = r400 mod 36524;
          n4 = r100 div 1461; r4 = r100 mod 1461;
          n1 = r4 div 365; r1 = r4 mod 365;
          y = n400 * 400 + n100 * 100 + n4 * 4 + n1
      in if n1 = 4 \<or> n100 = 4 then (y, 365) else (y + 1, r1))"

definition ymd_of_days :: "nat \<Rightarrow> nat \<times> nat \<times> nat" where
  "ymd_of_days n =
     (let (y, d) = year_day n; (m, dd) = split_month 1 (month_lengths (is_leap y)) d
      in (y, m, dd))"

definition days_before_year :: "nat \<Rightarrow> nat" where
  "days_before_year y = (y - 1) * 365 + (y - 1) div 4 - (y - 1) div 100 + (y - 1) div 400"

definition dt_ymd :: "datetime \<Rightarrow> nat \<times> nat \<times> nat" where
  "dt_ymd d = ymd_of_days (nat (dt_wall d div usec_per_day))"

section \<open>Texts\<close>

definition iso_date :: "nat \<times> nat \<times> nat \<Rightarrow> string" where
  "iso_date ymd = (case ymd of (y, m, d) \<Rightarrow>
     pad_nat 4 y @ CHR ''-'' # pad_nat 2 m @ CHR ''-'' # pad_nat 2 d)"

definition iso_usec :: "nat \<Rightarrow> string" where
  "iso_usec u = (if u = 0 then [] else CHR ''.'' # pad_nat 6 u)"

definition iso_time :: "nat \<Rightarrow> string" where
  "iso_time t =
     (let s = t div 1000000
      in pad_nat 2 (s div 3600) @ CHR '':'' # pad_nat 2 (s div 60 mod 60) @ CHR '':'' #
         pad_nat 2 (s mod 60) @ iso_usec (t mod 1000000))"

definition iso_offset :: "int option \<Rightarrow> string" where
  "iso_offset off = (case off of None \<Rightarrow> [] | Some z \<Rightarrow>
     (let a = nat \<bar>z\<bar>; s = a div 1000000; u = a mod 1000000
      in (if z < 0 then ''-'' else ''+'') @ pad_nat 2 (s div 3600) @ '':'' @ pad_nat 2 (s div 60 mod 60)
         @ (if s mod 60 = 0 \<and> u = 0 then [] else '':'' @ pad_nat 2 (s mod 60) @ iso_usec u)))"

definition isoformat :: "datetime \<Rightarrow> string" where
  "isoformat d =
     iso_date (dt_ymd d) @ CHR ''T'' # iso_time (nat (dt_wall d mod usec_per_day)) @ iso_offset (dt_off d)"

definition strftime_Y :: "datetime \<Rightarrow> string" where
  "strftime_Y d = nat_str (fst (dt_ymd d))"

definition strftime_m :: "datetime \<Rightarrow> string" where
  "strftime_m d = pad_nat 2 (fst (snd (dt_ymd d)))"

text \<open>\<open>astimezone(timezone.utc)\<close> of an aware value; out of range it raises.\<close>

definition astimezone_utc :: "datetime \<Rightarrow> datetime result" where
  "astimezone_utc d =
     (if valid_wall (instant_of d) then Ok (utc_datetime (instant_of d))
      else Raise (OtherExn ''OverflowError'' ''date value out of range''))"

section \<open>The calendar is injective\<close>

lemma split_month_sound:
  assumes "split_month m ls d = (m', d')" and "d < sum_list ls"
  shows "m \<le> m'" and "m' < m + length ls" and "0 < d'" and "d + 1 = sum_list (take (m' - m) ls) + d'"
    and "d' \<le> ls ! (m' - m)"
proof -
  have "m \<le> m' \<and> m' < m + length ls \<and> 0 < d' \<and> d + 1 = sum_list (take (m' - m) ls) + d'
      \<and> d' \<le> ls ! (m' - m)"
    using assms
  proof (induction m ls d arbitrary: m' d' rule: split_month.induct)
    case (2 m l ls d)
    show ?case
    proof (cases "d < l")
      case False
      then have IH: "m + 1 \<le> m' \<and> m' < m + 1 + length ls \<and> 0 < d' \<and>
          d - l + 1 = sum_list (take (m' - (m + 1)) ls) + d' \<and> d' \<le> ls ! (m' - (m + 1))"
        using "2" by auto
      then have "take (m' - m) (l # ls) = l # take (m' - (m + 1)) ls"
        and "(l # ls) ! (m' - m) = ls ! (m' - (m + 1))"
        by (simp_all add: take_Cons' nth_Cons' Suc_diff_Suc)
      then show ?thesis using IH False by simp linarith
    qed (use "2" in auto)
  qed simp
  then show "m \<le> m'" "m' < m + length ls" "0 < d'" "d + 1 = sum_list (take (m' - m) ls) + d'"
    "d' \<le> ls ! (m' - m)"
    by blast+
qed

lemma sum_month_lengths: "sum_list (month_lengths b) = (if b then 366 else 365)"
  by (simp add: month_lengths_def)

text \<open>Quotients of the cycle decomposition, with the two days that end a cycle.\<close>

lemma year_day_parts:
  fixes n :: nat
  defines "a \<equiv> n div 146097" and "r \<equiv> n mod 146097"
  defines "b \<equiv> r div 36524" and "r2 \<equiv> r mod 36524"
  defines "c \<equiv> r2 div 1461" and "r3 \<equiv> r2 mod 1461"
  defines "e \<equiv> r3 div 365" and "f \<equiv> r3 mod 365"
  shows "n = a * 146097 + b * 36524 + c * 1461 + e * 365 + f"
    and "b \<le> 4" and "c \<le> 24" and "e \<le> 4" and "f < 365"
    and "b = 4 \<Longrightarrow> c = 0 \<and> e = 0 \<and> f = 0"
    and "e = 4 \<Longrightarrow> f = 0"
    and "b < 4 \<Longrightarrow> c = 24 \<Longrightarrow> e = 4 \<Longrightarrow> False"
proof -
  have n: "n = a * 146097 + r" "r < 146097" by (simp_all add: a_def r_def)
  have r: "r = b * 36524 + r2" "r2 < 36524" by (simp_all add: b_def r2_def)
  have r2: "r2 = c * 1461 + r3" "r3 < 1461" by (simp_all add: c_def r3_def)
  have r3: "r3 = e * 365 + f" "f < 365" by (simp_all add: e_def f_def)
  show "n = a * 146097 + b * 36524 + c * 1461 + e * 365 + f"
    using n r r2 r3 by linarith
  show "b \<le> 4" using n r by linarith
  show "c \<le> 24" using r r2 by linarith
  show "e \<le> 4" using r2 r3 by linarith
  show "f < 365" by (rule r3)
  show "c = 0 \<and> e = 0 \<and> f = 0" if "b = 4"
  proof -
    have "r2 = 0" using n r that by linarith
    then show ?thesis using r2 r3 by simp
  qed
  show "f = 0" if "e = 4" using r2 r3 that by linarith
  show False if "b < 4" "c = 24" "e = 4" using r r2 r3 that by linarith
qed

lemma days_before_year_cycles:
  assumes "b \<le> 3" "c \<le> 24" "e \<le> 3"
  shows "days_before_year (a * 400 + b * 100 + c * 4 + e + 1)
      = a * 146097 + b * 36524 + c * 1461 + e * 365"
proof -
  let ?y = "a * 400 + b * 100 + c * 4 + e"
  have "?y div 4 = a * 100 + b * 25 + c" using assms by linarith
  moreover have "?y div 100 = a * 4 + b" using assms by linarith
  moreover have "?y div 400 = a" using assms by linarith
  ultimately show ?thesis by (simp add: days_before_year_def)
qed

lemma mod_eq_0_cycle:
  fixes m k r :: nat
  assumes "0 < r" and "r \<le> m"
  shows "(m * k + r) mod m = 0 \<longleftrightarrow> r = m"
proof (cases "r = m")
  case False
  then have "(m * k + r) mod m = r" using assms by simp
  then show ?thesis using assms False by simp
qed simp

lemma leap_cycles:
  assumes "b \<le> 3" "c \<le> 24" "e \<le> 3"
  shows "is_leap (a * 400 + b * 100 + c * 4 + e + 1) \<longleftrightarrow> e = 3 \<and> (c \<noteq> 24 \<or> b = 3)"
proof -
  let ?y = "a * 400 + b * 100 + c * 4 + e + 1"
  have y4: "?y = 4 * (100 * a + 25 * b + c) + (e + 1)" by simp
  have 4: "?y mod 4 = 0 \<longleftrightarrow> e + 1 = 4"
    unfolding y4 by (rule mod_eq_0_cycle) (use assms in simp_all)
  have y100: "?y = 100 * (4 * a + b) + (c * 4 + e + 1)" by simp
  have 100: "?y mod 100 = 0 \<longleftrightarrow> c * 4 + e + 1 = 100"
    unfolding y100 by (rule mod_eq_0_cycle) (use assms in simp_all)
  have y400: "?y = 400 * a + (b * 100 + c * 4 + e + 1)" by simp
  have 400: "?y mod 400 = 0 \<longleftrightarrow> b * 100 + c * 4 + e + 1 = 400"
    unfolding y400 by (rule mod_eq_0_cycle) (use assms in simp_all)
  show ?thesis
    unfolding is_leap_def 4 100 400 using assms by linarith
qed

lemma year_day_inverse:
  assumes "year_day n = (y, d)"
  shows "days_before_year y + d = n" and "d < sum_list (month_lengths (is_leap y))" and "0 < y"
proof -
  define a r where "a = n div 146097" and "r = n mod 146097"
  define b r2 where "b = r div 36524" and "r2 = r mod 36524"
  define c r3 where "c = r2 div 1461" and "r3 = r2 mod 1461"
  define e f where "e = r3 div 365" and "f = r3 mod 365"
  note defs = a_def r_def b_def r2_def c_def r3_def e_def f_def
  have n: "n = a * 146097 + b * 36524 + c * 1461 + e * 365 + f"
    and bounds: "b \<le> 4" "c \<le> 24" "e \<le> 4" "f < 365"
    and b4: "b = 4 \<Longrightarrow> c = 0 \<and> e = 0 \<and> f = 0" and e4: "e = 4 \<Longrightarrow> f = 0"
    and e4c: "b < 4 \<Longrightarrow> c = 24 \<Longrightarrow> e = 4 \<Longrightarrow> False"
    unfolding defs by (rule year_day_parts; assumption)+
  have yd: "year_day n = (if e = 4 \<or> b = 4 then (a * 400 + b * 100 + c * 4 + e, 365)
      else (a * 400 + b * 100 + c * 4 + e + 1, f))"
    by (simp add: year_day_def Let_def defs)
  have "days_before_year y + d = n \<and> d < sum_list (month_lengths (is_leap y)) \<and> 0 < y"
  proof (cases "b = 4")
    case True
    then have cef: "c = 0" "e = 0" "f = 0" using b4 by auto
    have y: "y = a * 400 + 3 * 100 + 24 * 4 + 3 + 1" and d: "d = 365"
      using assms yd True cef by auto
    show ?thesis
      using days_before_year_cycles [of 3 24 3 a] leap_cycles [of 3 24 3 a] n True cef
      unfolding y d sum_month_lengths by simp
  next
    case b: False
    show ?thesis
    proof (cases "e = 4")
      case True
      then have y: "y = a * 400 + b * 100 + c * 4 + 3 + 1" and d: "d = 365" and f: "f = 0"
        using assms yd b e4 by auto
      have "c \<noteq> 24" using e4c b bounds True by auto
      then show ?thesis
        using days_before_year_cycles [of b c 3 a] leap_cycles [of b c 3 a] n True bounds b f
        unfolding y d sum_month_lengths by simp
    next
      case False
      then have y: "y = a * 400 + b * 100 + c * 4 + e + 1" and d: "d = f"
        using assms yd b by auto
      show ?thesis
        using days_before_year_cycles [of b c e a] n bounds b False
        unfolding y d sum_month_lengths by simp
    qed
  qed
  then show "days_before_year y + d = n" "d < sum_list (month_lengths (is_leap y))" "0 < y"
    by blast+
qed

lemma ymd_of_days_inj:
  assumes "ymd_of_days m = ymd_of_days n"
  shows "m = n"
proof -
  obtain y d where m: "year_day m = (y, d)" by (cases "year_day m")
  obtain y' d' where n: "year_day n = (y', d')" by (cases "year_day n")
  obtain k i where s: "split_month 1 (month_lengths (is_leap y)) d = (k, i)"
    by (cases "split_month 1 (month_lengths (is_leap y)) d")
  obtain k' i' where s': "split_month 1 (month_lengths (is_leap y')) d' = (k', i')"
    by (cases "split_month 1 (month_lengths (is_leap y')) d'")
  have eq: "y' = y" "k' = k" "i' = i"
    using assms s s' by (auto simp: ymd_of_days_def m n)
  have "d + 1 = d' + 1"
    using split_month_sound(4) [OF s year_day_inverse(2) [OF m]]
      split_month_sound(4) [OF s' year_day_inverse(2) [OF n]] eq by simp
  then show ?thesis
    using year_day_inverse(1) [OF m] year_day_inverse(1) [OF n] eq by simp
qed

lemma ymd_of_days_bounds:
  assumes "ymd_of_days n = (y, m, d)"
  shows "1 \<le> m" and "m \<le> 12" and "1 \<le> d" and "d \<le> 31"
proof -
  obtain y' k where yd: "year_day n = (y', k)" by (cases "year_day n")
  then have s: "split_month 1 (month_lengths (is_leap y)) k = (m, d)"
    using assms by (auto simp: ymd_of_days_def split: prod.splits)
  have "y' = y" using assms yd by (auto simp: ymd_of_days_def split: prod.splits)
  then have k: "k < sum_list (month_lengths (is_leap y))" using year_day_inverse(2) [OF yd] by simp
  note b = split_month_sound [OF s k]
  show "1 \<le> m" "m \<le> 12" "1 \<le> d" using b by (auto simp: month_lengths_def)
  have "\<forall>l\<in>set (month_lengths (is_leap y)). l \<le> 31" by (simp add: month_lengths_def)
  moreover have "m - 1 < length (month_lengths (is_leap y))" using b(1,2) by simp
  ultimately show "d \<le> 31" using b(5) nth_mem le_trans by blast
qed

lemma ymd_of_days_year:
  assumes "ymd_of_days n = (y, m, d)" and "n < 3652059"
  shows "y \<le> 9999"
proof (rule ccontr)
  assume "\<not> y \<le> 9999"
  obtain k where yd: "year_day n = (y, k)"
    using assms(1) by (auto simp: ymd_of_days_def split: prod.splits)
  have "days_before_year y \<ge> 3652059"
  proof (cases "y = 10000")
    case True
    then show ?thesis by (simp add: days_before_year_def)
  next
    case False
    define x where "x = y - 1"
    have "10000 \<le> x" using \<open>\<not> y \<le> 9999\<close> False by (simp add: x_def)
    moreover have "x div 100 \<le> x div 4" by (rule div_le_mono2) simp_all
    moreover have "x div 100 * 24 \<le> x div 4 - x div 100"
    proof -
      have "x div 100 * 100 \<le> x" by simp
      then have "x div 100 * 25 \<le> x div 4" by linarith
      then show ?thesis by linarith
    qed
    moreover have "100 \<le> x div 100" using \<open>10000 \<le> x\<close> by linarith
    ultimately show ?thesis unfolding days_before_year_def x_def [symmetric] by linarith
  qed
  then show False using year_day_inverse(1) [OF yd] assms(2) by linarith
qed

section \<open>The UTC text determines the instant\<close>

lemma hms_split: "(a div 3600 * 60 + a div 60 mod 60) * 60 + a mod 60 = a" for a :: nat
proof -
  have "a div 3600 = a div 60 div 60" by (simp add: div_mult2_eq [symmetric])
  then show ?thesis by simp
qed

lemma iso_time_inj:
  assumes eq: "iso_time s @ z = iso_time t @ z" and "s < 86400000000" and "t < 86400000000"
  shows "s = t"
proof -
  let ?h = "\<lambda>x. x div 1000000 div 3600" and ?m = "\<lambda>x. x div 1000000 div 60 mod 60"
  let ?s = "\<lambda>x. x div 1000000 mod 60" and ?u = "\<lambda>x. x mod 1000000 :: nat"
  have "pad_nat 2 (?h s) = pad_nat 2 (?h t) \<and> pad_nat 2 (?m s) = pad_nat 2 (?m t) \<and>
      pad_nat 2 (?s s) = pad_nat 2 (?s t) \<and> iso_usec (?u s) = iso_usec (?u t)"
    using eq by (simp add: iso_time_def Let_def)
  then have "?h s = ?h t" "?m s = ?m t" "?s s = ?s t" and u: "iso_usec (?u s) = iso_usec (?u t)"
    using assms(2,3) by (auto elim!: pad_nat_inj)
  moreover have "?u s = ?u t"
    using u by (auto simp: iso_usec_def elim!: pad_nat_inj split: if_splits)
  moreover have "x = ((?h x * 60 + ?m x) * 60 + ?s x) * 1000000 + ?u x" for x
    using hms_split [of "x div 1000000"] by simp
  ultimately show ?thesis by metis
qed

lemma isoformat_utc_inj:
  assumes eq: "isoformat (utc_datetime s) = isoformat (utc_datetime t)"
    and "valid_wall s" and "valid_wall t"
  shows "s = t"
proof -
  define i j where "i = nat (s div usec_per_day)" and "j = nat (t div usec_per_day)"
  obtain y m d where i: "ymd_of_days i = (y, m, d)" by (cases "ymd_of_days i")
  obtain y' m' d' where j: "ymd_of_days j = (y', m', d')" by (cases "ymd_of_days j")
  have less: "i < 3652059" "j < 3652059"
    using assms(2,3) by (auto simp: i_def j_def valid_wall_def max_wall_def nat_less_iff)
  have "iso_date (y, m, d) = iso_date (y', m', d')"
    and tm: "iso_time (nat (s mod usec_per_day)) @ iso_offset (Some 0)
      = iso_time (nat (t mod usec_per_day)) @ iso_offset (Some 0)"
    using eq by (simp_all add: isoformat_def dt_ymd_def utc_datetime_def
        i_def [symmetric] j_def [symmetric] i j iso_date_def)
  then have "y = y' \<and> m = m' \<and> d = d'"
    using ymd_of_days_year [OF i less(1)] ymd_of_days_year [OF j less(2)]
      ymd_of_days_bounds [OF i] ymd_of_days_bounds [OF j]
    by (auto simp: iso_date_def elim!: pad_nat_inj)
  then have "i = j" using i j ymd_of_days_inj by auto
  then have "s div usec_per_day = t div usec_per_day"
    using assms(2,3) by (auto simp: i_def j_def valid_wall_def pos_imp_zdiv_nonneg_iff)
  moreover have "nat (s mod usec_per_day) = nat (t mod usec_per_day)"
    by (rule iso_time_inj [OF tm]) (simp_all add: nat_less_iff)
  then have "s mod usec_per_day = t mod usec_per_day" by simp
  ultimately show ?thesis by (metis div_mult_mod_eq)
qed

end
