(* ===== verification/PyUuid.thy ===== *)
theory PyUuid
  imports PyText
begin

text \<open>
  \<open>uuid.UUID\<close> of the standard library: a 128-bit value, its canonical text
  (\<open>str(u)\<close>) and the constructor from a text, which accepts upper case, braces,
  \<open>urn:uuid:\<close> prefixes and hyphens anywhere, then reads 32 characters with
  \<open>int(s, 16)\<close>. The canonical text reads back and never holds the separator of
  the audit message.
\<close>

type_synonym uuid = "128 word"

section \<open>Printing\<close>

definition uuid_hex :: "uuid \<Rightarrow> string" where
  "uuid_hex u = map hexdig (digits_be 16 32 (unat u))"

definition hyphenate :: "string \<Rightarrow> string" where
  "hyphenate h =
     take 8 h @ CHR ''-'' # take 4 (drop 8 h) @ CHR ''-'' # take 4 (drop 12 h) @ CHR ''-'' #
     take 4 (drop 16 h) @ CHR ''-'' # drop 20 h"

definition uuid_str :: "uuid \<Rightarrow> string" where
  "uuid_str u = hyphenate (uuid_hex u)"

section \<open>Reading\<close>

function remove_all :: "string \<Rightarrow> string \<Rightarrow> string" where
  "remove_all p [] = []"
| "remove_all p (c # s) =
     (if p \<noteq> [] \<and> starts_with p (c # s) then remove_all p (drop (length p) (c # s))
      else c # remove_all p s)"
  by pat_completeness auto
termination
  by (relation "measure (\<lambda>(p, s). length s)") (auto simp: neq_Nil_conv)

definition is_brace :: "char \<Rightarrow> bool" where
  "is_brace c = (c = CHR ''{'' \<or> c = CHR ''}'')"

definition strip_braces :: "string \<Rightarrow> string" where
  "strip_braces s = rev (dropWhile is_brace (rev (dropWhile is_brace s)))"

text \<open>The digits of \<open>int(s, 16)\<close>: single underscores may stand between digits.\<close>

fun hex_digits :: "bool \<Rightarrow> string \<Rightarrow> nat list option" where
  "hex_digits after [] = (if after then Some [] else None)"
| "hex_digits after (c # s) =
     (if c = CHR ''_'' then (if after then hex_digits False s else None)
      else case hexval c of
        None \<Rightarrow> None
      | Some d \<Rightarrow> map_option (Cons d) (hex_digits True s))"

definition sign_of :: "string \<Rightarrow> int \<times> string" where
  "sign_of s = (case s of
     c # r \<Rightarrow> if c = CHR ''-'' then (-1, r) else if c = CHR ''+'' then (1, r) else (1, s)
   | [] \<Rightarrow> (1, s))"

definition drop_0x :: "string \<Rightarrow> string" where
  "drop_0x s = (if starts_with ''0x'' s \<or> starts_with ''0X'' s
     then (if starts_with ''_'' (drop 2 s) then drop 3 s else drop 2 s) else s)"

definition int_of_hex :: "string \<Rightarrow> int result" where
  "int_of_hex s =
     (let (sg, r) = sign_of (strip s)
      in case hex_digits False (drop_0x r) of
        None \<Rightarrow> Raise (ValueError ''invalid literal for int() with base 16'')
      | Some ds \<Rightarrow> Ok (sg * int (undigits 16 ds)))"

text \<open>\<open>int(s)\<close> of a decimal text.\<close>

definition py_int :: "string \<Rightarrow> int result" where
  "py_int s =
     (let (sg, r) = sign_of (strip s)
      in case hex_digits False r of
        None \<Rightarrow> Raise (ValueError ''invalid literal for int() with base 10'')
      | Some ds \<Rightarrow> if list_all (\<lambda>d. d < 10) ds then Ok (sg * int (undigits 10 ds))
          else Raise (ValueError ''invalid literal for int() with base 10''))"

definition parse_uuid :: "string \<Rightarrow> uuid result" where
  "parse_uuid s =
     (let h = remove_all ''-'' (strip_braces (remove_all ''uuid:'' (remove_all ''urn:'' s)))
      in if length h \<noteq> 32 then Raise (ValueError ''badly formed hexadecimal UUID string'')
         else rbind (int_of_hex h) (\<lambda>i.
           if 0 \<le> i \<and> i < 2 ^ 128 then Ok (word_of_int i)
           else Raise (ValueError ''int is out of range (need a 128-bit value)'')))"

section \<open>Round trip\<close>

abbreviation hex_chars :: "char set" where
  "hex_chars \<equiv> set ''0123456789abcdef''"

lemma uuid_hex_chars: "set (uuid_hex u) \<subseteq> hex_chars"
  using digits_be_less [of 16 _ 32 "unat u"] hexdig_facts(6)
  by (auto simp only: uuid_hex_def set_map image_subset_iff)

lemma length_uuid_hex [simp]: "length (uuid_hex u) = 32"
  by (simp add: uuid_hex_def)

lemma hyphenate_chars: "set (hyphenate h) \<subseteq> insert (CHR ''-'') (set h)"
  unfolding hyphenate_def by (auto dest: in_set_takeD in_set_dropD)

lemma uuid_str_chars: "set (uuid_str u) \<subseteq> insert (CHR ''-'') hex_chars"
  unfolding uuid_str_def using hyphenate_chars uuid_hex_chars by fast

lemma length_uuid_str [simp]: "length (uuid_str u) = 36"
  by (simp add: uuid_str_def hyphenate_def)

lemma remove_all_absent: "hd p \<notin> set s \<Longrightarrow> p \<noteq> [] \<Longrightarrow> remove_all p s = s"
proof (induction s)
  case (Cons c s)
  then show ?case by (cases p) auto
qed simp

lemma remove_char: "remove_all [c] s = filter (\<lambda>x. x \<noteq> c) s"
  by (induction s) auto

lemma filter_hyphenate:
  assumes "CHR ''-'' \<notin> set h"
  shows "filter (\<lambda>x. x \<noteq> CHR ''-'') (hyphenate h) = h"
proof -
  have keep: "filter (\<lambda>x. x \<noteq> CHR ''-'') g = g" if "set g \<subseteq> set h" for g
    using that assms by (induction g) auto
  have join: "take 4 (drop 16 h) @ drop 20 h = drop 16 h" "take 4 (drop 12 h) @ drop 16 h = drop 12 h"
    "take 4 (drop 8 h) @ drop 12 h = drop 8 h" "take 8 h @ drop 8 h = h"
    using append_take_drop_id [of 4 "drop 16 h"] append_take_drop_id [of 4 "drop 12 h"]
      append_take_drop_id [of 4 "drop 8 h"] by simp_all
  have sub: "set (take n (drop m h)) \<subseteq> set h" "set (take n h) \<subseteq> set h" "set (drop n h) \<subseteq> set h" for m n
    by (meson in_set_takeD in_set_dropD subsetI)+
  show ?thesis
    by (simp add: hyphenate_def keep [OF sub(1)] keep [OF sub(2)] keep [OF sub(3)] join)
qed

lemma dropWhile_absent: "(\<And>x. x \<in> set s \<Longrightarrow> \<not> P x) \<Longrightarrow> dropWhile P s = s"
  by (cases s) auto

lemma trim_absent:
  assumes "\<forall>x\<in>set s. \<not> P x"
  shows "rev (dropWhile P (rev (dropWhile P s))) = s"
proof -
  have "dropWhile P s = s" "dropWhile P (rev s) = rev s"
    using assms by (auto intro: dropWhile_absent)
  then show ?thesis by (simp only: rev_rev_ident)
qed

lemma hex_digits_hexdig:
  "\<forall>d\<in>set ds. d < 16 \<Longrightarrow> after \<or> ds \<noteq> [] \<Longrightarrow> hex_digits after (map hexdig ds) = Some ds"
proof (induction ds arbitrary: after)
  case (Cons d ds)
  have "hexdig d \<noteq> CHR ''_''" using hexdig_facts(6) [of d] Cons.prems by auto
  then show ?case using Cons by (simp add: hexdig_facts)
qed simp

lemma int_of_hex_uuid: "int_of_hex (uuid_hex u) = Ok (int (unat u))"
proof -
  have noneq: "CHR ''x'' \<notin> hex_chars" "CHR ''X'' \<notin> hex_chars" "CHR ''-'' \<notin> hex_chars"
    "CHR ''+'' \<notin> hex_chars"
    by simp_all
  have space: "\<not> is_space c" if "c \<in> set (uuid_hex u)" for c
    using that digits_be_less [of 16 _ 32 "unat u"] by (auto simp: uuid_hex_def hexdig_facts)
  have strip: "strip (uuid_hex u) = uuid_hex u"
    unfolding strip_def by (rule trim_absent) (use space in blast)
  have sign: "sign_of (uuid_hex u) = (1, uuid_hex u)"
    using uuid_hex_chars [of u] noneq by (auto simp: sign_of_def split: list.splits)
  have prefix: "drop_0x (uuid_hex u) = uuid_hex u"
    using uuid_hex_chars [of u] noneq unfolding drop_0x_def
    by (cases "uuid_hex u"; cases "tl (uuid_hex u)") auto
  have "hex_digits False (uuid_hex u) = Some (digits_be 16 32 (unat u))"
    unfolding uuid_hex_def
    by (rule hex_digits_hexdig) (auto dest: digits_be_less [of 16, rotated] simp flip: length_0_conv)
  moreover have "unat u < 2 ^ 128" using unsigned_less [of u, where 'a = nat] by simp
  ultimately show ?thesis
    by (simp add: int_of_hex_def strip sign prefix undigits_digits_be)
qed

lemma parse_uuid_str [simp]: "parse_uuid (uuid_str u) = Ok u"
proof -
  have out: "CHR ''u'' \<notin> insert (CHR ''-'') hex_chars" "CHR ''{'' \<notin> insert (CHR ''-'') hex_chars"
    "CHR ''}'' \<notin> insert (CHR ''-'') hex_chars" "CHR ''-'' \<notin> hex_chars"
    by simp_all
  have no: "CHR ''u'' \<notin> set (uuid_str u)" "CHR ''{'' \<notin> set (uuid_str u)" "CHR ''}'' \<notin> set (uuid_str u)"
    using uuid_str_chars [of u] out by blast+
  have "strip_braces (uuid_str u) = uuid_str u"
    unfolding strip_braces_def by (rule trim_absent) (use no in \<open>auto simp: is_brace_def\<close>)
  moreover have "remove_all ''-'' (uuid_str u) = uuid_hex u"
    unfolding remove_char uuid_str_def
    by (rule filter_hyphenate) (use uuid_hex_chars [of u] out in blast)
  moreover have "int (unat u) < 2 ^ 128"
    using uint_bounded [of u] by simp
  ultimately show ?thesis
    using no by (simp add: parse_uuid_def remove_all_absent int_of_hex_uuid)
qed

definition uuid_of_text :: "string \<Rightarrow> uuid option" where
  "uuid_of_text s = (case parse_uuid s of Inl _ \<Rightarrow> None | Inr u \<Rightarrow> Some u)"

interpretation uuid: field_codec uuid_str uuid_of_text "\<lambda>_. True" "CHR ''|''"
proof unfold_locales
  fix u :: uuid
  show "uuid_of_text (uuid_str u) = Some u" by (simp add: uuid_of_text_def)
  have "CHR ''|'' \<notin> insert (CHR ''-'') hex_chars" by simp
  then show "CHR ''|'' \<notin> set (uuid_str u)" using uuid_str_chars [of u] by blast
qed

section \<open>Reading decimal numbers\<close>

lemma digit_facts:
  assumes "is_digit c"
  shows "hexval c = Some (digit_val c)" "digit_val c < 10" "\<not> is_space c" "c \<noteq> CHR ''_''" "c \<noteq> CHR ''-''" "c \<noteq> CHR ''+''"
proof -
  have "code_point c \<in> {48..57}" using assms by (simp add: is_digit_def)
  then show "hexval c = Some (digit_val c)" "digit_val c < 10" "\<not> is_space c"
    by (auto simp: hexval_def digit_val_def is_space_def Let_def)
  show "c \<noteq> CHR ''_''" "c \<noteq> CHR ''-''" "c \<noteq> CHR ''+''"
    using assms by (auto simp: is_digit_def code_point_def)
qed

lemma hex_digits_decimal:
  "list_all is_digit s \<Longrightarrow> after \<or> s \<noteq> [] \<Longrightarrow> hex_digits after s = Some (map digit_val s)"
  by (induction s arbitrary: after) (auto simp: digit_facts)

lemma py_int_nat_str [simp]: "py_int (nat_str n) = Ok (int n)"
proof -
  have digits: "list_all is_digit (nat_str n)" by (rule nat_str_digits)
  have "strip (nat_str n) = nat_str n"
    unfolding strip_def using digits by (intro trim_absent) (auto simp: list_all_iff digit_facts)
  moreover have "sign_of (nat_str n) = (1, nat_str n)"
    using digits by (auto simp: sign_of_def is_digit_def code_point_def split: list.splits)
  moreover have "list_all (\<lambda>d. d < 10) (map digit_val (nat_str n))"
    using digits by (auto simp: list_all_iff digit_facts)
  ultimately show ?thesis
    by (simp add: py_int_def hex_digits_decimal [OF digits] undigits_nat_str)
qed

end
