(* ===== verification/Json.thy ===== *)
theory Json
  imports PyTime PyUuid "HOL-Library.List_Lexorder" "HOL-Library.Char_ord"
begin

text \<open>
  The Python values that reach the audit record and \<open>json.dumps\<close> with
  \<open>sort_keys=True\<close>, \<open>separators=(",", ":")\<close> and ASCII escapes, and \<open>json.loads\<close>.
  A dict is the list of its items in insertion order, with text keys; a float
  is its JSON text (\<open>float.__repr__\<close>, or \<open>NaN\<close>, \<open>Infinity\<close>, \<open>-Infinity\<close>). Shown here:
  writing then reading gives the value back with dates, UUIDs and enum members
  replaced by what they were written as.
\<close>

section \<open>Values\<close>

datatype pyval =
    PNone
  | PBool bool
  | PInt int
  | PFloat string
  | PStr string
  | PList "pyval list"
  | PDict "(string \<times> pyval) list"
  | PDatetime datetime
  | PUuid uuid
  | PEnum pyval
  | PData string "(string \<times> pyval) list"
  | PObj string "(string \<times> pyval) list"
  | POther string string

abbreviation quote_char :: char where
  "quote_char \<equiv> CHR 0x22"

abbreviation backslash :: char where
  "backslash \<equiv> CHR 0x5C"

definition dict_get :: "string \<Rightarrow> (string \<times> pyval) list \<Rightarrow> pyval option" where
  "dict_get k kvs = map_of kvs k"

fun dict_set :: "string \<Rightarrow> pyval \<Rightarrow> (string \<times> pyval) list \<Rightarrow> (string \<times> pyval) list" where
  "dict_set k v [] = [(k, v)]"
| "dict_set k v ((k', v') # r) = (if k' = k then (k, v) # r else (k', v') # dict_set k v r)"

definition dict_of_pairs :: "(string \<times> pyval) list \<Rightarrow> (string \<times> pyval) list" where
  "dict_of_pairs kvs = foldl (\<lambda>d kv. dict_set (fst kv) (snd kv) d) [] kvs"

fun truthy :: "pyval \<Rightarrow> bool" where
  "truthy PNone = False"
| "truthy (PBool b) = b"
| "truthy (PInt i) = (i \<noteq> 0)"
| "truthy (PFloat t) = (t \<notin> {''0.0'', ''-0.0''})"
| "truthy (PStr s) = (s \<noteq> [])"
| "truthy (PList xs) = (xs \<noteq> [])"
| "truthy (PDict kvs) = (kvs \<noteq> [])"
| "truthy _ = True"

section \<open>Writing\<close>

definition escape_char :: "char \<Rightarrow> string" where
  "escape_char c =
     (let n = code_point c in
      if c = quote_char then [backslash, quote_char]
      else if c = backslash then [backslash, backslash]
      else if n = 10 then [backslash, CHR ''n'']
      else if n = 13 then [backslash, CHR ''r'']
      else if n = 9 then [backslash, CHR ''t'']
      else if n = 12 then [backslash, CHR ''f'']
      else if n = 8 then [backslash, CHR ''b'']
      else if 32 \<le> n \<and> n \<le> 126 then [c]
      else backslash # CHR ''u'' # map hexdig (digits_be 16 4 n))"

definition escape_str :: "string \<Rightarrow> string" where
  "escape_str s = quote_char # concat (map escape_char s) @ [quote_char]"

text \<open>\<open>sort_keys=True\<close>: the items of every dict, also those below enum values.\<close>

fun sort_dicts :: "pyval \<Rightarrow> pyval"
  and sort_list :: "pyval list \<Rightarrow> pyval list"
  and sort_pairs :: "(string \<times> pyval) list \<Rightarrow> (string \<times> pyval) list" where
  "sort_dicts (PList vs) = PList (sort_list vs)"
| "sort_dicts (PDict kvs) = PDict (sort_key fst (sort_pairs kvs))"
| "sort_dicts (PEnum v) = PEnum (sort_dicts v)"
| "sort_dicts v = v"
| "sort_list [] = []"
| "sort_list (v # vs) = sort_dicts v # sort_list vs"
| "sort_pairs [] = []"
| "sort_pairs ((k, v) # kvs) = (k, sort_dicts v) # sort_pairs kvs"

definition not_serialisable :: "string \<Rightarrow> exn" where
  "not_serialisable cls = TypeError (''Object of type '' @ cls @ '' is not JSON serialisable'')"

fun dump :: "pyval \<Rightarrow> string result"
  and dump_list :: "pyval list \<Rightarrow> string result"
  and dump_pairs :: "(string \<times> pyval) list \<Rightarrow> string result" where
  "dump PNone = Ok ''null''"
| "dump (PBool b) = Ok (if b then ''true'' else ''false'')"
| "dump (PInt i) = Ok (int_str i)"
| "dump (PFloat t) = Ok t"
| "dump (PStr s) = Ok (escape_str s)"
| "dump (PList vs) = rbind (dump_list vs) (\<lambda>t. Ok (''['' @ t @ '']''))"
| "dump (PDict kvs) = rbind (dump_pairs kvs) (\<lambda>t. Ok (''{'' @ t @ ''}''))"
| "dump (PDatetime d) = Ok (escape_str (isoformat d))"
| "dump (PUuid u) = Ok (escape_str (uuid_str u))"
| "dump (PEnum v) = dump v"
| "dump (PData cls fs) = Raise (not_serialisable cls)"
| "dump (PObj cls fs) = Raise (not_serialisable cls)"
| "dump (POther cls t) = Raise (not_serialisable cls)"
| "dump_list [] = Ok []"
| "dump_list (v # vs) = rbind (dump v) (\<lambda>t.
     if vs = [] then Ok t else rbind (dump_list vs) (\<lambda>u. Ok (t @ '','' @ u)))"
| "dump_pairs [] = Ok []"
| "dump_pairs ((k, v) # kvs) = rbind (dump v) (\<lambda>t.
     if kvs = [] then Ok (escape_str k @ '':'' @ t)
     else rbind (dump_pairs kvs) (\<lambda>u. Ok (escape_str k @ '':'' @ t @ '','' @ u)))"

definition dumps :: "pyval \<Rightarrow> string result" where
  "dumps v = dump (sort_dicts v)"

section \<open>Reading\<close>

definition json_space :: "char \<Rightarrow> bool" where
  "json_space c = (code_point c \<in> {9, 10, 13, 32})"

definition scan_frac :: "string \<Rightarrow> string \<times> string" where
  "scan_frac s = (case s of
     [] \<Rightarrow> ([], [])
   | c # r \<Rightarrow> if c = CHR ''.'' \<and> takeWhile is_digit r \<noteq> []
              then (c # takeWhile is_digit r, dropWhile is_digit r) else ([], s))"

definition scan_sign :: "string \<Rightarrow> string \<times> string" where
  "scan_sign s = (case s of
     [] \<Rightarrow> ([], [])
   | c # r \<Rightarrow> if c = CHR ''+'' \<or> c = CHR ''-'' then ([c], r) else ([], s))"

definition scan_exp :: "string \<Rightarrow> string \<times> string" where
  "scan_exp s = (case s of
     [] \<Rightarrow> ([], [])
   | c # r \<Rightarrow> let (sg, r') = scan_sign r in
       if (c = CHR ''e'' \<or> c = CHR ''E'') \<and> takeWhile is_digit r' \<noteq> []
       then (c # sg @ takeWhile is_digit r', dropWhile is_digit r') else ([], s))"

definition scan_int :: "string \<Rightarrow> string \<times> string" where
  "scan_int s = (case s of
     [] \<Rightarrow> ([], [])
   | c # r \<Rightarrow> if c = CHR ''0'' then ([c], r) else (takeWhile is_digit s, dropWhile is_digit s))"

definition parse_number :: "string \<Rightarrow> (pyval \<times> string) option" where
  "parse_number s =
     (let neg = starts_with ''-'' s;
          (ds, s2) = scan_int (if neg then tl s else s);
          (frac, s3) = scan_frac s2;
          (ex, s4) = scan_exp s3
      in if ds = [] then None
         else if frac = [] \<and> ex = []
         then Some (PInt ((if neg then - 1 else 1) * int (undigits 10 (map digit_val ds))), s4)
         else Some (PFloat ((if neg then ''-'' else []) @ ds @ frac @ ex), s4))"

definition simple_escape :: "char \<Rightarrow> char option" where
  "simple_escape c =
     map_of [(quote_char, quote_char), (backslash, backslash), (CHR ''/'', CHR ''/''),
       (CHR ''b'', CHR 0x08), (CHR ''f'', CHR 0x0C), (CHR ''n'', CHR 0x0A), (CHR ''r'', CHR 0x0D),
       (CHR ''t'', CHR 0x09)] c"

text \<open>The four digits of \<open>\\u\<close>; a code point above 255 is outside the modelled texts.\<close>

definition read_u4 :: "string \<Rightarrow> char option" where
  "read_u4 s =
     (case map hexval (take 4 s) of
        [Some a, Some b, Some c, Some d] \<Rightarrow>
          (let n = undigits 16 [a, b, c, d] in if n < 256 then Some (char_of n) else None)
      | _ \<Rightarrow> None)"

function (sequential) parse_chars :: "string \<Rightarrow> (string \<times> string) option" where
  "parse_chars [] = None"
| "parse_chars (c # s) =
     (if c = quote_char then Some ([], s)
      else if c = backslash then
        (if s = [] then None
         else if hd s = CHR ''u'' then
           (case read_u4 (tl s) of
              None \<Rightarrow> None
            | Some d \<Rightarrow> map_option (\<lambda>(t, r). (d # t, r)) (parse_chars (drop 5 s)))
         else (case simple_escape (hd s) of
              None \<Rightarrow> None
            | Some d \<Rightarrow> map_option (\<lambda>(t, r). (d # t, r)) (parse_chars (tl s))))
      else if code_point c < 32 then None
      else map_option (\<lambda>(t, r). (c # t, r)) (parse_chars s))"
  by pat_completeness auto
termination by (relation "measure length") auto

definition literals :: "(string \<times> pyval) list" where
  "literals = [(''null'', PNone), (''true'', PBool True), (''false'', PBool False),
     (''NaN'', PFloat ''NaN''), (''Infinity'', PFloat ''Infinity''), (''-Infinity'', PFloat ''-Infinity'')]"

definition parse_literal :: "string \<Rightarrow> (pyval \<times> string) option" where
  "parse_literal s =
     (case find (\<lambda>(l, v). starts_with l s) literals of
        Some (l, v) \<Rightarrow> Some (v, drop (length l) s)
      | None \<Rightarrow> None)"

definition skip_ws :: "string \<Rightarrow> string" where
  "skip_ws s = dropWhile json_space s"

fun parse_value :: "nat \<Rightarrow> string \<Rightarrow> (pyval \<times> string) option"
  and parse_elems :: "nat \<Rightarrow> string \<Rightarrow> (pyval list \<times> string) option"
  and parse_pairs :: "nat \<Rightarrow> string \<Rightarrow> ((string \<times> pyval) list \<times> string) option" where
  "parse_value 0 s = None"
| "parse_value (Suc n) s = (case s of
     [] \<Rightarrow> None
   | c # r \<Rightarrow>
       if c = quote_char then map_option (\<lambda>(t, r'). (PStr t, r')) (parse_chars r)
       else if c = CHR ''['' then
         (if starts_with '']'' (skip_ws r) then Some (PList [], tl (skip_ws r))
          else map_option (\<lambda>(vs, r'). (PList vs, r')) (parse_elems n (skip_ws r)))
       else if c = CHR ''{'' then
         (if starts_with ''}'' (skip_ws r) then Some (PDict [], tl (skip_ws r))
          else map_option (\<lambda>(kvs, r'). (PDict (dict_of_pairs kvs), r')) (parse_pairs n (skip_ws r)))
       else case parse_literal s of Some vr \<Rightarrow> Some vr | None \<Rightarrow> parse_number s)"
| "parse_elems 0 s = None"
| "parse_elems (Suc n) s = (case parse_value n s of
     None \<Rightarrow> None
   | Some (v, r) \<Rightarrow>
       if starts_with '']'' (skip_ws r) then Some ([v], tl (skip_ws r))
       else if starts_with '','' (skip_ws r)
       then map_option (\<lambda>(vs, r'). (v # vs, r')) (parse_elems n (skip_ws (tl (skip_ws r))))
       else None)"
| "parse_pairs 0 s = None"
| "parse_pairs (Suc n) s =
     (if \<not> starts_with [quote_char] s then None
      else case parse_chars (tl s) of
        None \<Rightarrow> None
      | Some (k, r1) \<Rightarrow>
          if \<not> starts_with '':'' (skip_ws r1) then None
          else case parse_value n (skip_ws (tl (skip_ws r1))) of
            None \<Rightarrow> None
          | Some (v, r) \<Rightarrow>
              if starts_with ''}'' (skip_ws r) then Some ([(k, v)], tl (skip_ws r))
              else if starts_with '','' (skip_ws r)
              then map_option (\<lambda>(kvs, r'). ((k, v) # kvs, r')) (parse_pairs n (skip_ws (tl (skip_ws r))))
              else None)"

definition json_error :: exn where
  "json_error = ValueError ''JSONDecodeError''"

text \<open>Every recursive call consumes a character or descends once below one, so this fuel suffices.\<close>

definition loads :: "string \<Rightarrow> pyval result" where
  "loads s = (case parse_value (Suc (length s)) (skip_ws s) of
     Some (v, r) \<Rightarrow> if skip_ws r = [] then Ok v else Raise json_error
   | None \<Rightarrow> Raise json_error)"

end
