(* ===== verification/Json_Facts.thy ===== *)
theory Json_Facts
  imports Json "HOL-Library.Multiset"
begin

text \<open>
  The round trip of the JSON writer and reader, the canonical form (a value
  read back is written as the same text) and independence of the key order.
\<close>

section \<open>Numbers are read to their end\<close>

definition delim :: "string \<Rightarrow> bool" where
  "delim r = (r = [] \<or> hd r \<in> {CHR '','', CHR '']'', CHR ''}''})"

lemma delim_not_digit: "delim (c # r) \<Longrightarrow> \<not> is_digit c \<and> c \<notin> {CHR ''.'', CHR ''e'', CHR ''E'', CHR ''+'', CHR ''-''}"
  by (auto simp: delim_def is_digit_def code_point_def)

lemma takeWhile_delim: "delim r \<Longrightarrow> takeWhile is_digit (s @ r) = takeWhile is_digit s"
  by (induction s) (cases r; auto simp: delim_not_digit)+

lemma dropWhile_delim: "delim r \<Longrightarrow> dropWhile is_digit (s @ r) = dropWhile is_digit s @ r"
  by (induction s) (cases r; auto simp: delim_not_digit)+

lemma scan_frac_append:
  assumes "delim r"
  shows "scan_frac (s @ r) = (fst (scan_frac s), snd (scan_frac s) @ r)"
proof (cases s)
  case Nil
  then show ?thesis using assms by (cases r) (auto simp: scan_frac_def dest: delim_not_digit)
qed (use assms in \<open>simp add: scan_frac_def takeWhile_delim dropWhile_delim\<close>)

lemma scan_sign_append:
  assumes "delim r"
  shows "scan_sign (s @ r) = (fst (scan_sign s), snd (scan_sign s) @ r)"
proof (cases s)
  case Nil
  then show ?thesis using assms by (cases r) (auto simp: scan_sign_def dest: delim_not_digit)
qed (simp add: scan_sign_def)

lemma scan_exp_append:
  assumes "delim r"
  shows "scan_exp (s @ r) = (fst (scan_exp s), snd (scan_exp s) @ r)"
proof (cases s)
  case Nil
  then show ?thesis using assms by (cases r) (auto simp: scan_exp_def dest: delim_not_digit split: prod.splits)
qed (use assms in \<open>simp add: scan_exp_def scan_sign_append takeWhile_delim dropWhile_delim split: prod.splits\<close>)

lemma scan_int_append:
  assumes "delim r"
  shows "scan_int (s @ r) = (fst (scan_int s), snd (scan_int s) @ r)"
proof (cases s)
  case Nil
  then show ?thesis using assms by (cases r) (auto simp: scan_int_def is_digit_def code_point_def dest: delim_not_digit)
next
  case (Cons c s')
  then show ?thesis
    using takeWhile_delim [OF assms, of s] dropWhile_delim [OF assms, of s] by (simp add: scan_int_def)
qed

lemma parse_number_append:
  assumes "delim r" and "parse_number s = Some (v, [])"
  shows "parse_number (s @ r) = Some (v, r)"
proof -
  have "s \<noteq> []" using assms(2) by (auto simp: parse_number_def scan_int_def)
  then have "starts_with ''-'' (s @ r) = starts_with ''-'' s" "tl (s @ r) = tl s @ r"
    by (cases s; simp)+
  then show ?thesis
    using assms(2) scan_int_append [OF assms(1)] scan_frac_append [OF assms(1)]
      scan_exp_append [OF assms(1)]
    by (auto simp: parse_number_def Let_def split: prod.splits if_splits)
qed

lemma nat_str_scan_int: "scan_int (nat_str n) = (nat_str n, [])"
proof -
  have all: "takeWhile is_digit (nat_str n) = nat_str n" "dropWhile is_digit (nat_str n) = []"
    using nat_str_digits [of n] by (auto simp: list_all_iff takeWhile_eq_all_conv)
  have zero: "nat_str n = [CHR ''0'']" if "hd (nat_str n) = CHR ''0''"
  proof -
    have "n = 0 \<or> hd (nat_str n) \<noteq> CHR ''0''"
    proof (induction n rule: nat_str.induct)
      case (1 n)
      show ?case
      proof (cases "n < 10")
        case True
        then have "n = 0 \<or> hexdig n \<noteq> hexdig 0" using hexdig_inj [of n 0] by auto
        then show ?thesis using True by (subst nat_str.simps) (simp add: hexdig_def)
      next
        case False
        then have "n div 10 \<noteq> 0" by simp
        then show ?thesis using 1 False by (subst nat_str.simps) simp
      qed
    qed
    then show ?thesis using that by (auto simp: nat_str.simps [of 0] hexdig_def)
  qed
  show ?thesis
  proof (cases "nat_str n")
    case (Cons c r)
    then show ?thesis using all zero by (auto simp: scan_int_def)
  qed simp
qed

lemma parse_number_int: "parse_number (int_str i) = Some (PInt i, [])"
proof (cases "i < 0")
  case True
  then show ?thesis
    by (simp add: parse_number_def int_str_def nat_str_scan_int scan_frac_def scan_exp_def
        undigits_nat_str)
next
  case False
  have "\<not> starts_with ''-'' (nat_str k)" for k
    using nat_str_digits [of k] by (cases "nat_str k") (auto simp: is_digit_def code_point_def)
  then show ?thesis using False
    by (simp add: parse_number_def int_str_def nat_str_scan_int scan_frac_def scan_exp_def
        undigits_nat_str)
qed

section \<open>Texts\<close>

lemma read_u4_digits:
  assumes "n < 256"
  shows "read_u4 (map hexdig (digits_be 16 4 n) @ s) = Some (char_of n)"
proof -
  obtain a b c d where ds: "digits_be 16 4 n = [a, b, c, d]"
  proof -
    have "length (digits_be 16 4 n) = Suc (Suc (Suc (Suc 0)))" by simp
    then show ?thesis using that by (auto simp only: length_Suc_conv length_0_conv)
  qed
  then have "a < 16" "b < 16" "c < 16" "d < 16"
    using digits_be_less [of 16 _ 4 n] by auto
  moreover have "undigits 16 [a, b, c, d] = n"
    using undigits_digits_be [of 16 4 n] assms ds by simp
  ultimately show ?thesis using assms by (simp add: read_u4_def ds hexdig_facts)
qed

lemma parse_escaped_char:
  "parse_chars (escape_char c @ s) = map_option (\<lambda>(t, r). (c # t, r)) (parse_chars s)"
proof -
  have c: "char_of (code_point c) = c" by (simp add: code_point_def)
  consider "c \<in> {quote_char, backslash} \<or> code_point c \<in> {8, 9, 10, 12, 13}"
    | "32 \<le> code_point c" "code_point c \<le> 126" "c \<noteq> quote_char" "c \<noteq> backslash"
    | "escape_char c = backslash # CHR ''u'' # map hexdig (digits_be 16 4 (code_point c))"
  proof (cases "c \<in> {quote_char, backslash} \<or> code_point c \<in> {8, 9, 10, 12, 13}")
    case False
    show ?thesis
    proof (cases "32 \<le> code_point c \<and> code_point c \<le> 126")
      case True
      then show ?thesis using that(2) False by simp
    next
      case out: False
      show ?thesis using False out by (intro that(3)) (simp add: escape_char_def Let_def del: digits_be.simps)
    qed
  qed (use that(1) in blast)
  then show ?thesis
  proof cases
    case 1
    have "char_of (8 :: nat) = CHR 0x08" "char_of (9 :: nat) = CHR 0x09" "char_of (10 :: nat) = CHR 0x0A"
      "char_of (12 :: nat) = CHR 0x0C" "char_of (13 :: nat) = CHR 0x0D"
      by code_simp+
    then consider "c = quote_char" | "c = backslash" | "c = CHR 0x08" | "c = CHR 0x09" | "c = CHR 0x0A"
      | "c = CHR 0x0C" | "c = CHR 0x0D"
      using 1 c by (metis empty_iff insert_iff)
    then show ?thesis
      by cases (simp_all add: escape_char_def simple_escape_def code_point_def)
  next
    case 2
    then show ?thesis by (auto simp: escape_char_def Let_def)
  next
    case 3
    have "drop 5 (CHR ''u'' # map hexdig (digits_be 16 4 (code_point c)) @ s) = s" by simp
    then show ?thesis using 3 c by (simp add: read_u4_digits)
  qed
qed

lemma parse_escaped_str:
  "parse_chars (concat (map escape_char s) @ quote_char # r) = Some (s, r)"
  by (induction s) (simp_all add: parse_escaped_char del: parse_chars.simps(2),
      simp add: parse_chars.simps)

section \<open>What is read back\<close>

fun plain :: "pyval \<Rightarrow> pyval"
  and plain_list :: "pyval list \<Rightarrow> pyval list"
  and plain_pairs :: "(string \<times> pyval) list \<Rightarrow> (string \<times> pyval) list" where
  "plain (PDatetime d) = PStr (isoformat d)"
| "plain (PUuid u) = PStr (uuid_str u)"
| "plain (PEnum v) = plain v"
| "plain (PList vs) = PList (plain_list vs)"
| "plain (PDict kvs) = PDict (plain_pairs kvs)"
| "plain v = v"
| "plain_list [] = []"
| "plain_list (v # vs) = plain v # plain_list vs"
| "plain_pairs [] = []"
| "plain_pairs ((k, v) # kvs) = (k, plain v) # plain_pairs kvs"

definition float_text :: "string \<Rightarrow> bool" where
  "float_text t \<longleftrightarrow> parse_number t = Some (PFloat t, []) \<or> t \<in> {''NaN'', ''Infinity'', ''-Infinity''}"

text \<open>What every Python value satisfies: floats are float texts and the keys of a dict differ.\<close>

fun pyval_ok :: "pyval \<Rightarrow> bool"
  and pyval_ok_list :: "pyval list \<Rightarrow> bool"
  and pyval_ok_pairs :: "(string \<times> pyval) list \<Rightarrow> bool" where
  "pyval_ok (PFloat t) = float_text t"
| "pyval_ok (PEnum v) = pyval_ok v"
| "pyval_ok (PList vs) = pyval_ok_list vs"
| "pyval_ok (PDict kvs) = (distinct (map fst kvs) \<and> pyval_ok_pairs kvs)"
| "pyval_ok (PData c kvs) = (distinct (map fst kvs) \<and> pyval_ok_pairs kvs)"
| "pyval_ok (PObj c kvs) = (distinct (map fst kvs) \<and> pyval_ok_pairs kvs)"
| "pyval_ok v = True"
| "pyval_ok_list [] = True"
| "pyval_ok_list (v # vs) = (pyval_ok v \<and> pyval_ok_list vs)"
| "pyval_ok_pairs [] = True"
| "pyval_ok_pairs ((k, v) # kvs) = (pyval_ok v \<and> pyval_ok_pairs kvs)"

fun need :: "pyval \<Rightarrow> nat"
  and need_list :: "pyval list \<Rightarrow> nat"
  and need_pairs :: "(string \<times> pyval) list \<Rightarrow> nat" where
  "need (PEnum v) = need v"
| "need (PList vs) = Suc (need_list vs)"
| "need (PDict kvs) = Suc (need_pairs kvs)"
| "need v = 1"
| "need_list [] = 0"
| "need_list (v # vs) = Suc (max (need v) (need_list vs))"
| "need_pairs [] = 0"
| "need_pairs ((k, v) # kvs) = Suc (max (need v) (need_pairs kvs))"

lemma map_fst_plain_pairs [simp]: "map fst (plain_pairs kvs) = map fst kvs"
  by (induction kvs) auto

lemma dict_set_fresh: "k \<notin> fst ` set d \<Longrightarrow> dict_set k v d = d @ [(k, v)]"
  by (induction k v d rule: dict_set.induct) auto

lemma dict_of_distinct: "distinct (map fst kvs) \<Longrightarrow> dict_of_pairs kvs = kvs"
proof -
  have "distinct (map fst (d @ kvs)) \<Longrightarrow>
      foldl (\<lambda>d kv. dict_set (fst kv) (snd kv) d) d kvs = d @ kvs" for d
  proof (induction kvs arbitrary: d)
    case (Cons kv kvs)
    then have "fst kv \<notin> fst ` set d" by auto
    then show ?case using Cons.IH [of "d @ [kv]"] Cons.prems by (simp add: dict_set_fresh)
  qed simp
  then show "distinct (map fst kvs) \<Longrightarrow> ?thesis" by (simp add: dict_of_pairs_def)
qed

section \<open>First characters\<close>

definition starts_value :: "string \<Rightarrow> bool" where
  "starts_value t \<longleftrightarrow> t \<noteq> [] \<and> \<not> json_space (hd t) \<and> hd t \<noteq> CHR '']''"

lemma skip_ws_value: "starts_value t \<Longrightarrow> skip_ws (t @ r) = t @ r"
  by (cases t) (auto simp: starts_value_def skip_ws_def)

lemma number_start:
  assumes "parse_number t = Some (v, r)"
  shows "t \<noteq> []" and "is_digit (hd t) \<or> (hd t = CHR ''-'' \<and> tl t \<noteq> [] \<and> is_digit (hd (tl t)))"
proof -
  have digit: "s \<noteq> [] \<and> is_digit (hd s)" if "fst (scan_int s) \<noteq> []" for s
    using that by (cases s) (auto simp: scan_int_def is_digit_def code_point_def split: if_splits)
  show "t \<noteq> []" using assms by (auto simp: parse_number_def scan_int_def)
  have "fst (scan_int (if starts_with ''-'' t then tl t else t)) \<noteq> []"
    using assms by (auto simp: parse_number_def Let_def split: prod.splits if_splits)
  then show "is_digit (hd t) \<or> (hd t = CHR ''-'' \<and> tl t \<noteq> [] \<and> is_digit (hd (tl t)))"
    using digit [of t] digit [of "tl t"] by (cases t) (auto split: if_splits)
qed

lemma number_not_literal:
  assumes "parse_number t = Some (v, r)"
  shows "parse_literal (t @ s) = None"
proof -
  obtain c t' where t: "t = c # t'" using number_start(1) [OF assms] by (cases t) auto
  have letters: "\<not> is_digit (CHR ''n'')" "\<not> is_digit (CHR ''t'')" "\<not> is_digit (CHR ''f'')"
    "\<not> is_digit (CHR ''N'')" "\<not> is_digit (CHR ''I'')" "\<not> is_digit (CHR ''-'')"
    by (simp_all add: is_digit_def code_point_def)
  show ?thesis
  proof (cases "c = CHR ''-''")
    case True
    then obtain d t'' where "t' = d # t''" "is_digit d"
      using number_start(2) [OF assms] letters t by (cases t') auto
    then show ?thesis using t True letters by (auto simp: parse_literal_def literals_def)
  next
    case False
    then have "is_digit c" using number_start(2) [OF assms] t by auto
    then show ?thesis using t letters by (auto simp: parse_literal_def literals_def)
  qed
qed

lemma number_starts_value: "parse_number t = Some (v, r) \<Longrightarrow> starts_value t"
  using number_start [of t v r]
  by (auto simp: starts_value_def json_space_def is_digit_def code_point_def)

lemma dump_starts_value: "dump v = Ok t \<Longrightarrow> pyval_ok v \<Longrightarrow> starts_value t"
proof (induction v arbitrary: t rule: pyval.induct)
  case (PInt i)
  then show ?case using number_starts_value [OF parse_number_int] by auto
next
  case (PFloat f)
  then show ?case using number_starts_value
    by (auto simp: float_text_def) (auto simp: starts_value_def json_space_def code_point_def)
qed (auto simp: starts_value_def json_space_def code_point_def escape_str_def rbind_Inr_iff
    split: if_splits)

section \<open>Round trip\<close>

lemma starts_with_hd: "t \<noteq> [] \<Longrightarrow> starts_with [c] (t @ r) \<longleftrightarrow> hd t = c"
  by (cases t) auto

lemma parse_value_number:
  assumes "parse_number t = Some (v, [])" and "delim r"
  shows "parse_value (Suc n) (t @ r) = Some (v, r)"
proof -
  obtain c t' where t: "t = c # t'" using number_start(1) [OF assms(1)] by (cases t) auto
  have "c \<noteq> quote_char \<and> c \<noteq> CHR ''['' \<and> c \<noteq> CHR ''{''"
    using number_start(2) [OF assms(1)] t by (auto simp: is_digit_def code_point_def)
  then show ?thesis
    using number_not_literal [OF assms(1), of r] parse_number_append [OF assms(2,1)] t by simp
qed

lemma parse_value_text: "parse_value (Suc n) (escape_str s @ r) = Some (PStr s, r)"
  by (simp add: escape_str_def parse_escaped_str)

lemma skip_ws_delim: "c \<in> {CHR '','', CHR '']'', CHR ''}'', CHR '':'', quote_char} \<Longrightarrow> skip_ws (c # r) = c # r"
  by (auto simp: skip_ws_def json_space_def code_point_def)

lemma delim_Cons: "c \<in> {CHR '','', CHR '']'', CHR ''}''} \<Longrightarrow> delim (c # r)"
  by (auto simp: delim_def)

lemma dump_list_Cons_Ok:
  assumes "dump_list (v # vs) = Ok t"
  obtains u where "dump v = Ok u" "vs = []" "t = u"
  | u w where "dump v = Ok u" "vs \<noteq> []" "dump_list vs = Ok w" "t = u @ CHR '','' # w"
  using assms by (auto simp: rbind_Inr_iff split: if_splits)

lemma dump_pairs_Cons_Ok:
  assumes "dump_pairs ((k, v) # kvs) = Ok t"
  obtains u where "dump v = Ok u" "kvs = []" "t = escape_str k @ CHR '':'' # u"
  | u w where "dump v = Ok u" "kvs \<noteq> []" "dump_pairs kvs = Ok w"
      "t = escape_str k @ CHR '':'' # u @ CHR '','' # w"
  using assms by (auto simp: rbind_Inr_iff split: if_splits)

lemma dump_list_starts:
  assumes "dump_list vs = Ok t" and "vs \<noteq> []" and "pyval_ok_list vs"
  shows "starts_value t"
proof -
  obtain v ws where vs: "vs = v # ws" using assms(2) by (cases vs) auto
  then have "\<exists>u w. dump v = Ok u \<and> t = u @ w"
    using assms(1) by (auto simp: rbind_Inr_iff split: if_splits)
  then show ?thesis using dump_starts_value [of v] assms(3) vs by (auto simp: starts_value_def)
qed

lemma dump_pairs_starts: "dump_pairs kvs = Ok t \<Longrightarrow> kvs \<noteq> [] \<Longrightarrow> \<exists>t'. t = quote_char # t'"
  by (cases kvs) (auto simp: escape_str_def rbind_Inr_iff split: if_splits)

theorem parse_dump:
  shows "dump v = Ok t \<Longrightarrow> pyval_ok v \<Longrightarrow> delim r \<Longrightarrow> need v \<le> n \<Longrightarrow>
      parse_value n (t @ r) = Some (plain v, r)"
    and "dump_list vs = Ok t \<Longrightarrow> pyval_ok_list vs \<Longrightarrow> vs \<noteq> [] \<Longrightarrow> need_list vs \<le> n \<Longrightarrow>
      parse_elems n (t @ CHR '']'' # r) = Some (plain_list vs, r)"
    and "dump_pairs kvs = Ok t \<Longrightarrow> pyval_ok_pairs kvs \<Longrightarrow> kvs \<noteq> [] \<Longrightarrow> need_pairs kvs \<le> n \<Longrightarrow>
      parse_pairs n (t @ CHR ''}'' # r) = Some (plain_pairs kvs, r)"
proof (induction v and vs and kvs arbitrary: t r n and t r n and t r n
    rule: need_need_list_need_pairs.induct)
  case (2 vs)
  then obtain k u where n: "n = Suc k" and u: "dump_list vs = Ok u" and t: "t = ''['' @ u @ '']''"
    by (cases n) (auto simp: rbind_Inr_iff)
  show ?case
  proof (cases "vs = []")
    case True
    then show ?thesis using u n t by (simp add: skip_ws_delim)
  next
    case False
    have s: "starts_value u" using dump_list_starts [OF u False] 2 by simp
    then have "skip_ws (u @ CHR '']'' # r) = u @ CHR '']'' # r" "\<not> starts_with '']'' (u @ CHR '']'' # r)"
      by (auto simp: skip_ws_value starts_with_hd starts_value_def)
    then show ?thesis using "2.IH" [OF u _ False, of k r] "2.prems" n t by simp
  qed
next
  case (3 kvs)
  then obtain k u where n: "n = Suc k" and u: "dump_pairs kvs = Ok u" and t: "t = ''{'' @ u @ ''}''"
    by (cases n) (auto simp: rbind_Inr_iff)
  show ?case
  proof (cases "kvs = []")
    case True
    then show ?thesis using u n t by (simp add: skip_ws_delim dict_of_pairs_def)
  next
    case False
    obtain u' where "u = quote_char # u'" using dump_pairs_starts [OF u False] by blast
    then show ?thesis
      using "3.IH" [OF u _ False, of k r] "3.prems" n t by (simp add: skip_ws_delim dict_of_distinct)
  qed
next
  case (6 v vs)
  then obtain k where n: "n = Suc k" by (cases n) auto
  from "6.prems"(1) show ?case
  proof (cases rule: dump_list_Cons_Ok)
    case (1 u)
    then show ?thesis using "6.IH"(1) [OF 1(1), of "CHR '']'' # r" k] "6.prems" n
      by (simp add: delim_Cons skip_ws_delim)
  next
    case (2 u w)
    have "starts_value w" using dump_list_starts [OF 2(3,2)] "6.prems" by simp
    then show ?thesis
      using "6.IH"(1) [OF 2(1), of "CHR '','' # w @ CHR '']'' # r" k] "6.IH"(2) [OF 2(3) _ 2(2), of k r]
        "6.prems" n 2(4)
      by (simp add: delim_Cons skip_ws_delim skip_ws_value)
  qed
next
  case (8 k v kvs)
  then obtain m where n: "n = Suc m" by (cases n) auto
  have key: "parse_pairs (Suc m) (escape_str k @ CHR '':'' # u) = (case parse_value m (skip_ws u) of
      None \<Rightarrow> None
    | Some (v, r) \<Rightarrow>
        if starts_with ''}'' (skip_ws r) then Some ([(k, v)], tl (skip_ws r))
        else if starts_with '','' (skip_ws r)
        then map_option (\<lambda>(kvs, r'). ((k, v) # kvs, r')) (parse_pairs m (skip_ws (tl (skip_ws r))))
        else None)" for u
    by (simp add: escape_str_def parse_escaped_str skip_ws_delim)
  from "8.prems"(1) show ?case
  proof (cases rule: dump_pairs_Cons_Ok)
    case (1 u)
    have "starts_value u" using dump_starts_value [OF 1(1)] "8.prems" by simp
    then show ?thesis using "8.IH"(1) [OF 1(1), of "CHR ''}'' # r" m] "8.prems" n 1
      by (simp add: key skip_ws_value delim_Cons skip_ws_delim del: parse_pairs.simps)
  next
    case (2 u w)
    have "starts_value u" using dump_starts_value [OF 2(1)] "8.prems" by simp
    moreover obtain w' where "w = quote_char # w'" using dump_pairs_starts [OF 2(3,2)] by blast
    ultimately show ?thesis
      using "8.IH"(1) [OF 2(1), of "CHR '','' # w @ CHR ''}'' # r" m]
        "8.IH"(2) [OF 2(3) _ 2(2), of m r] "8.prems" n 2(4)
      by (simp add: key skip_ws_value delim_Cons skip_ws_delim del: parse_pairs.simps)
  qed
qed (auto simp: parse_value_text Suc_le_eq gr0_conv_Suc float_text_def parse_literal_def literals_def
     escape_str_def parse_escaped_str
     intro: parse_value_number parse_number_int)

lemma number_texts:
  "Suc 0 \<le> length (int_str i)" "float_text f \<Longrightarrow> Suc 0 \<le> length f"
  using dump_starts_value [of "PInt i"] dump_starts_value [of "PFloat f"]
  by (auto simp: starts_value_def Suc_le_eq)

lemma need_le_length:
  shows "dump v = Ok t \<Longrightarrow> pyval_ok v \<Longrightarrow> need v \<le> length t"
    and "dump_list vs = Ok t \<Longrightarrow> pyval_ok_list vs \<Longrightarrow> need_list vs \<le> Suc (length t)"
    and "dump_pairs kvs = Ok t \<Longrightarrow> pyval_ok_pairs kvs \<Longrightarrow> need_pairs kvs \<le> Suc (length t)"
proof (induction v and vs and kvs arbitrary: t and t and t rule: need_need_list_need_pairs.induct)
  case (6 v vs)
  from "6.prems"(1) show ?case
    by (cases rule: dump_list_Cons_Ok) (use "6.IH" "6.prems" in fastforce)+
next
  case (8 k v kvs)
  from "8.prems"(1) show ?case
    by (cases rule: dump_pairs_Cons_Ok) (use "8.IH" "8.prems" in fastforce)+
qed (auto simp: rbind_Inr_iff escape_str_def number_texts)

lemma loads_dump:
  assumes "dump v = Ok t" and "pyval_ok v"
  shows "loads t = Ok (plain v)"
proof -
  have "need v \<le> Suc (length t)" using need_le_length(1) [OF assms] by simp
  then have "parse_value (Suc (length t)) (t @ []) = Some (plain v, [])"
    by (intro parse_dump(1) assms) (simp_all add: delim_def)
  moreover have "skip_ws t = t"
    using skip_ws_value [OF dump_starts_value [OF assms], of "[]"] by simp
  ultimately show ?thesis by (simp add: loads_def skip_ws_def)
qed

section \<open>Canonical form\<close>

lemma sort_pairs_map: "sort_pairs kvs = map (apsnd sort_dicts) kvs"
  by (induction kvs) auto

lemma sort_list_map: "sort_list vs = map sort_dicts vs"
  by (induction vs) auto

lemma plain_pairs_map: "plain_pairs kvs = map (apsnd plain) kvs"
  by (induction kvs) auto

lemma plain_list_map: "plain_list vs = map plain vs"
  by (induction vs) auto

lemma pyval_ok_pairs_iff: "pyval_ok_pairs kvs \<longleftrightarrow> (\<forall>kv\<in>set kvs. pyval_ok (snd kv))"
  by (induction kvs) auto

lemma insort_key_apsnd:
  "insort_key fst (k, f v) (map (apsnd f) ys) = map (apsnd f) (insort_key fst (k, v) ys)"
  by (induction ys) auto

lemma sort_key_apsnd: "sort_key fst (map (apsnd f) xs) = map (apsnd f) (sort_key fst xs)"
proof (induction xs)
  case (Cons x xs)
  then show ?case by (cases x) (simp add: insort_key_apsnd)
qed simp

lemma distinct_fst_sort: "distinct (map fst kvs) \<Longrightarrow> distinct (map fst (sort_key fst kvs))"
  by (metis mset_map mset_sort mset_eq_imp_distinct_iff)

lemma pyval_ok_sort:
  shows "pyval_ok v \<Longrightarrow> pyval_ok (sort_dicts v)"
    and "pyval_ok_list vs \<Longrightarrow> pyval_ok_list (sort_list vs)"
    and "pyval_ok_pairs kvs \<Longrightarrow> pyval_ok_pairs (sort_pairs kvs)"
proof (induction v and vs and kvs rule: sort_dicts_sort_list_sort_pairs.induct)
  case (2 kvs)
  have "distinct (map fst (sort_pairs kvs))" using 2 by (simp add: sort_pairs_map)
  then show ?case using 2 by (simp add: pyval_ok_pairs_iff distinct_fst_sort)
qed auto

lemma dump_plain:
  shows "dump (plain v) = dump v" and "dump_list (plain_list vs) = dump_list vs"
    and "dump_pairs (plain_pairs kvs) = dump_pairs kvs"
proof (induction v and vs and kvs rule: plain_plain_list_plain_pairs.induct)
  case (8 v vs)
  then show ?case by (cases vs) auto
next
  case (10 k v kvs)
  then show ?case by (cases kvs) auto
qed auto

lemma sort_plain_sort:
  shows "sort_dicts (plain (sort_dicts v)) = plain (sort_dicts v)"
    and "\<forall>v\<in>set vs. sort_dicts (plain (sort_dicts v)) = plain (sort_dicts v)"
    and "\<forall>kv\<in>set (kvs :: (string \<times> pyval) list). sort_dicts (plain (sort_dicts (snd kv))) = plain (sort_dicts (snd kv))"
proof (induction v and vs and kvs rule: sort_dicts_sort_list_sort_pairs.induct)
  case (1 vs)
  then show ?case by (simp add: sort_list_map plain_list_map)
next
  case (2 kvs)
  have "map (apsnd sort_dicts) (map (apsnd plain) (map (apsnd sort_dicts) (sort_key fst kvs)))
      = map (apsnd plain) (map (apsnd sort_dicts) (sort_key fst kvs))"
    using 2 by (auto simp: apsnd_def map_prod_def split: prod.splits)
  moreover have "sort_key fst (sort_key fst kvs) = sort_key fst kvs"
    by (simp add: sort_key_id_if_sorted)
  ultimately show ?case
    by (simp only: sort_dicts.simps plain.simps sort_pairs_map plain_pairs_map sort_key_apsnd)
qed auto

theorem loads_dumps:
  assumes "dumps v = Ok t" and "pyval_ok v"
  shows "loads t = Ok (plain (sort_dicts v))"
  using assms unfolding dumps_def by (intro loads_dump pyval_ok_sort)

lemma dumps_plain_sort: "dumps (plain (sort_dicts v)) = dumps v"
  by (simp add: dumps_def sort_plain_sort dump_plain)

lemma dumps_key_order:
  assumes "mset kvs = mset kvs'" and "distinct (map fst kvs)"
  shows "dumps (PDict kvs) = dumps (PDict kvs')"
proof -
  have "inj_on fst (set kvs)" using assms(2) by (simp add: distinct_map)
  then have "sort_key fst kvs = sort_key fst kvs'"
    using assms(1) by (intro sort_key_inj_key_eq) (auto simp: sorted_sort_key)
  then show ?thesis by (simp add: dumps_def sort_pairs_map sort_key_apsnd)
qed

lemma dumps_eq_plain:
  assumes "dumps v = Ok t" and "dumps w = Ok t" and "pyval_ok v" and "pyval_ok w"
  shows "plain (sort_dicts v) = plain (sort_dicts w)"
  using loads_dumps [OF assms(1,3)] loads_dumps [OF assms(2,4)] by simp

definition json_text :: "pyval \<Rightarrow> string" where
  "json_text v = (case dumps v of Inl _ \<Rightarrow> [] | Inr t \<Rightarrow> t)"

definition json_value :: "string \<Rightarrow> pyval option" where
  "json_value t = (case loads t of Inl _ \<Rightarrow> None | Inr v \<Rightarrow> Some v)"

definition json_plain :: "pyval \<Rightarrow> bool" where
  "json_plain v \<longleftrightarrow> pyval_ok v \<and> is_ok (dumps v) \<and> plain (sort_dicts v) = v"

interpretation json: codec json_text json_value json_plain
proof unfold_locales
  fix v
  assume v: "json_plain v"
  then obtain t where "dumps v = Ok t" by (auto simp: json_plain_def is_ok_iff)
  then show "json_value (json_text v) = Some v"
    using v loads_dumps [of v t] by (simp add: json_text_def json_value_def json_plain_def)
qed

end
