(* ===== verification/HmacUtils.thy ===== *)
theory HmacUtils
  imports Process Sha256 Json_Facts
begin

text \<open>
  \<open>security/hmac_utils.py\<close>: the server signing key and its predecessor, SHA-256
  of canonical JSON, and the HMAC of an audit record. Operations that touch the
  cached keys are steps on the process state; the others are functions.
\<close>

section \<open>Keys\<close>

definition load_hmac_key :: "string \<Rightarrow> proc \<Rightarrow> bytes result" where
  "load_hmac_key var p = load_key32 var (os_environ p)"

definition get_server_hmac_key :: "(proc, bytes) step" where
  "get_server_hmac_key p = (case server_hmac_key p of
     Some k \<Rightarrow> (Ok k, p)
   | None \<Rightarrow> (case load_hmac_key ''SERVER_HMAC_KEY'' p of
       Inl e \<Rightarrow> (Raise e, p)
     | Inr k \<Rightarrow> (Ok k, p\<lparr>server_hmac_key := Some k\<rparr>)))"

definition get_previous_hmac_key :: "(proc, bytes option) step" where
  "get_previous_hmac_key p = (case server_hmac_key_previous p of
     Some k \<Rightarrow> (Ok (Some k), p)
   | None \<Rightarrow>
       (let prev = get_or ''SERVER_HMAC_KEY_PREVIOUS'' (os_environ p) [] in
        if prev = [] then (Ok None, p)
        else case fromhex prev of
          Inl _ \<Rightarrow> (Ok None, p)
        | Inr k \<Rightarrow> (Ok (Some k), p\<lparr>server_hmac_key_previous := Some k\<rparr>)))"

definition invalidate_key_cache :: "proc \<Rightarrow> proc" where
  "invalidate_key_cache p = p\<lparr>server_hmac_key := None, server_hmac_key_previous := None\<rparr>"

section \<open>SHA-256 of canonical JSON\<close>

definition compute_sha256 :: "bytes \<Rightarrow> string result" where
  "compute_sha256 data =
     (if data = [] then Raise (ValueError ''Cannot hash empty data.'') else Ok (sha256_hex data))"

fun json_default :: "pyval \<Rightarrow> pyval result" where
  "json_default (PDatetime d) = Ok (PStr (isoformat d))"
| "json_default (PUuid u) = Ok (PStr (uuid_str u))"
| "json_default (PEnum v) = Ok v"
| "json_default (PData cls fs) = Raise (not_serialisable cls)"
| "json_default (PObj cls fs) = Raise (not_serialisable cls)"
| "json_default (POther cls t) = Raise (not_serialisable cls)"
| "json_default v = Raise (not_serialisable ''builtin'')"

definition canonical_json :: "pyval \<Rightarrow> bytes result" where
  "canonical_json obj = rbind (dumps obj) (\<lambda>t. Ok (utf8 t))"

definition hash_agent_outputs :: "pyval \<Rightarrow> string result" where
  "hash_agent_outputs agent_outputs =
     (if \<not> truthy agent_outputs then Raise (ValueError ''agent_outputs must not be empty.'')
      else rbind (canonical_json agent_outputs) compute_sha256)"

definition verify_sha256 :: "bytes \<Rightarrow> string \<Rightarrow> bool result" where
  "verify_sha256 data expected_hash =
     rbind (compute_sha256 data) (\<lambda>actual. compare_digest (lower actual) (lower expected_hash))"

section \<open>Signing and checking\<close>

definition build_hmac_message :: "string \<Rightarrow> string \<Rightarrow> string \<Rightarrow> string \<Rightarrow> bytes" where
  "build_hmac_message agent_outputs_hash decision_id guideline_version_id written_at =
     utf8 (agent_outputs_hash @ CHR ''|'' # decision_id @ CHR ''|'' # guideline_version_id @
       CHR ''|'' # written_at)"

definition compute_record_hmac :: "string \<Rightarrow> string \<Rightarrow> string \<Rightarrow> string \<Rightarrow> (proc, string) step" where
  "compute_record_hmac agent_outputs_hash decision_id guideline_version_id written_at =
     sbind get_server_hmac_key (\<lambda>key.
       sret (hmac_hex key
         (build_hmac_message agent_outputs_hash decision_id guideline_version_id written_at)))"

definition digest_matches :: "string \<Rightarrow> string \<Rightarrow> bool result" where
  "digest_matches stored computed = compare_digest (lower stored) (lower computed)"

definition verify_record_hmac ::
  "string \<Rightarrow> string \<Rightarrow> string \<Rightarrow> string \<Rightarrow> string \<Rightarrow> (proc, bool) step" where
  "verify_record_hmac stored_hmac agent_outputs_hash decision_id guideline_version_id written_at =
     (let message =
        build_hmac_message agent_outputs_hash decision_id guideline_version_id written_at
      in sbind get_server_hmac_key (\<lambda>current_key.
         sbind (slift (digest_matches stored_hmac (hmac_hex current_key message))) (\<lambda>ok.
           if ok then sret True
           else sbind get_previous_hmac_key (\<lambda>previous.
             case previous of
               None \<Rightarrow> sret False
             | Some previous_key \<Rightarrow>
                 slift (digest_matches stored_hmac (hmac_hex previous_key message))))))"

section \<open>The keys a process uses\<close>

text \<open>The key that signs, and the keys that are accepted when a record is checked.\<close>

definition signing_key :: "proc \<Rightarrow> bytes option" where
  "signing_key p = (case get_server_hmac_key p of (Inr k, _) \<Rightarrow> Some k | _ \<Rightarrow> None)"

definition previous_key :: "proc \<Rightarrow> bytes option" where
  "previous_key p = (case get_previous_hmac_key p of (Inr k, _) \<Rightarrow> k | _ \<Rightarrow> None)"

definition accepts_key :: "proc \<Rightarrow> bytes \<Rightarrow> bool" where
  "accepts_key p k \<longleftrightarrow> signing_key p \<noteq> None \<and> (signing_key p = Some k \<or> previous_key p = Some k)"

lemma get_server_key_run:
  "get_server_hmac_key p = (case signing_key p of
     Some k \<Rightarrow> (Ok k, p\<lparr>server_hmac_key := Some k\<rparr>)
   | None \<Rightarrow> (fst (get_server_hmac_key p), p))"
  by (auto simp: signing_key_def get_server_hmac_key_def split: option.splits sum.splits)

lemma signing_key_None: "signing_key p = None \<Longrightarrow> \<exists>m. get_server_hmac_key p = (Raise (RuntimeError m), p)"
  by (auto simp: signing_key_def get_server_hmac_key_def load_hmac_key_def
      dest: load_key32_error split: option.splits sum.splits)

lemma get_previous_run:
  "get_previous_hmac_key p = (Ok (previous_key p), p\<lparr>server_hmac_key_previous := previous_key p\<rparr>)"
  by (auto simp: previous_key_def get_previous_hmac_key_def Let_def split: option.splits sum.splits)

lemma key_caches [simp]:
  "signing_key (p\<lparr>server_hmac_key := Some k\<rparr>) = Some k"
  "previous_key (p\<lparr>server_hmac_key := x\<rparr>) = previous_key p"
  "signing_key (p\<lparr>server_hmac_key_previous := x\<rparr>) = signing_key p"
  "previous_key (p\<lparr>server_hmac_key_previous := previous_key p\<rparr>) = previous_key p"
  by (auto simp: signing_key_def get_server_hmac_key_def previous_key_def get_previous_hmac_key_def
      load_hmac_key_def Let_def split: option.splits sum.splits)

lemma digest_matches_self [simp]: "digest_matches (hmac_hex k m) (hmac_hex k m) = Ok True"
  by (simp add: digest_matches_def)

lemma digest_matches_ascii: "is_ascii (lower stored) \<Longrightarrow> digest_matches stored (hmac_hex k m) =
    Ok (lower stored = hmac_hex k m)"
  by (simp add: digest_matches_def compare_digest_def)

text \<open>
  Checking returns exactly whether one of the accepted keys produced the digest,
  and leaves the keys in use as they are.
\<close>

lemma verify_record_hmac_run:
  assumes "is_ascii (lower stored)" and "signing_key p \<noteq> None"
  shows "\<exists>p'. verify_record_hmac stored h d g w p =
      (Ok (\<exists>k. accepts_key p k \<and> lower stored = hmac_hex k (build_hmac_message h d g w)), p')
      \<and> signing_key p' = signing_key p \<and> previous_key p' = previous_key p"
proof -
  obtain k where k: "signing_key p = Some k" using assms(2) by auto
  let ?p = "p\<lparr>server_hmac_key := Some k\<rparr>"
  have run: "get_server_hmac_key p = (Ok k, ?p)" using get_server_key_run [of p] k by simp
  have keep: "previous_key (?p\<lparr>server_hmac_key_previous := previous_key p\<rparr>) = previous_key p"
    using key_caches(4) [of ?p] by simp
  show ?thesis
    using k assms(1) keep
    by (auto simp: verify_record_hmac_def Let_def sbind_def run get_previous_run slift_def sret_def
        digest_matches_ascii accepts_key_def split: option.splits)
qed

section \<open>The signer interface\<close>

text \<open>
  What the audit modules rely on: a signature made in one state is accepted in
  every state that still trusts it, and signing only fails for want of a key.
\<close>

locale record_signer =
  fixes sign :: "'m \<Rightarrow> ('s, string) step"
    and verify :: "string \<Rightarrow> 'm \<Rightarrow> ('s, bool) step"
    and usable :: "'s \<Rightarrow> bool"
    and trusts :: "'s \<Rightarrow> 's \<Rightarrow> bool"
  assumes sign_usable: "usable s \<Longrightarrow> \<exists>t s'. sign m s = (Ok t, s') \<and> usable s' \<and> trusts s' s"
    and sign_unusable: "\<not> usable s \<Longrightarrow> \<exists>e. sign m s = (Raise e, s)"
    and verify_signed: "sign m s = (Ok t, s') \<Longrightarrow> trusts s2 s \<Longrightarrow> \<exists>s3. verify t m s2 = (Ok True, s3)"
begin

lemma sign_Ok_iff: "(\<exists>t s'. sign m s = (Ok t, s')) \<longleftrightarrow> usable s"
  using sign_usable sign_unusable by (metis Inl_Inr_False prod.inject)

lemma sign_then_verify:
  assumes "usable s"
  shows "\<exists>t s' s3. sign m s = (Ok t, s') \<and> verify t m s' = (Ok True, s3)"
  using sign_usable [OF assms] verify_signed by meson

lemma signed_again_verifies:
  assumes "sign m s = (Ok t, s1)" and "trusts s2 s"
  shows "fst (verify t m s2) = Ok True"
  using verify_signed [OF assms] by auto

end

text \<open>
  A signer whose key can be replaced: in every well-formed state the state
  after a rotation still trusts the one before, and can sign.
\<close>

locale rotating_signer = record_signer sign verify usable trusts
  for sign :: "'m \<Rightarrow> ('s, string) step"
    and verify :: "string \<Rightarrow> 'm \<Rightarrow> ('s, bool) step"
    and usable :: "'s \<Rightarrow> bool"
    and trusts :: "'s \<Rightarrow> 's \<Rightarrow> bool" +
  fixes rotate :: "'k \<Rightarrow> 's \<Rightarrow> 's"
    and good_key :: "'k \<Rightarrow> bool"
    and wf :: "'s \<Rightarrow> bool"
  assumes rotate_trusts: "wf s \<Longrightarrow> usable s \<Longrightarrow> good_key k \<Longrightarrow> trusts (rotate k s) s"
    and rotate_usable: "good_key k \<Longrightarrow> usable (rotate k s)"
    and rotate_wf: "wf (rotate k s)"
begin

lemma verify_after_rotation:
  assumes "sign m s = (Ok t, s1)" and "wf s" and "good_key k"
  shows "fst (verify t m (rotate k s)) = Ok True"
proof -
  have "usable s" using assms(1) sign_Ok_iff by blast
  then show ?thesis
    using signed_again_verifies [OF assms(1)] rotate_trusts [OF assms(2) _ assms(3)] by blast
qed

lemma sign_after_rotation: "good_key k \<Longrightarrow> \<exists>t s'. sign m (rotate k s) = (Ok t, s')"
  using rotate_usable sign_usable by blast

end

section \<open>The module provides it\<close>

type_synonym audit_fields = "string \<times> string \<times> string \<times> string"

definition sign_fields :: "audit_fields \<Rightarrow> (proc, string) step" where
  "sign_fields m = (case m of (h, d, g, w) \<Rightarrow> compute_record_hmac h d g w)"

definition verify_fields :: "string \<Rightarrow> audit_fields \<Rightarrow> (proc, bool) step" where
  "verify_fields t m = (case m of (h, d, g, w) \<Rightarrow> verify_record_hmac t h d g w)"

definition has_key :: "proc \<Rightarrow> bool" where
  "has_key p \<longleftrightarrow> signing_key p \<noteq> None"

definition trusts_signer :: "proc \<Rightarrow> proc \<Rightarrow> bool" where
  "trusts_signer q p \<longleftrightarrow> (\<forall>k. signing_key p = Some k \<longrightarrow> accepts_key q k)"

text \<open>The cached signing key, if there is one, has 32 bytes: every operation keeps this.\<close>

definition keys_ok :: "proc \<Rightarrow> bool" where
  "keys_ok p \<longleftrightarrow> (\<forall>k. server_hmac_key p = Some k \<longrightarrow> length k = 32)"

text \<open>
  A key rotation as the module header describes it: the old key moves to
  \<open>SERVER_HMAC_KEY_PREVIOUS\<close>, the new one takes its place, and the caches are
  cleared.
\<close>

definition rotate_server_key :: "bytes \<Rightarrow> proc \<Rightarrow> proc" where
  "rotate_server_key new p =
     invalidate_key_cache (p\<lparr>os_environ :=
       set_item ''SERVER_HMAC_KEY'' (hexlify new)
         (set_item ''SERVER_HMAC_KEY_PREVIOUS'' (hexlify (the (signing_key p))) (os_environ p))\<rparr>)"

lemma signing_key_length:
  assumes "keys_ok p" and "signing_key p = Some k"
  shows "length k = 32"
  using assms
  by (auto simp: signing_key_def get_server_hmac_key_def keys_ok_def load_hmac_key_def load_key32_Ok_iff
      split: option.splits sum.splits)

lemma hexlify_eq_Nil_iff [simp]: "hexlify bs = [] \<longleftrightarrow> bs = []"
  using length_hexlify [of bs] by (cases bs) (auto simp: hex_byte_def)

lemma rotate_server_key_keys:
  assumes "length new = 32"
  shows "signing_key (rotate_server_key new p) = Some new"
    and "keys_ok p \<Longrightarrow> signing_key p = Some old \<Longrightarrow> previous_key (rotate_server_key new p) = Some old"
proof -
  have "new \<noteq> []" using assms by auto
  then show "signing_key (rotate_server_key new p) = Some new"
    using assms
    by (simp add: signing_key_def get_server_hmac_key_def rotate_server_key_def invalidate_key_cache_def
        load_hmac_key_def load_key32_def Let_def)
  assume "keys_ok p" and old: "signing_key p = Some old"
  then have "old \<noteq> []" using signing_key_length by fastforce
  then show "previous_key (rotate_server_key new p) = Some old"
    using old by (simp add: previous_key_def get_previous_hmac_key_def rotate_server_key_def
        invalidate_key_cache_def Let_def)
qed

lemma sign_fields_run:
  "signing_key p = Some k \<Longrightarrow> sign_fields (h, d, g, w) p =
     (Ok (hmac_hex k (build_hmac_message h d g w)), p\<lparr>server_hmac_key := Some k\<rparr>)"
  using get_server_key_run [of p]
  by (simp add: sign_fields_def compute_record_hmac_def sbind_def sret_def)

interpretation server_signer: rotating_signer sign_fields verify_fields has_key trusts_signer
  rotate_server_key "\<lambda>k. length k = 32" keys_ok
proof unfold_locales
  fix p :: proc and m :: audit_fields
  assume "has_key p"
  then show "\<exists>t p'. sign_fields m p = (Ok t, p') \<and> has_key p' \<and> trusts_signer p' p"
    by (cases m) (auto simp: has_key_def sign_fields_run trusts_signer_def accepts_key_def)
next
  fix p :: proc and m :: audit_fields
  assume "\<not> has_key p"
  then show "\<exists>e. sign_fields m p = (Raise e, p)"
    using signing_key_None [of p]
    by (auto simp: has_key_def sign_fields_def compute_record_hmac_def sbind_def split: prod.splits)
next
  fix p p' q :: proc and m :: audit_fields and t
  assume sign: "sign_fields m p = (Ok t, p')" and trust: "trusts_signer q p"
  obtain h d g w where m: "m = (h, d, g, w)" by (cases m)
  obtain k where k: "signing_key p = Some k"
    using sign signing_key_None [of p]
    by (cases "signing_key p") (auto simp: m sign_fields_def compute_record_hmac_def sbind_def)
  then have t: "t = hmac_hex k (build_hmac_message h d g w)" using sign m sign_fields_run by simp
  have "accepts_key q k" using trust k by (simp add: trusts_signer_def)
  then show "\<exists>q'. verify_fields t m q = (Ok True, q')"
    using verify_record_hmac_run [of t q h d g w] t by (auto simp: m verify_fields_def accepts_key_def)
next
  fix p :: proc and k :: bytes
  assume "keys_ok p" "has_key p" "length k = 32"
  then show "trusts_signer (rotate_server_key k p) p"
    by (auto simp: trusts_signer_def accepts_key_def rotate_server_key_keys)
next
  fix p :: proc and k :: bytes
  assume "length k = 32"
  then show "has_key (rotate_server_key k p)" by (simp add: has_key_def rotate_server_key_keys)
next
  fix p :: proc and k :: bytes
  show "keys_ok (rotate_server_key k p)"
    by (simp add: keys_ok_def rotate_server_key_def invalidate_key_cache_def)
qed

section \<open>Properties\<close>

definition demo_proc :: proc where
  "demo_proc = \<lparr>os_environ = [(''SERVER_HMAC_KEY'', hexlify (replicate 32 7))],
     server_hmac_key = None, server_hmac_key_previous = None, pan_hmac_key = None, aes_key = None,
     secret_cache = [], secrets_loaded = False\<rparr>"

lemma demo_proc_key [simp]: "signing_key demo_proc = Some (replicate 32 7)"
proof -
  have "(replicate 32 7 :: bytes) \<noteq> []" by simp
  then show ?thesis
    by (simp add: signing_key_def get_server_hmac_key_def demo_proc_def load_hmac_key_def load_key32_def
        get_or_def Let_def)
qed

lemma demo_proc_ok [simp]: "keys_ok demo_proc"
  by (simp add: keys_ok_def demo_proc_def)

text \<open>
  C4: the overlap window of a key rotation. A digest computed before the server
  key is rotated verifies after the rotation, over the same four fields.
\<close>

theorem rotation_overlap:
  assumes "compute_record_hmac h d g w p = (Ok t, p')" and "keys_ok p" and "length new = 32"
  shows "fst (verify_record_hmac t h d g w (rotate_server_key new p)) = Ok True"
  using server_signer.verify_after_rotation [of "(h, d, g, w)" p t p' new] assms
  by (simp add: sign_fields_def verify_fields_def)

theorem rotation_overlap_witness:
  "\<exists>t. fst (compute_record_hmac ''ab'' ''d'' ''g'' ''w'' demo_proc) = Ok t \<and>
     fst (verify_record_hmac t ''ab'' ''d'' ''g'' ''w'' (rotate_server_key (replicate 32 9) demo_proc)) = Ok True"
proof -
  obtain t p' where s: "compute_record_hmac ''ab'' ''d'' ''g'' ''w'' demo_proc = (Ok t, p')"
    using sign_fields_run [of demo_proc "replicate 32 7" "''ab''" "''d''" "''g''" "''w''"]
    by (auto simp: sign_fields_def)
  show ?thesis
    using rotation_overlap [OF s, of "replicate 32 9"] s by auto
qed

text \<open>
  what a check of a record decides. For a stored digest whose lower-case
  form is ASCII, in a process with a signing key, the answer is exactly whether
  one of the two accepted keys gives that digest on the message of the fields;
  the keys in use stay as they are.
\<close>

theorem verify_decides:
  assumes "is_ascii (lower stored)" and "signing_key p \<noteq> None"
  shows "fst (verify_record_hmac stored h d g w p) =
      Ok (\<exists>k. accepts_key p k \<and> lower stored = hmac_hex k (build_hmac_message h d g w)) \<and>
    signing_key (snd (verify_record_hmac stored h d g w p)) = signing_key p"
  using verify_record_hmac_run [OF assms, of h d g w] by auto

theorem verify_decides_witness:
  "fst (verify_record_hmac ''00'' ''h'' ''d'' ''g'' ''w'' demo_proc) =
     Ok (\<exists>k. accepts_key demo_proc k \<and> lower ''00'' = hmac_hex k (build_hmac_message ''h'' ''d'' ''g'' ''w''))"
proof -
  have "is_ascii (lower ''00'')" by code_simp
  then show ?thesis using verify_decides [of "''00''" demo_proc "''h''" "''d''" "''g''" "''w''"] by simp
qed

text \<open>
  C33: the signed message determines its fields. With a hexadecimal digest and
  canonical UUID texts no two different quadruples share a message, whatever the
  timestamp texts are.
\<close>

theorem message_injective:
  "build_hmac_message (hexlify h) (uuid_str d) (uuid_str g) w =
     build_hmac_message (hexlify h') (uuid_str d') (uuid_str g') w' \<longleftrightarrow>
   h = h' \<and> d = d' \<and> g = g' \<and> w = w'"
  unfolding build_hmac_message_def
  by (simp add: utf8.enc_eq_iff hex.cons_field_eq_iff uuid.cons_field_eq_iff uuid.enc_eq_iff
      del: utf8_append utf8_Cons)

text \<open>
  the content hash does not depend on the order in which the agents'
  results were put into the dict.
\<close>

theorem hash_ignores_key_order:
  assumes "mset kvs = mset kvs'" and "distinct (map fst kvs)"
  shows "hash_agent_outputs (PDict kvs) = hash_agent_outputs (PDict kvs')"
proof -
  have "kvs = [] \<longleftrightarrow> kvs' = []" using assms(1) by auto
  then show ?thesis
    using dumps_key_order [OF assms] by (simp add: hash_agent_outputs_def canonical_json_def)
qed

theorem hash_ignores_key_order_witness:
  "hash_agent_outputs (PDict [(''rag'', PNone), (''document'', PInt 1)]) =
   hash_agent_outputs (PDict [(''document'', PInt 1), (''rag'', PNone)])"
  by (rule hash_ignores_key_order) simp_all

text \<open>
  the previous key is not validated. With \<open>SERVER_HMAC_KEY_PREVIOUS\<close> set to
  one blank, a digest under the empty key is accepted, although the loader of
  the current key insists on 32 bytes.
\<close>

theorem blank_previous_key_accepted:
  assumes "signing_key p \<noteq> None" and "server_hmac_key_previous p = None"
    and "map_of (os_environ p) ''SERVER_HMAC_KEY_PREVIOUS'' = Some '' ''"
  shows "fst (verify_record_hmac (hmac_hex [] (build_hmac_message h d g w)) h d g w p) = Ok True"
proof -
  have "fromhex '' '' = Ok []" by code_simp
  then have "previous_key p = Some []"
    using assms by (simp add: previous_key_def get_previous_hmac_key_def get_or_def Let_def)
  then have "accepts_key p []" using assms(1) by (simp add: accepts_key_def)
  then show ?thesis
    using verify_record_hmac_run [of "hmac_hex [] (build_hmac_message h d g w)" p h d g w] assms(1) by auto
qed

theorem blank_previous_key_accepted_witness:
  "fst (verify_record_hmac (hmac_hex [] (build_hmac_message ''h'' ''d'' ''g'' ''w'')) ''h'' ''d'' ''g'' ''w''
     (demo_proc\<lparr>os_environ := (''SERVER_HMAC_KEY_PREVIOUS'', '' '') # os_environ demo_proc\<rparr>)) = Ok True"
    (is "fst (verify_record_hmac _ _ _ _ _ ?p) = _")
proof -
  have "signing_key ?p = signing_key demo_proc"
    by (simp add: signing_key_def get_server_hmac_key_def demo_proc_def load_hmac_key_def load_key32_def
        get_or_def)
  then show ?thesis
    by (intro blank_previous_key_accepted) (simp_all, simp_all add: demo_proc_def)
qed

end
