(* ===== verification/PanHandler.thy ===== *)
theory PanHandler
  imports HmacUtils
begin

text \<open>
  \<open>security/pan_handler.py\<close>: the format of a PAN, its normal form (upper case,
  stripped), its keyed hash under \<open>PAN_HMAC_KEY\<close>, and the masked display form.
\<close>

section \<open>Format\<close>

definition is_upper_az :: "char \<Rightarrow> bool" where
  "is_upper_az c = (65 \<le> code_point c \<and> code_point c \<le> 90)"

definition pan_shape :: "string \<Rightarrow> bool" where
  "pan_shape s = (length s = 10 \<and> list_all is_upper_az (take 5 s)
     \<and> list_all is_digit (take 4 (drop 5 s)) \<and> is_upper_az (s ! 9))"

text \<open>\<open>PAN_FORMAT_REGEX.match\<close>: the \<open>$\<close> also matches before one final newline.\<close>

definition pan_regex_match :: "string \<Rightarrow> bool" where
  "pan_regex_match s = (pan_shape s \<or> (s \<noteq> [] \<and> code_point (last s) = 10 \<and> pan_shape (butlast s)))"

definition normalise_pan :: "string \<Rightarrow> string" where
  "normalise_pan pan = strip (upper pan)"

definition validate_pan_format :: "string \<Rightarrow> bool" where
  "validate_pan_format pan = (if pan = [] then False else pan_regex_match (normalise_pan pan))"

definition taxpayer_type_map :: "(char \<times> string) list" where
  "taxpayer_type_map =
     [(CHR ''P'', ''Individual''), (CHR ''C'', ''Company''), (CHR ''H'', ''Hindu Undivided Family''),
      (CHR ''F'', ''Firm''), (CHR ''A'', ''Association of Persons''), (CHR ''T'', ''Trust''),
      (CHR ''B'', ''Body of Individuals''), (CHR ''L'', ''Local Authority''),
      (CHR ''J'', ''Artificial Juridical Person''), (CHR ''G'', ''Government'')]"

definition get_taxpayer_type :: "string \<Rightarrow> string option" where
  "get_taxpayer_type pan =
     (let pan_upper = normalise_pan pan in
      if \<not> validate_pan_format pan_upper then None
      else let type_char = pan_upper ! 3 in
        case map_of taxpayer_type_map type_char of
          Some t \<Rightarrow> Some t
        | None \<Rightarrow> Some (''Unknown ('' @ [type_char] @ '')''))"

definition mask_pan :: "string \<Rightarrow> string" where
  "mask_pan pan =
     (let pan_upper = normalise_pan pan in
      if \<not> validate_pan_format pan_upper then ''INVALID_PAN''
      else take 2 pan_upper @ replicate 6 (CHR ''*'') @ drop (length pan_upper - 2) pan_upper)"

section \<open>Key and keyed hash\<close>

definition load_pan_hmac_key :: "proc \<Rightarrow> bytes result" where
  "load_pan_hmac_key p =
     rbind (load_key32 ''PAN_HMAC_KEY'' (os_environ p)) (\<lambda>key.
       let server_key_raw = get_or ''SERVER_HMAC_KEY'' (os_environ p) [] in
       if server_key_raw \<noteq> [] \<and> get_or ''PAN_HMAC_KEY'' (os_environ p) [] = server_key_raw
       then Raise (RuntimeError ''SECURITY VIOLATION: PAN_HMAC_KEY and SERVER_HMAC_KEY must be different keys.'')
       else Ok key)"

definition get_pan_hmac_key :: "(proc, bytes) step" where
  "get_pan_hmac_key p = (case pan_hmac_key p of
     Some k \<Rightarrow> (Ok k, p)
   | None \<Rightarrow> (case load_pan_hmac_key p of
       Inl e \<Rightarrow> (Raise e, p)
     | Inr k \<Rightarrow> (Ok k, p\<lparr>pan_hmac_key := Some k\<rparr>)))"

definition invalidate_pan_key_cache :: "proc \<Rightarrow> proc" where
  "invalidate_pan_key_cache p = p\<lparr>pan_hmac_key := None\<rparr>"

definition hmac_pan :: "string \<Rightarrow> (proc, string) step" where
  "hmac_pan pan =
     (let pan_normalised = normalise_pan pan in
      if \<not> validate_pan_format pan_normalised
      then sraise (ValueError (''Invalid PAN format. Expected [A-Z]{5}[0-9]{4}[A-Z]{1}. Got a '' @
             nat_str (length pan) @ ''-character string.''))
      else sbind get_pan_hmac_key (\<lambda>key. sret (hmac_hex key (utf8 pan_normalised))))"

definition verify_pan_hmac :: "string \<Rightarrow> string \<Rightarrow> (proc, bool) step" where
  "verify_pan_hmac pan stored_hmac =
     sbind (hmac_pan pan) (\<lambda>computed. slift (compare_digest (lower computed) (lower stored_hmac)))"

definition hmac_pan_for_watchlist :: "string \<Rightarrow> (proc, string) step" where
  "hmac_pan_for_watchlist pan = hmac_pan pan"

section \<open>Normal forms\<close>

lemma code_point_char_of: "n < 256 \<Longrightarrow> code_point (char_of n) = n"
  by (simp add: code_point_def of_char_of)

lemma upper_char_facts:
  shows "upper (upper_char c) = upper_char c" and "upper_char (lower_char c) = upper_char c"
proof -
  have less: "code_point c < 256" by simp
  have inv: "char_of (code_point c) = c" by (simp add: code_point_def)
  have S: "upper_char (CHR ''S'') = ''S''" by code_simp
  show "upper (upper_char c) = upper_char c"
  proof (cases "code_point c = 223")
    case True
    then have "upper_char c = ''SS''" by (simp add: upper_char_def)
    then show ?thesis using S by simp
  next
    case False
    then show ?thesis using less
      by (auto simp: upper_char_def [of c] upper_def Let_def)
        (auto simp: upper_char_def Let_def code_point_char_of)
  qed
  show "upper_char (lower_char c) = upper_char c"
    using less inv by (auto simp: upper_char_def lower_char_def Let_def code_point_char_of)
qed

lemma upper_upper [simp]: "upper (upper s) = upper s"
  by (induction s) (simp_all add: upper_char_facts)

lemma upper_lower [simp]: "upper (lower s) = upper s"
  by (induction s) (simp_all add: lower_def upper_char_facts)

lemma strip_parts: "\<exists>l r. s = l @ strip s @ r"
proof -
  have "s = takeWhile is_space s @ dropWhile is_space s" by simp
  moreover have "dropWhile is_space s = strip s @ rev (takeWhile is_space (rev (dropWhile is_space s)))"
    unfolding strip_def by (metis rev_append rev_rev_ident takeWhile_dropWhile_id)
  ultimately show ?thesis by metis
qed

lemma upper_fix_iff: "upper s = s \<longleftrightarrow> (\<forall>c\<in>set s. upper_char c = [c])"
proof
  have len: "length s \<le> length (upper s)" for s
    by (induction s) (auto simp: upper_char_def Let_def)
  show "upper s = s \<Longrightarrow> \<forall>c\<in>set s. upper_char c = [c]"
  proof (induction s)
    case (Cons c s)
    have "length (upper_char c) = 1"
    proof -
      have "length (upper_char c) + length (upper s) = Suc (length s)"
        using Cons.prems by (metis length_Cons length_append upper_Cons)
      moreover have "1 \<le> length (upper_char c)" by (auto simp: upper_char_def Let_def)
      ultimately show ?thesis using len [of s] by simp
    qed
    then obtain d where "upper_char c = [d]" by (auto simp: length_Suc_conv)
    then show ?case using Cons by simp
  qed simp
  show "\<forall>c\<in>set s. upper_char c = [c] \<Longrightarrow> upper s = s"
    by (induction s) auto
qed

lemma normalise_idem [simp]: "normalise_pan (normalise_pan s) = normalise_pan s"
proof -
  obtain l r where "upper s = l @ strip (upper s) @ r" using strip_parts by blast
  then have "set (strip (upper s)) \<subseteq> set (upper s)" by (metis Un_iff set_append subsetI)
  moreover have "\<forall>c\<in>set (upper s). upper_char c = [c]" using upper_upper upper_fix_iff by blast
  ultimately have "upper (strip (upper s)) = strip (upper s)" using upper_fix_iff by blast
  then show ?thesis by (simp add: normalise_pan_def)
qed

lemma strip_no_trailing_space: "strip s = [] \<or> \<not> is_space (last (strip s))"
  unfolding strip_def
  by (metis hd_dropWhile last_rev rev_is_Nil_conv)

lemma normalised_match: "pan_regex_match (normalise_pan s) \<longleftrightarrow> pan_shape (normalise_pan s)"
  using strip_no_trailing_space [of "upper s"]
  by (auto simp: pan_regex_match_def normalise_pan_def is_space_def Let_def)

lemma validate_iff: "validate_pan_format (normalise_pan s) \<longleftrightarrow> pan_shape (normalise_pan s)"
  using normalised_match [of s] by (auto simp: validate_pan_format_def pan_shape_def)

lemma strip_strip_space:
  assumes "\<forall>c\<in>set l \<union> set r. is_space c"
  shows "strip (l @ s @ r) = strip s"
proof -
  have "dropWhile is_space (l @ s @ r) = dropWhile is_space (s @ r)"
    using assms by (simp add: dropWhile_append)
  moreover have "rev (dropWhile is_space (rev (dropWhile is_space (s @ r)))) = strip s"
  proof (cases "\<forall>c\<in>set s. is_space c")
    case True
    then have "dropWhile is_space (s @ r) = []" "dropWhile is_space s = []" using assms
      by (simp_all only: dropWhile_eq_Nil_conv set_append Un_iff) blast+
    then show ?thesis by (simp only: strip_def rev.simps dropWhile.simps)
  next
    case False
    then have "dropWhile is_space (s @ r) = dropWhile is_space s @ r"
      by (auto simp: dropWhile_append)
    moreover have "dropWhile is_space (rev r @ t) = dropWhile is_space t" for t
      using assms by (simp add: dropWhile_append)
    ultimately show ?thesis by (simp add: strip_def)
  qed
  ultimately show ?thesis by (simp add: strip_def)
qed

section \<open>Key facts\<close>

lemma get_pan_key_run:
  "get_pan_hmac_key p = (Ok k, p') \<Longrightarrow> p' = p\<lparr>pan_hmac_key := Some k\<rparr>"
  by (auto simp: get_pan_hmac_key_def split: option.splits sum.splits)

lemma hmac_pan_run:
  "hmac_pan pan p =
     (if pan_shape (normalise_pan pan)
      then (case get_pan_hmac_key p of
          (Inl e, p') \<Rightarrow> (Raise e, p')
        | (Inr k, p') \<Rightarrow> (Ok (hmac_hex k (utf8 (normalise_pan pan))), p'))
      else (Raise (ValueError (''Invalid PAN format. Expected [A-Z]{5}[0-9]{4}[A-Z]{1}. Got a '' @
             nat_str (length pan) @ ''-character string.'')), p))"
  by (auto simp: hmac_pan_def Let_def validate_iff sbind_def sret_def sraise_def split: prod.splits sum.splits)

section \<open>Properties\<close>

definition pan_demo_proc :: proc where
  "pan_demo_proc = demo_proc\<lparr>os_environ := [(''PAN_HMAC_KEY'', hexlify (replicate 32 5))]\<rparr>"

lemma pan_demo_key: "get_pan_hmac_key pan_demo_proc =
    (Ok (replicate 32 5), pan_demo_proc\<lparr>pan_hmac_key := Some (replicate 32 5)\<rparr>)"
proof -
  have "(replicate 32 5 :: bytes) \<noteq> []" by simp
  then show ?thesis
    by (simp add: get_pan_hmac_key_def load_pan_hmac_key_def pan_demo_proc_def demo_proc_def
        load_key32_def get_or_def Let_def)
qed

text \<open>
  C35: a stored PAN digest is found again. Whatever letter case a PAN is written in
  and whatever white space surrounds it, it gets the same digest, as an application's
  and as a watchlist's, and it verifies against the stored one, so exact matching
  works on the digests alone.
\<close>

theorem pan_digest_spelling:
  assumes "\<forall>c\<in>set l \<union> set r. is_space c" and "lower q = lower pan"
    and "hmac_pan pan p = (Ok t, p')"
  shows "hmac_pan (l @ q @ r) p = (Ok t, p') \<and> hmac_pan_for_watchlist (l @ q @ r) p = (Ok t, p') \<and>
    verify_pan_hmac (l @ q @ r) t p = (Ok True, p')"
proof -
  have up: "upper q = upper pan" using assms(2) by (metis upper_lower)
  have "upper u = u" if "\<forall>c\<in>set u. is_space c" for u
    using that by (induction u) (auto simp: is_space_def upper_char_def Let_def)
  then have ul: "upper l = l" "upper r = r" using assms(1) by auto
  have norm: "normalise_pan (l @ q @ r) = normalise_pan pan"
    using up strip_strip_space [OF assms(1), of "upper pan"] by (simp add: normalise_pan_def ul)
  have q: "hmac_pan (l @ q @ r) p = (Ok t, p')"
    using assms(3) unfolding hmac_pan_run norm by (simp split: if_splits)
  obtain k where "t = hmac_hex k (utf8 (normalise_pan (l @ q @ r)))"
    using q by (auto simp: hmac_pan_run split: if_splits sum.splits prod.splits)
  then show ?thesis
    using q by (simp add: hmac_pan_for_watchlist_def verify_pan_hmac_def sbind_def slift_def)
qed

theorem pan_digest_spelling_witness:
  "hmac_pan_for_watchlist '' abcpe1234f '' pan_demo_proc =
     (Ok (hmac_hex (replicate 32 5) (utf8 ''ABCPE1234F'')), pan_demo_proc\<lparr>pan_hmac_key := Some (replicate 32 5)\<rparr>)"
proof -
  have n: "normalise_pan ''ABCPE1234F'' = ''ABCPE1234F''" "pan_shape ''ABCPE1234F''" by code_simp+
  have "lower ''abcpe1234f'' = lower ''ABCPE1234F''" "\<forall>c\<in>set '' '' \<union> set '' ''. is_space c" by code_simp+
  moreover have "hmac_pan ''ABCPE1234F'' pan_demo_proc = (Ok (hmac_hex (replicate 32 5)
      (utf8 ''ABCPE1234F'')), pan_demo_proc\<lparr>pan_hmac_key := Some (replicate 32 5)\<rparr>)"
    by (simp add: hmac_pan_run n pan_demo_key del: utf8_Cons)
  ultimately show ?thesis
    using pan_digest_spelling [of "'' ''" "'' ''" "''abcpe1234f''" "''ABCPE1234F''" pan_demo_proc] by simp
qed

text \<open>
  the plaintext does not leave the module. The result for a PAN of the
  wrong format depends on its length only, and a masked PAN depends only on the
  first two and the last two characters of the normal form.
\<close>

theorem pan_not_revealed:
  "(\<not> pan_shape (normalise_pan a) \<and> \<not> pan_shape (normalise_pan b) \<and> length a = length b \<longrightarrow>
      hmac_pan a p = hmac_pan b p \<and> mask_pan a = mask_pan b)
    \<and> (pan_shape (normalise_pan a) \<and> pan_shape (normalise_pan b) \<and>
       take 2 (normalise_pan a) = take 2 (normalise_pan b) \<and>
       drop 8 (normalise_pan a) = drop 8 (normalise_pan b) \<longrightarrow>
      mask_pan a = mask_pan b \<and> length (mask_pan a) = 10)"
  by (auto simp: hmac_pan_run mask_pan_def Let_def validate_iff) (auto simp: pan_shape_def)

theorem pan_not_revealed_witness:
  "mask_pan ''ABCPE1234F'' = mask_pan ''ABXPZ9874F'' \<and>
   hmac_pan ''AAAA'' pan_demo_proc = hmac_pan ''BBBB'' pan_demo_proc"
proof -
  have "pan_shape (normalise_pan ''ABCPE1234F'')" "pan_shape (normalise_pan ''ABXPZ9874F'')" "\<not> pan_shape (normalise_pan ''AAAA'')"
    "\<not> pan_shape (normalise_pan ''BBBB'')"
    "take 2 (normalise_pan ''ABCPE1234F'') = take 2 (normalise_pan ''ABXPZ9874F'')"
    "drop 8 (normalise_pan ''ABCPE1234F'') = drop 8 (normalise_pan ''ABXPZ9874F'')"
    by code_simp+
  then show ?thesis using pan_not_revealed [of "''ABCPE1234F''" "''ABXPZ9874F''" pan_demo_proc]
    pan_not_revealed [of "''AAAA''" "''BBBB''" pan_demo_proc] by simp
qed

text \<open>
  a validated PAN has ten characters only after case mapping. The sharp s is
  upper-cased to two letters, so a text of nine characters passes the check,
  although the documentation asks for exactly ten.
\<close>

theorem nine_characters_validate:
  "length (''ABC'' @ [CHR 0xDF] @ ''1234F'') = 9 \<and> validate_pan_format (''ABC'' @ [CHR 0xDF] @ ''1234F'')"
  by code_simp

end
