(* ===== verification/Encryption.thy ===== *)
theory Encryption
  imports HmacUtils
begin

text \<open>
  \<open>security/encryption.py\<close>. The class \<open>AESGCM\<close> of the \<open>cryptography\<close> package is a
  parameter (\<open>aead\<close>): the keywords its two methods take, and what they compute from key,
  nonce and data (\<open>aead_seal\<close>, \<open>aead_open\<close>), with what the package documents of them in
  \<open>aead_correct\<close>. The module passes \<open>aad=None\<close>, and the documented keyword is
  \<open>associated_data\<close>, so the keyword is a part of every call. The random nonce of each call is
  an argument.
\<close>

record aead =
  aead_keywords :: "string list"
  aead_seal :: "bytes \<Rightarrow> bytes \<Rightarrow> bytes \<Rightarrow> bytes result"
  aead_open :: "bytes \<Rightarrow> bytes \<Rightarrow> bytes \<Rightarrow> bytes result"

text \<open>
  With a 32-byte key and a 12-byte nonce, sealing gives the ciphertext with a
  16-byte tag, and opening succeeds exactly on what sealing gives.
\<close>

definition aead_correct :: "aead \<Rightarrow> bool" where
  "aead_correct a \<longleftrightarrow> (\<forall>k n. length k = 32 \<and> length n = 12 \<longrightarrow>
     (\<forall>m. \<exists>c. aead_seal a k n m = Ok c \<and> length c = length m + 16) \<and>
     (\<forall>m c. aead_open a k n c = Ok m \<longleftrightarrow> aead_seal a k n m = Ok c))"

text \<open>The keywords the package documents for \<open>encrypt\<close> and \<open>decrypt\<close>.\<close>

definition documented_keywords :: "string list" where
  "documented_keywords = [''nonce'', ''data'', ''associated_data'']"

text \<open>The calls \<open>encrypt(nonce, data, aad=None)\<close> and \<open>decrypt(nonce, data, aad=None)\<close>.\<close>

definition takes_aad :: "aead \<Rightarrow> bool" where
  "takes_aad a \<longleftrightarrow> ''aad'' \<in> set (aead_keywords a)"

definition unexpected_aad :: "string \<Rightarrow> exn" where
  "unexpected_aad method_name = TypeError (''AESGCM.'' @ method_name @ ''() got an unexpected keyword argument '' @ quoted ''aad'')"

definition aesgcm_encrypt :: "aead \<Rightarrow> bytes \<Rightarrow> bytes \<Rightarrow> bytes \<Rightarrow> bytes result" where
  "aesgcm_encrypt a key nonce data = (if takes_aad a then aead_seal a key nonce data else Raise (unexpected_aad ''encrypt''))"

definition aesgcm_decrypt :: "aead \<Rightarrow> bytes \<Rightarrow> bytes \<Rightarrow> bytes \<Rightarrow> bytes result" where
  "aesgcm_decrypt a key nonce data = (if takes_aad a then aead_open a key nonce data else Raise (unexpected_aad ''decrypt''))"

section \<open>Wire format\<close>

abbreviation version_byte :: byte where
  "version_byte \<equiv> 1"

abbreviation nonce_size :: nat where
  "nonce_size \<equiv> 12"

abbreviation min_encrypted_length :: nat where
  "min_encrypted_length \<equiv> 30"

definition wire_nonce :: "bytes \<Rightarrow> bytes" where
  "wire_nonce encrypted = take nonce_size (drop 1 encrypted)"

definition wire_body :: "bytes \<Rightarrow> bytes" where
  "wire_body encrypted = drop (1 + nonce_size) encrypted"

definition is_encrypted :: "bytes \<Rightarrow> bool" where
  "is_encrypted data = (if length data < min_encrypted_length then False else hd data = version_byte)"

section \<open>Operations\<close>

definition load_aes_key :: "proc \<Rightarrow> bytes result" where
  "load_aes_key p = load_key32 ''AES_KEY'' (os_environ p)"

definition get_aes_key :: "(proc, bytes) step" where
  "get_aes_key p = (case aes_key p of
     Some k \<Rightarrow> (Ok k, p)
   | None \<Rightarrow> (case load_aes_key p of
       Inl e \<Rightarrow> (Raise e, p)
     | Inr k \<Rightarrow> (Ok k, p\<lparr>aes_key := Some k\<rparr>)))"

definition encrypt_payload :: "aead \<Rightarrow> bytes \<Rightarrow> bytes \<Rightarrow> (proc, bytes) step" where
  "encrypt_payload a nonce plaintext =
     (if plaintext = [] then sraise (ValueError ''Cannot encrypt empty plaintext.'')
      else sbind get_aes_key (\<lambda>key.
        sbind (slift (aesgcm_encrypt a key nonce plaintext)) (\<lambda>ciphertext_with_tag.
          sret (version_byte # nonce @ ciphertext_with_tag))))"

definition unsupported_version :: "byte \<Rightarrow> exn" where
  "unsupported_version v = ValueError (''Unsupported encryption version: 0x'' @ hex_byte v)"

definition decrypt_payload :: "aead \<Rightarrow> bytes \<Rightarrow> (proc, bytes) step" where
  "decrypt_payload a encrypted =
     (if encrypted = [] then sraise (ValueError ''Cannot decrypt empty ciphertext.'')
      else if length encrypted < min_encrypted_length
      then sraise (ValueError (''Encrypted payload too short: '' @ nat_str (length encrypted) @ '' bytes.''))
      else if hd encrypted \<noteq> version_byte then sraise (unsupported_version (hd encrypted))
      else sbind get_aes_key (\<lambda>key. slift (aesgcm_decrypt a key (wire_nonce encrypted) (wire_body encrypted))))"

definition rotation_key :: "string \<Rightarrow> string \<Rightarrow> bytes result" where
  "rotation_key name hex =
     (case fromhex hex of
        Inl _ \<Rightarrow> Raise (ValueError (name @ '' is not valid hex''))
      | Inr key \<Rightarrow>
          if length key \<noteq> 32
          then Raise (ValueError (name @ '' must be 32 bytes. Got '' @ nat_str (length key) @ ''.''))
          else Ok key)"

definition rotate_encryption ::
  "aead \<Rightarrow> bytes \<Rightarrow> bytes \<Rightarrow> string \<Rightarrow> string option \<Rightarrow> (proc, bytes) step" where
  "rotate_encryption a nonce old_encrypted old_key_hex new_key_hex =
     sbind (slift (rotation_key ''old_key_hex'' old_key_hex)) (\<lambda>old_key.
       if old_encrypted = [] then sraise (StructError ''unpack requires a buffer of 1 bytes'')
       else if hd old_encrypted \<noteq> version_byte
       then sraise (ValueError (''Unsupported version: 0x'' @ hex_byte (hd old_encrypted)))
       else sbind (slift (aesgcm_decrypt a old_key (wire_nonce old_encrypted) (wire_body old_encrypted)))
         (\<lambda>plaintext. case new_key_hex of
            Some new_hex \<Rightarrow>
              sbind (slift (rotation_key ''new_key_hex'' new_hex)) (\<lambda>new_key.
                sbind (slift (aesgcm_encrypt a new_key nonce plaintext)) (\<lambda>new_ciphertext.
                  sret (version_byte # nonce @ new_ciphertext)))
          | None \<Rightarrow> encrypt_payload a nonce plaintext))"

section \<open>Facts\<close>

definition aes_key_in_use :: "proc \<Rightarrow> bytes option" where
  "aes_key_in_use p = (case get_aes_key p of (Inr k, _) \<Rightarrow> Some k | _ \<Rightarrow> None)"

lemma get_aes_key_run:
  "aes_key_in_use p = Some k \<Longrightarrow> get_aes_key p = (Ok k, p\<lparr>aes_key := Some k\<rparr>)"
  by (auto simp: aes_key_in_use_def get_aes_key_def split: option.splits sum.splits)

lemma aes_key_cached [simp]: "aes_key_in_use (p\<lparr>aes_key := Some k\<rparr>) = Some k"
  by (simp add: aes_key_in_use_def get_aes_key_def)

lemma aead_correct_seal:
  assumes "aead_correct a" and "length k = 32" and "length n = 12"
  shows "\<exists>c. aead_seal a k n m = Ok c \<and> length c = length m + 16 \<and> aead_open a k n c = Ok m"
  using assms unfolding aead_correct_def by blast

lemma wire_parts:
  "length n = 12 \<Longrightarrow> wire_nonce (version_byte # n @ c) = n"
  "length n = 12 \<Longrightarrow> wire_body (version_byte # n @ c) = c"
  by (simp_all add: wire_nonce_def wire_body_def)

lemma wire_split:
  assumes "is_encrypted b"
  shows "b = version_byte # wire_nonce b @ wire_body b" and "length (wire_nonce b) = 12"
proof -
  obtain v r where b: "b = v # r" using assms by (cases b) (auto simp: is_encrypted_def)
  then show "b = version_byte # wire_nonce b @ wire_body b"
    using assms by (auto simp: is_encrypted_def wire_nonce_def wire_body_def split: if_splits)
  show "length (wire_nonce b) = 12"
    using assms b by (auto simp: is_encrypted_def wire_nonce_def split: if_splits)
qed

lemma decrypt_run:
  assumes "is_encrypted b" and "aes_key_in_use p = Some k"
  shows "decrypt_payload a b p = (aesgcm_decrypt a k (wire_nonce b) (wire_body b), p\<lparr>aes_key := Some k\<rparr>)"
  using assms get_aes_key_run [OF assms(2)]
  by (auto simp: decrypt_payload_def is_encrypted_def sbind_def slift_def split: if_splits)

lemma encrypt_run:
  assumes "m \<noteq> []" and "aes_key_in_use p = Some k"
  shows "encrypt_payload a n m p =
    (rbind (aesgcm_encrypt a k n m) (\<lambda>c. Ok (version_byte # n @ c)), p\<lparr>aes_key := Some k\<rparr>)"
  using assms get_aes_key_run [OF assms(2)]
  by (cases "aesgcm_encrypt a k n m") (simp_all add: encrypt_payload_def sbind_def slift_def sret_def)

lemma encrypt_decrypt:
  assumes "aead_correct a" and "aes_key_in_use p = Some k" and "length k = 32"
    and "length n = 12" and "m \<noteq> []" and "takes_aad a"
  shows "\<exists>b. encrypt_payload a n m p = (Ok b, p\<lparr>aes_key := Some k\<rparr>) \<and> is_encrypted b \<and>
      length b = length m + 29 \<and>
      (\<forall>q. aes_key_in_use q = Some k \<longrightarrow> decrypt_payload a b q = (Ok m, q\<lparr>aes_key := Some k\<rparr>))"
proof -
  obtain c where c: "aead_seal a k n m = Ok c" "length c = length m + 16" "aead_open a k n c = Ok m"
    using aead_correct_seal [OF assms(1,3,4)] by blast
  let ?b = "version_byte # n @ c"
  have "is_encrypted ?b" using c(2) assms(4,5) by (cases m) (auto simp: is_encrypted_def)
  then show ?thesis
    using encrypt_run [OF assms(5,2), of a n] decrypt_run [of ?b _ k a] c assms(4,6)
    by (intro exI [of _ ?b]) (auto simp: wire_parts aesgcm_encrypt_def aesgcm_decrypt_def)
qed

section \<open>Properties\<close>

text \<open>A stand-in for the primitive that meets its documented behaviour.\<close>

definition plain_aead :: aead where
  "plain_aead = \<lparr>aead_keywords = [''nonce'', ''data'', ''aad''], aead_seal = (\<lambda>k n m. Ok (m @ replicate 16 0)),
     aead_open = (\<lambda>k n c. if 16 \<le> length c \<and> drop (length c - 16) c = replicate 16 0
        then Ok (take (length c - 16) c) else Raise InvalidTag)\<rparr>"

lemma plain_aead_correct: "aead_correct plain_aead"
proof -
  have "c = take (length c - 16) c @ replicate 16 0"
    if "drop (length c - 16) c = replicate 16 0" for c :: bytes
    using that by (metis append_take_drop_id)
  then show ?thesis
    by (auto simp: aead_correct_def plain_aead_def)
qed

definition aes_demo_proc :: proc where
  "aes_demo_proc = demo_proc\<lparr>aes_key := Some (replicate 32 3)\<rparr>"

lemma plain_aead_takes [simp]: "takes_aad plain_aead"
  by (simp add: takes_aad_def plain_aead_def)

text \<open>The same with the keywords the package has.\<close>

definition documented_aead :: aead where
  "documented_aead = plain_aead\<lparr>aead_keywords := documented_keywords\<rparr>"

lemma documented_aead_facts: "aead_correct documented_aead" "\<not> takes_aad documented_aead"
  using plain_aead_correct by (simp_all add: documented_aead_def aead_correct_def takes_aad_def documented_keywords_def)

lemma undecryptable:
  "\<not> takes_aad a \<Longrightarrow> \<not> is_ok (fst (decrypt_payload a b p))"
  "\<not> takes_aad a \<Longrightarrow> \<not> is_ok (fst (rotate_encryption a n b old new p))"
  by (auto simp: decrypt_payload_def rotate_encryption_def sbind_def slift_def sraise_def aesgcm_decrypt_def is_ok_iff
      split: sum.splits prod.splits if_splits)

lemma malformed_refused: "\<not> is_encrypted b \<Longrightarrow> \<exists>msg. decrypt_payload a b p = (Raise (ValueError msg), p)"
  by (auto simp: decrypt_payload_def is_encrypted_def unsupported_version_def sraise_def split: if_splits)

text \<open>
  C7: what becomes of a payload in a process that holds a key. If the package takes the
  keyword \<open>aad\<close> that the module passes, a payload is stored in the wire format, 29 bytes
  longer than the plaintext, and every process with the key decrypts it to itself. If it
  does not, as it documents, encryption raises TypeError, and no bytes at all are
  decrypted or re-encrypted under any key. Bytes that are not in the wire format are
  refused with ValueError before the key is read.
\<close>

theorem payload_encryption:
  assumes "aead_correct a" and "aes_key_in_use p = Some k" and "length k = 32" and "length n = 12" and "m \<noteq> []"
  shows "(if ''aad'' \<in> set (aead_keywords a)
      then \<exists>b. encrypt_payload a n m p = (Ok b, p\<lparr>aes_key := Some k\<rparr>) \<and> is_encrypted b \<and> length b = length m + 29 \<and>
        b = version_byte # n @ drop 13 b \<and> (\<forall>q. aes_key_in_use q = Some k \<longrightarrow> fst (decrypt_payload a b q) = Ok m)
      else encrypt_payload a n m p = (Raise (unexpected_aad ''encrypt''), p\<lparr>aes_key := Some k\<rparr>) \<and>
        (\<forall>b. is_encrypted b \<longrightarrow> decrypt_payload a b p = (Raise (unexpected_aad ''decrypt''), p\<lparr>aes_key := Some k\<rparr>)) \<and>
        (\<forall>b n old new q. \<not> is_ok (fst (decrypt_payload a b q)) \<and> \<not> is_ok (fst (rotate_encryption a n b old new q)))) \<and>
    (\<forall>b q. \<not> is_encrypted b \<longrightarrow> (\<exists>msg. decrypt_payload a b q = (Raise (ValueError msg), q)))"
proof (cases "takes_aad a")
  case True
  then obtain b where b: "encrypt_payload a n m p = (Ok b, p\<lparr>aes_key := Some k\<rparr>)" "is_encrypted b" "length b = length m + 29"
    "\<forall>q. aes_key_in_use q = Some k \<longrightarrow> decrypt_payload a b q = (Ok m, q\<lparr>aes_key := Some k\<rparr>)"
    using encrypt_decrypt [OF assms] by blast
  moreover have "b = version_byte # n @ drop 13 b"
    using b(1) encrypt_run [OF assms(5,2), of a n] assms(4) by (auto simp: rbind_Inr_iff)
  ultimately show ?thesis using True malformed_refused by (auto simp: takes_aad_def)
next
  case False
  then show ?thesis
    using encrypt_run [OF assms(5,2), of a n] decrypt_run [OF _ assms(2), of _ a] undecryptable [OF False] malformed_refused
    by (simp add: takes_aad_def [symmetric] aesgcm_encrypt_def aesgcm_decrypt_def)
qed

theorem payload_encryption_witness:
  "encrypt_payload documented_aead (replicate 12 1) [104, 105] aes_demo_proc = (Raise (unexpected_aad ''encrypt''), aes_demo_proc) \<and>
   (\<exists>b. encrypt_payload plain_aead (replicate 12 1) [104, 105] aes_demo_proc = (Ok b, aes_demo_proc) \<and> length b = 31)"
proof -
  have key: "aes_key_in_use aes_demo_proc = Some (replicate 32 3)" "aes_demo_proc\<lparr>aes_key := Some (replicate 32 3)\<rparr> = aes_demo_proc"
    by (simp_all add: aes_demo_proc_def)
  have "length (replicate 32 (3 :: byte)) = 32" "length (replicate 12 (1 :: byte)) = 12" "[104, 105 :: byte] \<noteq> []" by simp_all
  note args = key(1) this
  have "''aad'' \<notin> set (aead_keywords documented_aead)" "''aad'' \<in> set (aead_keywords plain_aead)"
    using documented_aead_facts(2) plain_aead_takes unfolding takes_aad_def by blast+
  then show ?thesis
    using payload_encryption [OF documented_aead_facts(1) args] payload_encryption [OF plain_aead_correct args] key(2) by auto
qed

text \<open>
  re-encryption under a new key. With a package that takes the keyword, bytes encrypted
  under the old key come back encrypted under the new one, and the new bytes decrypt to
  the same plaintext.
\<close>

theorem rotation_re_encrypts:
  assumes "aead_correct a" and "length old = 32" and "length new = 32" and "length n = 12"
    and "length n' = 12" and "m \<noteq> []" and "aead_seal a old n m = Ok c"
    and "aes_key_in_use q = Some new" and "takes_aad a"
  shows "\<exists>b. rotate_encryption a n' (version_byte # n @ c) (hexlify old) (Some (hexlify new)) p = (Ok b, p) \<and>
      fst (decrypt_payload a b q) = Ok m"
proof -
  have "aead_open a old n c = Ok m" using assms by (simp add: aead_correct_def)
  moreover obtain c' where c': "aead_seal a new n' m = Ok c'" "length c' = length m + 16"
    "aead_open a new n' c' = Ok m"
    using aead_correct_seal [OF assms(1,3,5)] by blast
  moreover have "is_encrypted (version_byte # n' @ c')"
    using c'(2) assms(5,6) by (cases m) (auto simp: is_encrypted_def)
  ultimately show ?thesis
    using assms decrypt_run [of "version_byte # n' @ c'" q new a]
    by (auto simp: rotate_encryption_def rotation_key_def sbind_def slift_def sret_def wire_parts aesgcm_encrypt_def aesgcm_decrypt_def)
qed

theorem rotation_re_encrypts_witness:
  "\<exists>b. rotate_encryption plain_aead (replicate 12 2) (version_byte # replicate 12 1 @ 104 # replicate 16 0)
      (hexlify (replicate 32 9)) (Some (hexlify (replicate 32 3))) demo_proc = (Ok b, demo_proc) \<and>
    fst (decrypt_payload plain_aead b aes_demo_proc) = Ok [104]"
  using rotation_re_encrypts [OF plain_aead_correct, of "replicate 32 9" "replicate 32 3" "replicate 12 1"
      "replicate 12 2" "[104]" "104 # replicate 16 0" aes_demo_proc demo_proc]
  by (simp add: plain_aead_def aes_demo_proc_def takes_aad_def)

end
