(* ===== verification/Secrets.thy ===== *)
theory Secrets
  imports PanHandler Encryption
begin

text \<open>
  \<open>security/secrets_loader.py\<close>: loading secrets from the environment or from
  Vault, their validation, the cache and its reload. The Vault client (\<open>hvac\<close>)
  is a parameter: whether it can be imported, whether it authenticates at an
  address with a token, and what reading a path at a mount point gives.
  Warnings and log lines are not modelled.
\<close>

record vault =
  vault_importable :: bool
  vault_authenticated :: "string \<Rightarrow> string \<Rightarrow> bool"
  vault_read :: "string \<Rightarrow> string \<Rightarrow> string \<Rightarrow> string \<Rightarrow> env_items result"

section \<open>Definitions\<close>

definition required_secrets :: "string list" where
  "required_secrets = [''SERVER_HMAC_KEY'', ''PAN_HMAC_KEY'', ''AES_KEY'', ''POSTGRES_PASSWORD'',
     ''REDIS_PASSWORD'', ''MINIO_SECRET_KEY'']"

definition optional_secrets :: "string list" where
  "optional_secrets = [''SERVER_HMAC_KEY_PREVIOUS'', ''SENDGRID_API_KEY'', ''DEMO_API_KEY'',
     ''GROQ_API_KEY'', ''VAULT_TOKEN'', ''GRAFANA_ADMIN_PASSWORD'', ''FLOWER_BASIC_AUTH'']"

definition must_differ_pairs :: "(string \<times> string) list" where
  "must_differ_pairs = [(''SERVER_HMAC_KEY'', ''PAN_HMAC_KEY''), (''SERVER_HMAC_KEY'', ''AES_KEY''),
     (''PAN_HMAC_KEY'', ''AES_KEY'')]"

definition load_from_vault :: "vault \<Rightarrow> proc \<Rightarrow> env_items result" where
  "load_from_vault v p =
     (let env = os_environ p;
          addr = get_or ''VAULT_ADDR'' env ''http://localhost:8200'';
          token = get_or ''VAULT_TOKEN'' env [];
          mount = get_or ''VAULT_MOUNT_PATH'' env ''secret'';
          path = get_or ''VAULT_SECRET_PATH'' env ''complianceloop''
      in if \<not> vault_importable v
         then Raise (RuntimeError ''hvac package is required for Vault integration.'')
         else if token = [] then Raise (RuntimeError ''VAULT_TOKEN is not set. Cannot load secrets from Vault.'')
         else if \<not> vault_authenticated v addr token
         then Raise (RuntimeError (''Vault authentication failed. Check VAULT_TOKEN and VAULT_ADDR ('' @ addr @ '').''))
         else case vault_read v addr token path mount of
           Inl _ \<Rightarrow> Raise (RuntimeError (''Failed to read secrets from Vault at '' @ mount @ ''/'' @ path))
         | Inr data \<Rightarrow>
             if data = [] then Raise (RuntimeError (''No data found at Vault path '' @ mount @ ''/'' @ path @ ''.''))
             else Ok data)"

definition named_from_env :: "env_items \<Rightarrow> env_items" where
  "named_from_env env =
     foldl (\<lambda>result name. let value = get_or name env [] in
         if value \<noteq> [] then set_item name value result else result)
       [] (required_secrets @ optional_secrets @ [''SERVER_HMAC_KEY_PREVIOUS''])"

definition load_from_environment :: "proc \<Rightarrow> env_items" where
  "load_from_environment p =
     foldl (\<lambda>result kv. if snd kv \<noteq> [] \<and> map_of result (fst kv) = None
         then set_item (fst kv) (snd kv) result else result)
       (named_from_env (os_environ p)) (os_environ p)"

fun check_pairs :: "env_items \<Rightarrow> (string \<times> string) list \<Rightarrow> unit result" where
  "check_pairs secrets [] = Ok ()"
| "check_pairs secrets ((a, b) # ps) =
     (let val_a = get_or a secrets []; val_b = get_or b secrets [] in
      if val_a \<noteq> [] \<and> val_b \<noteq> [] \<and> val_a = val_b
      then Raise (RuntimeError (''SECURITY VIOLATION: '' @ a @ '' and '' @ b @ '' must be different keys.''))
      else check_pairs secrets ps)"

fun check_crypto_keys :: "env_items \<Rightarrow> (string \<times> nat) list \<Rightarrow> unit result" where
  "check_crypto_keys secrets [] = Ok ()"
| "check_crypto_keys secrets ((name, expected) # ks) =
     (let value = get_or name secrets [] in
      if value = [] then check_crypto_keys secrets ks
      else case fromhex value of
        Inl _ \<Rightarrow> Raise (RuntimeError (name @ '' is not valid hex.''))
      | Inr key \<Rightarrow>
          if length key \<noteq> expected
          then Raise (RuntimeError (name @ '' must be '' @ nat_str expected @ '' bytes ('' @
            nat_str (expected * 2) @ '' hex chars). Got '' @ nat_str (length key) @ '' bytes ('' @
            nat_str (length value) @ '' hex chars).''))
          else check_crypto_keys secrets ks)"

definition crypto_keys :: "(string \<times> nat) list" where
  "crypto_keys = [(''SERVER_HMAC_KEY'', 32), (''PAN_HMAC_KEY'', 32), (''AES_KEY'', 32)]"

definition validate_secrets :: "env_items \<Rightarrow> unit result" where
  "validate_secrets secrets =
     (let missing = filter (\<lambda>name. get_or name secrets [] = []) required_secrets in
      if missing \<noteq> [] then Raise (RuntimeError (''Missing required secrets: '' @ join '', '' missing @ ''.''))
      else rbind (check_pairs secrets must_differ_pairs) (\<lambda>_. check_crypto_keys secrets crypto_keys))"

text \<open>Vault values enter the environment only under names that are not set yet.\<close>

definition inject_env :: "env_items \<Rightarrow> env_items \<Rightarrow> env_items" where
  "inject_env secrets env =
     foldl (\<lambda>e kv. if map_of e (fst kv) = None then set_item (fst kv) (snd kv) e else e) env secrets"

definition load_secrets :: "vault \<Rightarrow> (proc, unit) step" where
  "load_secrets v p =
     (if secrets_loaded p then (Ok (), p)
      else
        let use_vault = lower (get_or ''USE_VAULT'' (os_environ p) ''false'') = ''true'';
            fetched = (if use_vault then load_from_vault v p else Ok (load_from_environment p))
        in case fetched of
          Inl e \<Rightarrow> (Raise e, p)
        | Inr secrets \<Rightarrow>
            let p1 = (if use_vault then p\<lparr>os_environ := inject_env secrets (os_environ p)\<rparr> else p)
            in case validate_secrets secrets of
              Inl e \<Rightarrow> (Raise e, p1)
            | Inr _ \<Rightarrow>
                (Ok (), (invalidate_pan_key_cache (invalidate_key_cache
                   (p1\<lparr>secret_cache := update_items (secret_cache p1) secrets\<rparr>)))\<lparr>secrets_loaded := True\<rparr>))"

definition get_secret :: "string \<Rightarrow> string option \<Rightarrow> proc \<Rightarrow> string result" where
  "get_secret name dflt p =
     (case map_of (secret_cache p) name of
        Some v \<Rightarrow> Ok v
      | None \<Rightarrow>
          let env_value = get_or name (os_environ p) [] in
          if env_value \<noteq> [] then Ok env_value
          else case dflt of
            Some d \<Rightarrow> Ok d
          | None \<Rightarrow> Raise (KeyError (''Secret '' @ quoted name @ '' is not available.'')))"

definition reload_secrets :: "vault \<Rightarrow> (proc, unit) step" where
  "reload_secrets v p =
     load_secrets v (invalidate_pan_key_cache (invalidate_key_cache
       (p\<lparr>secrets_loaded := False, secret_cache := []\<rparr>)))"

definition get_all_secret_names :: "proc \<Rightarrow> string list" where
  "get_all_secret_names p = map fst (secret_cache p)"

section \<open>Validated secrets\<close>

text \<open>What a set of secrets that passed validation guarantees.\<close>

definition sound_secrets :: "(string \<Rightarrow> string) \<Rightarrow> bool" where
  "sound_secrets val \<longleftrightarrow>
     (\<forall>n\<in>set required_secrets. val n \<noteq> []) \<and>
     (\<forall>(a, b)\<in>set must_differ_pairs. val a \<noteq> val b) \<and>
     (\<forall>(n, len)\<in>set crypto_keys. \<exists>k. fromhex (val n) = Ok k \<and> length k = len)"

lemma check_pairs_Ok_iff:
  "check_pairs secrets ps = Ok () \<longleftrightarrow>
     (\<forall>(a, b)\<in>set ps. get_or a secrets [] = [] \<or> get_or a secrets [] \<noteq> get_or b secrets [])"
  by (induction secrets ps rule: check_pairs.induct) (auto simp: Let_def)

lemma check_crypto_keys_Ok_iff:
  "check_crypto_keys secrets ks = Ok () \<longleftrightarrow>
     (\<forall>(n, len)\<in>set ks. get_or n secrets [] = [] \<or>
        (\<exists>k. fromhex (get_or n secrets []) = Ok k \<and> length k = len))"
  by (induction secrets ks rule: check_crypto_keys.induct) (auto simp: Let_def split: sum.splits)

lemma validate_secrets_Ok_iff:
  "validate_secrets secrets = Ok () \<longleftrightarrow> sound_secrets (\<lambda>n. get_or n secrets [])"
proof -
  have all: "(\<forall>(n, len)\<in>set crypto_keys. n \<in> set required_secrets)"
    "(\<forall>(a, b)\<in>set must_differ_pairs. a \<in> set required_secrets \<and> b \<in> set required_secrets)"
    by (simp_all add: crypto_keys_def required_secrets_def must_differ_pairs_def)
  have "filter (\<lambda>name. get_or name secrets [] = []) required_secrets = [] \<longleftrightarrow>
      (\<forall>n\<in>set required_secrets. get_or n secrets [] \<noteq> [])"
    by (simp add: filter_empty_conv)
  then show ?thesis
    using all
    by (auto simp: validate_secrets_def Let_def sound_secrets_def rbind_Inr_iff check_pairs_Ok_iff
        check_crypto_keys_Ok_iff)
qed

lemma validate_secrets_error: "validate_secrets secrets = Raise e \<Longrightarrow> \<exists>m. e = RuntimeError m"
proof -
  have "check_pairs secrets ps = Raise e \<Longrightarrow> \<exists>m. e = RuntimeError m" for ps
    by (induction secrets ps rule: check_pairs.induct) (auto simp: Let_def split: if_splits)
  moreover have "check_crypto_keys secrets ks = Raise e \<Longrightarrow> \<exists>m. e = RuntimeError m" for ks
    by (induction secrets ks rule: check_crypto_keys.induct) (auto simp: Let_def split: if_splits sum.splits)
  ultimately show "validate_secrets secrets = Raise e \<Longrightarrow> \<exists>m. e = RuntimeError m"
    by (auto simp: validate_secrets_def Let_def rbind_Inl_iff split: if_splits)
qed

section \<open>Loading from the environment\<close>

lemma map_of_named_from_env:
  "map_of (named_from_env env) k =
     (if k \<in> set (required_secrets @ optional_secrets) \<and> get_or k env [] \<noteq> []
      then Some (get_or k env []) else None)"
proof -
  have fold: "map_of (foldl (\<lambda>result name. let value = get_or name env [] in
         if value \<noteq> [] then set_item name value result else result) r names) k =
     (if k \<in> set names \<and> get_or k env [] \<noteq> [] then Some (get_or k env []) else map_of r k)" for r names
    by (induction names arbitrary: r) (auto simp: Let_def)
  have "set (required_secrets @ optional_secrets @ [''SERVER_HMAC_KEY_PREVIOUS''])
      = set (required_secrets @ optional_secrets)"
    by (auto simp: optional_secrets_def)
  then show ?thesis unfolding named_from_env_def fold by simp
qed

lemma map_of_env_fold:
  "distinct (map fst kvs) \<Longrightarrow>
   map_of (foldl (\<lambda>result kv. if snd kv \<noteq> [] \<and> map_of result (fst kv) = None
         then set_item (fst kv) (snd kv) result else result) r kvs) k =
     (case map_of r k of Some v \<Rightarrow> Some v | None \<Rightarrow>
        (case map_of kvs k of Some v \<Rightarrow> if v = [] then None else Some v | None \<Rightarrow> None))"
proof (induction kvs arbitrary: r)
  case (Cons kv kvs)
  have "map_of kvs (fst kv) = None" using Cons.prems by (simp add: map_of_eq_None_iff)
  then show ?case using Cons by (auto split: option.splits)
qed (simp split: option.splits)

lemma get_or_load_from_environment:
  assumes "distinct (map fst (os_environ p))"
  shows "get_or k (load_from_environment p) [] = get_or k (os_environ p) []"
  unfolding load_from_environment_def get_or_def [of k] map_of_env_fold [OF assms] map_of_named_from_env
  by (auto simp: get_or_def split: option.splits)

section \<open>Properties\<close>

definition demo_env :: env_items where
  "demo_env = [(''SERVER_HMAC_KEY'', hexlify (replicate 32 7)), (''PAN_HMAC_KEY'', hexlify (replicate 32 5)),
     (''AES_KEY'', hexlify (replicate 32 3)), (''POSTGRES_PASSWORD'', ''p''), (''REDIS_PASSWORD'', ''r''),
     (''MINIO_SECRET_KEY'', ''m'')]"

definition no_vault :: vault where
  "no_vault = \<lparr>vault_importable = False, vault_authenticated = (\<lambda>_ _. False), vault_read = (\<lambda>_ _ _ _. Ok [])\<rparr>"

lemma hexlify_replicate_eq:
  assumes "0 < n"
  shows "hexlify (replicate n a) = hexlify (replicate n b) \<longleftrightarrow> a = b"
  using assms hex.enc_eq_iff [of "replicate n a" "replicate n b"] by (simp add: replicate_eq_replicate)


lemma map_of_inject_env:
  "map_of env k \<noteq> None \<Longrightarrow> map_of (inject_env secrets env) k = map_of env k"
  unfolding inject_env_def
proof (induction secrets arbitrary: env)
  case (Cons kv secrets)
  have "map_of (if map_of env (fst kv) = None then set_item (fst kv) (snd kv) env else env) k = map_of env k"
    using Cons.prems by auto
  then show ?case using Cons by simp
qed simp



















text \<open>
  a reload from Vault does not replace a key that the environment already
  holds. Whatever new signing key Vault returns, a successful reload leaves the
  process signing with the key of the environment, the one an earlier load put
  there, although the cache reports the new one.
\<close>

theorem vault_reload_keeps_old_key:
  assumes "reload_secrets v p = (Ok (), p')" and "lower (get_or ''USE_VAULT'' (os_environ p) ''false'') = ''true''"
    and "map_of (os_environ p) ''SERVER_HMAC_KEY'' = Some (hexlify old)" and "length old = 32"
    and "load_from_vault v p = Ok secrets" and "distinct (map fst secrets)"
    and "map_of secrets ''SERVER_HMAC_KEY'' = Some new"
  shows "signing_key p' = Some old \<and> get_secret ''SERVER_HMAC_KEY'' None p' = Ok new"
proof -
  let ?p0 = "invalidate_pan_key_cache (invalidate_key_cache (p\<lparr>secrets_loaded := False, secret_cache := []\<rparr>))"
  let ?p1 = "?p0\<lparr>os_environ := inject_env secrets (os_environ p)\<rparr>"
  have env: "os_environ ?p0 = os_environ p" "\<not> secrets_loaded ?p0" "secret_cache ?p0 = []"
    by (simp_all add: invalidate_pan_key_cache_def invalidate_key_cache_def)
  have "load_from_vault v ?p0 = Ok secrets" using assms(5) env(1) by (simp add: load_from_vault_def)
  then have p': "p' = (invalidate_pan_key_cache (invalidate_key_cache
      (?p1\<lparr>secret_cache := update_items [] secrets\<rparr>)))\<lparr>secrets_loaded := True\<rparr>"
    using assms(1,2) env by (auto simp: reload_secrets_def load_secrets_def Let_def split: sum.splits)
  have "map_of (os_environ p') ''SERVER_HMAC_KEY'' = Some (hexlify old)" "server_hmac_key p' = None"
    "secret_cache p' = update_items [] secrets"
    using assms(3) map_of_inject_env [of "os_environ p" "''SERVER_HMAC_KEY''" secrets]
    by (simp_all add: p' invalidate_pan_key_cache_def invalidate_key_cache_def)
  then show ?thesis
    using load_key32_hexlify [of "os_environ p'" "''SERVER_HMAC_KEY''" old] assms(4,6,7)
    by (simp add: signing_key_def get_server_hmac_key_def load_hmac_key_def get_secret_def
        map_of_update_distinct)
qed

definition demo_vault :: vault where
  "demo_vault = \<lparr>vault_importable = True, vault_authenticated = (\<lambda>_ _. True),
     vault_read = (\<lambda>_ _ _ _. Ok ((''SERVER_HMAC_KEY'', hexlify (replicate 32 9)) # tl demo_env))\<rparr>"

theorem vault_reload_keeps_old_key_witness:
  "\<exists>p'. reload_secrets demo_vault (demo_proc\<lparr>os_environ :=
       [(''SERVER_HMAC_KEY'', hexlify (replicate 32 7)), (''USE_VAULT'', ''true''), (''VAULT_TOKEN'', ''t'')]\<rparr>)
     = (Ok (), p') \<and> signing_key p' = Some (replicate 32 7)"
proof -
  let ?env = "[(''SERVER_HMAC_KEY'', hexlify (replicate 32 7)), (''USE_VAULT'', ''true''), (''VAULT_TOKEN'', ''t'')]"
  let ?p = "demo_proc\<lparr>os_environ := ?env\<rparr>"
  let ?s = "(''SERVER_HMAC_KEY'', hexlify (replicate 32 9)) # tl demo_env"
  have u: "lower (get_or ''USE_VAULT'' (os_environ ?p) ''false'') = ''true''"
    by (simp add: get_or_def lower_def lower_char_def code_point_def)
  have v: "load_from_vault demo_vault ?p = Ok ?s"
    by (simp add: load_from_vault_def demo_vault_def get_or_def)
  have "(replicate 32 b :: bytes) \<noteq> []" for b by simp
  then have "validate_secrets ?s = Ok ()"
    by (simp add: validate_secrets_Ok_iff sound_secrets_def required_secrets_def must_differ_pairs_def
        crypto_keys_def demo_env_def get_or_def hexlify_replicate_eq)
  moreover have "load_from_vault demo_vault (invalidate_pan_key_cache (invalidate_key_cache
      (?p\<lparr>secrets_loaded := False, secret_cache := []\<rparr>))) = Ok ?s"
    using v by (simp add: load_from_vault_def invalidate_pan_key_cache_def invalidate_key_cache_def)
  ultimately obtain p' where r: "reload_secrets demo_vault ?p = (Ok (), p')"
    using u by (simp add: reload_secrets_def load_secrets_def Let_def invalidate_pan_key_cache_def
        invalidate_key_cache_def)
  moreover have "distinct (map fst ?s)" "map_of ?s ''SERVER_HMAC_KEY'' = Some (hexlify (replicate 32 9))"
    "map_of (os_environ ?p) ''SERVER_HMAC_KEY'' = Some (hexlify (replicate 32 7))"
    "length (replicate 32 7 :: bytes) = 32"
    by (simp_all add: demo_env_def)
  ultimately show ?thesis using vault_reload_keeps_old_key [OF r u _ _ v] by blast
qed

text \<open>
  a failed reload leaves the process without cached secrets and not loaded,
  so that secrets are then looked up in the environment alone, and the error is
  a RuntimeError.
\<close>

theorem failed_reload_empties_cache:
  assumes "reload_secrets v p = (Raise e, p')"
  shows "secret_cache p' = [] \<and> \<not> secrets_loaded p' \<and> server_hmac_key p' = None \<and> pan_hmac_key p' = None
    \<and> (\<exists>m. e = RuntimeError m)
    \<and> (get_or n (os_environ p') [] = [] \<longrightarrow> get_secret n None p' = Raise (KeyError (''Secret '' @ quoted n @ '' is not available.'')))"
proof -
  have "load_from_vault v q = Raise e' \<Longrightarrow> \<exists>m. e' = RuntimeError m" for q e'
    by (auto simp: load_from_vault_def Let_def split: if_splits sum.splits)
  then show ?thesis
    using assms validate_secrets_error
    by (auto simp: reload_secrets_def load_secrets_def Let_def invalidate_pan_key_cache_def
        invalidate_key_cache_def get_secret_def split: sum.splits if_splits)
qed

theorem failed_reload_empties_cache_witness:
  "\<exists>e p'. reload_secrets no_vault demo_proc = (Raise e, p') \<and> secret_cache p' = []"
proof -
  let ?p0 = "invalidate_pan_key_cache (invalidate_key_cache
      (demo_proc\<lparr>secrets_loaded := False, secret_cache := []\<rparr>))"
  have d: "distinct (map fst (os_environ demo_proc))" by (simp add: demo_proc_def)
  have "validate_secrets (load_from_environment demo_proc) \<noteq> Ok ()"
    using get_or_load_from_environment [OF d]
    by (simp add: validate_secrets_Ok_iff sound_secrets_def required_secrets_def demo_proc_def get_or_def)
  then obtain e where e: "validate_secrets (load_from_environment demo_proc) = Raise e"
    by (cases "validate_secrets (load_from_environment demo_proc)") auto
  have env: "os_environ ?p0 = os_environ demo_proc" "\<not> secrets_loaded ?p0"
    by (simp_all add: invalidate_pan_key_cache_def invalidate_key_cache_def)
  have same: "load_from_environment ?p0 = load_from_environment demo_proc"
    unfolding load_from_environment_def env(1) ..
  have "lower (get_or ''USE_VAULT'' (os_environ ?p0) ''false'') \<noteq> ''true''"
    unfolding env(1) by (simp add: demo_proc_def get_or_def lower_def lower_char_def code_point_def)
  then have "reload_secrets no_vault demo_proc = (Raise e, ?p0)"
    using env(2) e by (simp add: reload_secrets_def load_secrets_def Let_def same)
  then show ?thesis using failed_reload_empties_cache by blast
qed

text \<open>
  key separation is checked on the hexadecimal texts. With the PAN key
  written in upper case and the server key in lower case both loaders succeed
  and return the same 32 bytes.
\<close>

theorem separation_is_textual:
  "let env = [(''SERVER_HMAC_KEY'', concat (replicate 32 ''ab'')), (''PAN_HMAC_KEY'', concat (replicate 32 ''AB''))];
       p = demo_proc\<lparr>os_environ := env\<rparr>
   in check_pairs env must_differ_pairs = Ok () \<and>
      fst (get_server_hmac_key p) = Ok (replicate 32 0xab) \<and> fst (get_pan_hmac_key p) = Ok (replicate 32 0xab)"
proof -
  have "fromhex (concat (replicate 32 ''ab'')) = Ok (replicate 32 0xab)"
    "fromhex (concat (replicate 32 ''AB'')) = Ok (replicate 32 0xab)"
    "concat (replicate 32 ''ab'') \<noteq> concat (replicate 32 ''AB'')"
    "concat (replicate 32 ''ab'') \<noteq> []" "concat (replicate 32 ''AB'') \<noteq> []"
    by code_simp+
  then show ?thesis
    by (simp add: must_differ_pairs_def get_or_def demo_proc_def get_server_hmac_key_def load_hmac_key_def
        load_key32_def get_pan_hmac_key_def load_pan_hmac_key_def)
qed

end
