(* ===== verification/Models.thy ===== *)
theory Models
  imports Process Json_Facts
begin

text \<open>
  The rows of the tables the modelled components read and write (\<open>models/\<close>), the
  database with the constraints a commit checks, and the world a request runs
  in: the process, the two databases (production and demo), the object store,
  the messages sent to Celery and the faults of the services around.

  Columns keep their types: a UUID is a 128-bit word, a \<open>TIMESTAMPTZ\<close> an instant
  in microseconds (UTC), a \<open>Numeric\<close> the text of its \<open>float\<close>, JSONB a \<open>pyval\<close>.
  Relationships are the foreign keys. A table is the list of its rows.
\<close>

section \<open>Enumerations\<close>

datatype decision_outcome = APPROVE | REVIEW | REJECT

fun outcome_value :: "decision_outcome \<Rightarrow> string" where
  "outcome_value APPROVE = ''APPROVE''"
| "outcome_value REVIEW = ''REVIEW''"
| "outcome_value REJECT = ''REJECT''"

datatype notification_type = DECISION_CHANGE | REVIEW_ASSIGNED | BREACH_ALERT

datatype notification_channel = EMAIL | WEBHOOK

datatype notification_status = PENDING | SENT | FAILED | SUPPRESSED

section \<open>Rows\<close>

record application =
  ap_id :: uuid
  ap_is_demo :: bool
  ap_created_at :: int
  ap_updated_at :: int
  ap_applicant_id :: uuid
  ap_applicant_name :: string
  ap_pan_hmac :: string
  ap_pan_format_valid :: bool
  ap_loan_amount_requested :: string
  ap_loan_tenure_months :: int
  ap_loan_purpose :: string
  ap_declared_income :: string
  ap_declared_obligations :: string
  ap_collateral_value :: "string option"
  ap_city_tier :: "string option"
  ap_remote_onboarding :: bool
  ap_applicant_risk_category :: string
  ap_guideline_version_id :: "uuid option"
  ap_payload_encrypted :: "bytes option"
  ap_dpdp_consent_given :: bool
  ap_dpdp_consent_version :: string
  ap_dpdp_consent_at :: int
  ap_data_retention_expires_at :: int
  ap_retention_wiped :: bool
  ap_retention_wiped_at :: "int option"
  ap_submitted_at :: int
  ap_source_ip_hash :: "string option"
  ap_api_key_id :: "uuid option"

record decision =
  de_id :: uuid
  de_is_demo :: bool
  de_created_at :: int
  de_updated_at :: int
  de_application_id :: uuid
  de_guideline_version_id :: uuid
  de_previous_decision_id :: "uuid option"
  de_run_number :: int
  de_is_retro_eval :: bool
  de_outcome :: decision_outcome
  de_confidence :: string
  de_composite_score :: string
  de_agent_outputs :: pyval
  de_outcome_signals :: pyval
  de_rationale_chain :: pyval
  de_pipeline_duration_ms :: "int option"

record audit_record =
  au_id :: uuid
  au_is_demo :: bool
  au_decision_id :: uuid
  au_application_id :: uuid
  au_guideline_version_id :: uuid
  au_affected_agent_tags :: "string list"
  au_agent_outputs_hash :: string
  au_record_hmac :: string
  au_payload_s3_key :: "string option"
  au_payload_s3_uploaded :: bool
  au_written_at :: int
  au_breach_flag :: bool
  au_breach_flagged_at :: "int option"

record guideline_version =
  gv_id :: uuid
  gv_is_demo :: bool
  gv_created_at :: int
  gv_updated_at :: int
  gv_source_url :: string
  gv_circular_reference :: string
  gv_title :: "string option"
  gv_effective_date :: "int option"
  gv_sunset_date :: "int option"
  gv_scraped_at :: int
  gv_content_hash :: string
  gv_diff_summary :: "string option"
  gv_affected_agent_tags :: "string list"
  gv_parameters :: pyval
  gv_is_active :: bool
  gv_promoted_by :: "string option"
  gv_promoted_at :: "int option"
  gv_raw_content_s3_key :: "string option"

record consent_version =
  cv_id :: uuid
  cv_created_at :: int
  cv_updated_at :: int
  cv_version_id :: string
  cv_title :: string
  cv_consent_text :: string
  cv_summary :: "string option"
  cv_is_active :: bool
  cv_effective_from :: int
  cv_superseded_at :: "int option"
  cv_change_summary :: "string option"

record retention_event =
  re_id :: uuid
  re_application_id :: uuid
  re_wiped_at :: int
  re_wipe_task_run_id :: string
  re_fields_wiped :: string
  re_retention_policy_days :: int
  re_data_retention_expires_at_snapshot :: int

record notification_outbox =
  no_id :: uuid
  no_is_demo :: bool
  no_created_at :: int
  no_updated_at :: int
  no_notification_type :: notification_type
  no_channel :: notification_channel
  no_recipient_application_id :: "uuid option"
  no_recipient_reviewer_id :: "uuid option"
  no_recipient_email :: "string option"
  no_recipient_webhook_url :: "string option"
  no_payload :: pyval
  no_status :: notification_status
  no_retry_count :: int
  no_max_retries :: int
  no_next_retry_at :: "int option"
  no_sent_at :: "int option"
  no_failure_reason :: "string option"

section \<open>Databases\<close>

record db =
  t_applications :: "application list"
  t_decisions :: "decision list"
  t_audit_records :: "audit_record list"
  t_guideline_versions :: "guideline_version list"
  t_consent_versions :: "consent_version list"
  t_retention_events :: "retention_event list"
  t_notification_outbox :: "notification_outbox list"

definition find_application :: "db \<Rightarrow> uuid \<Rightarrow> application option" where
  "find_application d u = find (\<lambda>r. ap_id r = u) (t_applications d)"

definition find_decision :: "db \<Rightarrow> uuid \<Rightarrow> decision option" where
  "find_decision d u = find (\<lambda>r. de_id r = u) (t_decisions d)"

definition find_guideline :: "db \<Rightarrow> uuid \<Rightarrow> guideline_version option" where
  "find_guideline d u = find (\<lambda>r. gv_id r = u) (t_guideline_versions d)"

definition find_audit :: "db \<Rightarrow> uuid \<Rightarrow> audit_record option" where
  "find_audit d u = find (\<lambda>r. au_decision_id r = u) (t_audit_records d)"

text \<open>
  The INSERT of an audit record: its foreign keys must exist, and its decision
  and its primary key must be new.
\<close>

definition insert_audit_record :: "audit_record \<Rightarrow> db \<Rightarrow> db result" where
  "insert_audit_record r d =
     (if au_id r \<in> au_id ` set (t_audit_records d)
      then Raise (IntegrityError ''duplicate key value violates unique constraint audit_records_pkey'')
      else if find_audit d (au_decision_id r) \<noteq> None
      then Raise (IntegrityError ''duplicate key value violates unique constraint uq_audit_records_decision_id'')
      else if find_decision d (au_decision_id r) = None \<or> find_application d (au_application_id r) = None
        \<or> find_guideline d (au_guideline_version_id r) = None
      then Raise (IntegrityError ''insert or update on table audit_records violates foreign key constraint'')
      else Ok (d\<lparr>t_audit_records := t_audit_records d @ [r]\<rparr>))"

text \<open>What the schema keeps of the audit ledger.\<close>

definition audit_ledger_ok :: "db \<Rightarrow> bool" where
  "audit_ledger_ok d \<longleftrightarrow>
     distinct (map au_id (t_audit_records d)) \<and> distinct (map au_decision_id (t_audit_records d)) \<and>
     (\<forall>r\<in>set (t_audit_records d). find_decision d (au_decision_id r) \<noteq> None \<and>
        find_application d (au_application_id r) \<noteq> None \<and>
        find_guideline d (au_guideline_version_id r) \<noteq> None)"

section \<open>The world\<close>

text \<open>
  A fault makes every use of its service raise: any statement or commit of a
  database, any call of the object store, any message to the broker.
\<close>

record world =
  w_proc :: proc
  w_prod :: db
  w_demo :: db
  w_minio :: "(string \<times> string) \<Rightarrow> bytes option"
  w_sent :: "(string \<times> string \<times> pyval) list"
  w_db_fault :: "exn option"
  w_minio_fault :: "exn option"
  w_broker_fault :: "exn option"

definition select_db :: "bool \<Rightarrow> world \<Rightarrow> db" where
  "select_db is_demo w = (if is_demo then w_demo w else w_prod w)"

definition store_db :: "bool \<Rightarrow> db \<Rightarrow> world \<Rightarrow> world" where
  "store_db is_demo d w = (if is_demo then w\<lparr>w_demo := d\<rparr> else w\<lparr>w_prod := d\<rparr>)"

text \<open>\<open>get_engine_for_context\<close>: the engine of a database needs its DSN in the environment.\<close>

definition get_engine_for_context :: "bool \<Rightarrow> (world, unit) step" where
  "get_engine_for_context is_demo w =
     (let var = (if is_demo then ''DEMO_POSTGRES_DSN'' else ''POSTGRES_DSN'') in
      if get_or var (os_environ (w_proc w)) [] = []
      then (Raise (RuntimeError (var @ '' environment variable is not set.'')), w)
      else (Ok (), w))"

text \<open>
  \<open>get_session_context(is_demo)\<close> around one transaction: the body computes the
  new database and its result; it is stored by the commit, and nothing is when
  the body raises.
\<close>

definition in_session :: "bool \<Rightarrow> (db \<Rightarrow> ('a \<times> db) result) \<Rightarrow> (world, 'a) step" where
  "in_session is_demo body w =
     (case get_engine_for_context is_demo w of
        (Inl e, _) \<Rightarrow> (Raise e, w)
      | (Inr _, _) \<Rightarrow>
          (case w_db_fault w of
             Some e \<Rightarrow> (Raise e, w)
           | None \<Rightarrow>
               (case body (select_db is_demo w) of
                  Inl e \<Rightarrow> (Raise e, w)
                | Inr (v, d) \<Rightarrow> (Ok v, store_db is_demo d w))))"

definition query :: "bool \<Rightarrow> (db \<Rightarrow> 'a result) \<Rightarrow> (world, 'a) step" where
  "query is_demo body = in_session is_demo (\<lambda>d. rbind (body d) (\<lambda>v. Ok (v, d)))"

definition in_proc :: "(proc, 'a) step \<Rightarrow> (world, 'a) step" where
  "in_proc m w = (case m (w_proc w) of (r, p) \<Rightarrow> (r, w\<lparr>w_proc := p\<rparr>))"

definition db_ready :: "bool \<Rightarrow> world \<Rightarrow> bool" where
  "db_ready is_demo w \<longleftrightarrow> w_db_fault w = None \<and>
     get_or (if is_demo then ''DEMO_POSTGRES_DSN'' else ''POSTGRES_DSN'') (os_environ (w_proc w)) [] \<noteq> []"

section \<open>Facts\<close>

lemma in_session_ready:
  "db_ready is_demo w \<Longrightarrow> in_session is_demo body w =
     (case body (select_db is_demo w) of
        Inl e \<Rightarrow> (Raise e, w) | Inr (v, d) \<Rightarrow> (Ok v, store_db is_demo d w))"
  by (simp add: in_session_def get_engine_for_context_def db_ready_def Let_def)

lemma in_session_not_ready:
  "\<not> db_ready is_demo w \<Longrightarrow> \<exists>e. in_session is_demo body w = (Raise e, w)"
  by (auto simp: in_session_def get_engine_for_context_def db_ready_def Let_def split: option.splits)

lemma store_select [simp]: "store_db b (select_db b w) w = w"
  by (simp add: store_db_def select_db_def)

lemma select_store [simp]: "select_db b (store_db b d w) = d"
  by (simp add: store_db_def select_db_def)

lemma query_ready: "db_ready is_demo w \<Longrightarrow> query is_demo body w = (body (select_db is_demo w), w)"
  by (cases "body (select_db is_demo w)") (simp_all add: query_def in_session_ready)

lemma query_frame [simp]: "snd (query is_demo body w) = w"
proof (cases "db_ready is_demo w")
  case True
  then show ?thesis by (simp add: query_ready)
next
  case False
  then obtain e where "in_session is_demo (\<lambda>d. rbind (body d) (\<lambda>v. Ok (v, d))) w = (Raise e, w)"
    using in_session_not_ready by blast
  then show ?thesis by (simp add: query_def)
qed

lemma in_proc_run: "in_proc m w = (fst (m (w_proc w)), w\<lparr>w_proc := snd (m (w_proc w))\<rparr>)"
  by (simp add: in_proc_def split: prod.splits)

lemma query_not_ready: "\<not> db_ready b w \<Longrightarrow> \<exists>e. query b f w = (Raise e, w)"
  unfolding query_def using in_session_not_ready by blast

lemma store_db_simps [frame_simps]:
  "w_proc (store_db b d w) = w_proc w" "w_minio (store_db b d w) = w_minio w"
  "w_sent (store_db b d w) = w_sent w" "w_db_fault (store_db b d w) = w_db_fault w"
  "w_minio_fault (store_db b d w) = w_minio_fault w" "w_broker_fault (store_db b d w) = w_broker_fault w"
  "w_demo (store_db False d w) = w_demo w" "w_prod (store_db False d w) = d"
  "w_demo (store_db True d w) = d" "w_prod (store_db True d w) = w_prod w"
  by (simp_all add: store_db_def)

lemma find_snoc:
  "find P (xs @ [x]) = (case find P xs of None \<Rightarrow> if P x then Some x else None | Some y \<Rightarrow> Some y)"
  by (induction xs) auto

lemma insert_audit_record_ok:
  assumes "audit_ledger_ok d" and "insert_audit_record r d = Ok d'"
  shows "audit_ledger_ok d'" and "find_audit d' (au_decision_id r) = Some r"
    and "t_audit_records d' = t_audit_records d @ [r]"
proof -
  have d': "d' = d\<lparr>t_audit_records := t_audit_records d @ [r]\<rparr>"
    and new: "au_id r \<notin> au_id ` set (t_audit_records d)" "find_audit d (au_decision_id r) = None"
    and fk: "find_decision d (au_decision_id r) \<noteq> None" "find_application d (au_application_id r) \<noteq> None"
      "find_guideline d (au_guideline_version_id r) \<noteq> None"
    using assms(2) by (auto simp: insert_audit_record_def split: if_splits)
  have fresh: "au_decision_id r \<notin> au_decision_id ` set (t_audit_records d)"
    using new(2) by (auto simp: find_audit_def find_None_iff)
  show "t_audit_records d' = t_audit_records d @ [r]" by (simp add: d')
  show "audit_ledger_ok d'"
    using assms(1) new(1) fresh fk
    by (auto simp: audit_ledger_ok_def d' find_decision_def find_application_def find_guideline_def)
  show "find_audit d' (au_decision_id r) = Some r"
    using new(2) by (simp add: find_audit_def d' find_snoc)
qed

section \<open>Sample rows\<close>

definition sample_application :: "uuid \<Rightarrow> application" where
  "sample_application u =
     \<lparr>ap_id = u, ap_is_demo = False, ap_created_at = 0, ap_updated_at = 0, ap_applicant_id = 9,
      ap_applicant_name = ''A'', ap_pan_hmac = ''aa'', ap_pan_format_valid = True,
      ap_loan_amount_requested = ''1.0'', ap_loan_tenure_months = 12, ap_loan_purpose = ''HOME'',
      ap_declared_income = ''1.0'', ap_declared_obligations = ''0.0'', ap_collateral_value = Some ''5.0'',
      ap_city_tier = None, ap_remote_onboarding = False, ap_applicant_risk_category = ''LOW'',
      ap_guideline_version_id = None, ap_payload_encrypted = Some [1], ap_dpdp_consent_given = True,
      ap_dpdp_consent_version = ''v1'', ap_dpdp_consent_at = 0, ap_data_retention_expires_at = 10,
      ap_retention_wiped = False, ap_retention_wiped_at = None, ap_submitted_at = 0,
      ap_source_ip_hash = None, ap_api_key_id = None\<rparr>"

definition sample_decision :: "uuid \<Rightarrow> uuid \<Rightarrow> uuid \<Rightarrow> decision" where
  "sample_decision u a g =
     \<lparr>de_id = u, de_is_demo = False, de_created_at = 0, de_updated_at = 0, de_application_id = a,
      de_guideline_version_id = g, de_previous_decision_id = None, de_run_number = 1,
      de_is_retro_eval = False, de_outcome = APPROVE, de_confidence = ''0.9'', de_composite_score = ''0.9'',
      de_agent_outputs = PDict [(''document'', PInt 1)], de_outcome_signals = PDict [],
      de_rationale_chain = PList [], de_pipeline_duration_ms = None\<rparr>"

definition sample_guideline :: "uuid \<Rightarrow> guideline_version" where
  "sample_guideline u =
     \<lparr>gv_id = u, gv_is_demo = False, gv_created_at = 0, gv_updated_at = 0, gv_source_url = ''u'',
      gv_circular_reference = ''c'', gv_title = None, gv_effective_date = None, gv_sunset_date = None,
      gv_scraped_at = 0, gv_content_hash = ''00'', gv_diff_summary = None,
      gv_affected_agent_tags = [''temporal''], gv_parameters = PDict [], gv_is_active = True,
      gv_promoted_by = None, gv_promoted_at = None, gv_raw_content_s3_key = None\<rparr>"

definition empty_db :: db where
  "empty_db = \<lparr>t_applications = [], t_decisions = [], t_audit_records = [], t_guideline_versions = [],
     t_consent_versions = [], t_retention_events = [], t_notification_outbox = []\<rparr>"

definition sample_world :: "proc \<Rightarrow> db \<Rightarrow> world" where
  "sample_world p d = \<lparr>w_proc = p\<lparr>os_environ := (''POSTGRES_DSN'', ''dsn'') # os_environ p\<rparr>, w_prod = d,
     w_demo = empty_db, w_minio = (\<lambda>_. None), w_sent = [], w_db_fault = None, w_minio_fault = None,
     w_broker_fault = None\<rparr>"

lemma sample_world_ready [simp]: "db_ready False (sample_world p d)"
  by (simp add: db_ready_def sample_world_def get_or_def)

lemma sample_world_simps [simp]:
  "w_prod (sample_world p d) = d" "w_demo (sample_world p d) = empty_db"
  "w_db_fault (sample_world p d) = None" "w_minio_fault (sample_world p d) = None"
  by (simp_all add: sample_world_def)

end
