(* ===== verification/AuditHasher.thy ===== *)
theory AuditHasher
  imports HmacUtils
begin

text \<open>
  \<open>audit/hasher.py\<close>: the audit-domain wrapper around the HMAC utilities. A
  decision id and a guideline version id are texts, as the callers pass them.
\<close>

section \<open>Definitions\<close>

definition compute_agent_outputs_hash :: "pyval \<Rightarrow> string result" where
  "compute_agent_outputs_hash agent_outputs = hash_agent_outputs agent_outputs"

definition serialise_written_at :: "datetime \<Rightarrow> string result" where
  "serialise_written_at written_at =
     (let aware = (if dt_off written_at = None then written_at\<lparr>dt_off := Some 0\<rparr> else written_at)
      in rbind (astimezone_utc aware) (\<lambda>utc. Ok (isoformat utc)))"

definition compute_audit_hmac :: "string \<Rightarrow> string \<Rightarrow> string \<Rightarrow> datetime \<Rightarrow> (proc, string) step" where
  "compute_audit_hmac agent_outputs_hash decision_id guideline_version_id written_at =
     sbind (slift (serialise_written_at written_at)) (\<lambda>written_at_str.
       compute_record_hmac agent_outputs_hash decision_id guideline_version_id written_at_str)"

definition hash_mismatch_reason :: "string \<Rightarrow> string \<Rightarrow> string" where
  "hash_mismatch_reason stored recomputed =
     ''agent_outputs_hash mismatch. Stored: '' @ take 16 stored @ ''... Recomputed: '' @
     take 16 recomputed @ ''... The agent outputs have been tampered with.''"

definition hmac_failed_reason :: string where
  "hmac_failed_reason =
     ''record_hmac verification failed. The audit record metadata (decision_id, guideline_version_id, or '' @
     ''written_at) may have been tampered with, or the wrong signing key is being used.''"

definition verify_audit_record_integrity ::
  "string \<Rightarrow> string \<Rightarrow> pyval \<Rightarrow> string \<Rightarrow> string \<Rightarrow> datetime \<Rightarrow> (proc, bool \<times> string) step" where
  "verify_audit_record_integrity stored_agent_outputs_hash stored_record_hmac agent_outputs
      decision_id guideline_version_id written_at =
     sbind (slift (compute_agent_outputs_hash agent_outputs)) (\<lambda>recomputed_hash.
     sbind (slift (rbind (canonical_json agent_outputs)
         (\<lambda>data. verify_sha256 data stored_agent_outputs_hash))) (\<lambda>hash_ok.
       if \<not> hash_ok then sret (False, hash_mismatch_reason stored_agent_outputs_hash recomputed_hash)
       else sbind (slift (serialise_written_at written_at)) (\<lambda>written_at_str.
         sbind (verify_record_hmac stored_record_hmac recomputed_hash decision_id guideline_version_id
             written_at_str) (\<lambda>hmac_valid.
           if \<not> hmac_valid then sret (False, hmac_failed_reason) else sret (True, []))))) "

definition compute_payload_s3_key :: "string \<Rightarrow> datetime \<Rightarrow> string" where
  "compute_payload_s3_key decision_id written_at =
     ''audit/'' @ strftime_Y written_at @ ''/'' @ strftime_m written_at @ ''/'' @ decision_id @ ''.json.enc''"

section \<open>Facts\<close>

lemma serialise_utc [simp]: "valid_wall t \<Longrightarrow> serialise_written_at (utc_datetime t) = Ok (isoformat (utc_datetime t))"
  by (simp add: serialise_written_at_def utc_datetime_def astimezone_utc_def instant_of_def)

lemma serialise_naive_is_utc:
  "serialise_written_at \<lparr>dt_wall = t, dt_off = None\<rparr> = serialise_written_at (utc_datetime t)"
  by (simp add: serialise_written_at_def utc_datetime_def)

lemma serialise_instant:
  "serialise_written_at d = (if valid_wall (instant_of d) then Ok (isoformat (utc_datetime (instant_of d)))
     else Raise (OtherExn ''OverflowError'' ''date value out of range''))"
  by (auto simp: serialise_written_at_def astimezone_utc_def instant_of_def Let_def split: option.splits)

lemma hash_Ok:
  assumes "compute_agent_outputs_hash v = Ok h"
  obtains t where "truthy v" and "dumps v = Ok t" and "t \<noteq> []" and "h = sha256_hex (utf8 t)"
  using assms
  by (auto simp: compute_agent_outputs_hash_def hash_agent_outputs_def canonical_json_def
      compute_sha256_def rbind_Inr_iff split: if_splits)

lemma hash_shape: "compute_agent_outputs_hash v = Ok h \<Longrightarrow> length h = 64 \<and> lower h = h \<and> is_ascii h"
  by (auto elim: hash_Ok)

text \<open>
  Verification with the payload decides two comparisons, in this order: the
  content hash, then the HMAC under an accepted key.
\<close>

lemma verify_integrity_run:
  assumes "compute_agent_outputs_hash v = Ok h" and "is_ascii (lower stored)" and "is_ascii (lower mac)"
    and "signing_key p \<noteq> None" and "valid_wall (instant_of d)"
  shows "fst (verify_audit_record_integrity stored mac v did gid d p) =
      Ok (if lower stored \<noteq> h then (False, hash_mismatch_reason stored h)
          else if \<not> (\<exists>k. accepts_key p k \<and> lower mac =
              hmac_hex k (build_hmac_message h did gid (isoformat (utc_datetime (instant_of d)))))
          then (False, hmac_failed_reason) else (True, []))"
proof -
  obtain t where t: "dumps v = Ok t" "t \<noteq> []" "h = sha256_hex (utf8 t)" using hash_Ok [OF assms(1)] by blast
  have sha: "rbind (canonical_json v) (\<lambda>data. verify_sha256 data stored) = Ok (lower stored = h)"
    using t assms(2)
    by (auto simp: canonical_json_def verify_sha256_def compute_sha256_def compare_digest_def)
  obtain p' where p': "verify_record_hmac mac h did gid (isoformat (utc_datetime (instant_of d))) p =
      (Ok (\<exists>k. accepts_key p k \<and> lower mac =
         hmac_hex k (build_hmac_message h did gid (isoformat (utc_datetime (instant_of d))))), p')"
    using verify_record_hmac_run [OF assms(3,4)] by blast
  show ?thesis
    using assms(1,5) sha p'
    by (auto simp: verify_audit_record_integrity_def sbind_def slift_def sret_def serialise_instant)
qed

lemma integrity_signed:
  assumes "compute_agent_outputs_hash v = Ok h" and "compute_audit_hmac h did gid d p = (Ok mac, p')"
    and "instant_of d' = instant_of d" and "trusts_signer q p"
  shows "fst (verify_audit_record_integrity h mac v did gid d' q) = Ok (True, [])"
proof -
  have valid: "valid_wall (instant_of d)"
    and mac: "compute_record_hmac h did gid (isoformat (utc_datetime (instant_of d))) p = (Ok mac, p')"
    using assms(2) by (auto simp: compute_audit_hmac_def serialise_instant slift_def sbind_def split: if_splits)
  obtain k where k: "signing_key p = Some k"
    using server_signer.sign_Ok_iff [of "(h, did, gid, isoformat (utc_datetime (instant_of d)))" p] mac
    by (auto simp: sign_fields_def has_key_def)
  then have "mac = hmac_hex k (build_hmac_message h did gid (isoformat (utc_datetime (instant_of d))))"
    using sign_fields_run [OF k] mac by (simp add: sign_fields_def)
  moreover have "accepts_key q k" using assms(4) k by (simp add: trusts_signer_def)
  ultimately show ?thesis
    using verify_integrity_run [OF assms(1), of h mac q d' did gid] hash_shape [OF assms(1)] valid assms(3)
    by (auto simp: accepts_key_def)
qed

lemma hash_plain_sort:
  "compute_agent_outputs_hash (plain (sort_dicts (PDict kvs))) = compute_agent_outputs_hash (PDict kvs)"
proof -
  have "sort_key fst (sort_pairs kvs) = [] \<longleftrightarrow> kvs = []" by (metis length_0_conv length_map length_sort sort_pairs_map)
  then have "truthy (plain (sort_dicts (PDict kvs))) \<longleftrightarrow> truthy (PDict kvs)" by (simp add: plain_pairs_map)
  then show ?thesis
    by (simp add: compute_agent_outputs_hash_def hash_agent_outputs_def canonical_json_def dumps_plain_sort
        del: truthy.simps plain.simps sort_dicts.simps)
qed

section \<open>Properties\<close>

text \<open>
  an audit record that was hashed and signed verifies, as long as the
  process still accepts the signing key, whatever form (naive UTC or with an
  offset) the timestamp has when it comes back for the same instant.
\<close>

theorem signed_record_verifies:
  assumes "compute_agent_outputs_hash v = Ok h" and "compute_audit_hmac h did gid d p = (Ok mac, p')"
    and "instant_of d' = instant_of d" and "trusts_signer q p"
  shows "fst (verify_audit_record_integrity h mac v did gid d' q) = Ok (True, [])"
  using assms by (rule integrity_signed)

definition demo_outputs :: pyval where
  "demo_outputs = PDict [(''document'', PDict [(''score'', PFloat ''0.9'')]), (''sanctions'', PNone)]"

lemma demo_hash: "\<exists>h. compute_agent_outputs_hash demo_outputs = Ok h"
proof -
  have "is_ok (dumps demo_outputs)" by code_simp
  moreover have "dumps demo_outputs \<noteq> Ok []" by code_simp
  ultimately show ?thesis
    by (auto simp: compute_agent_outputs_hash_def hash_agent_outputs_def canonical_json_def
        compute_sha256_def is_ok_iff demo_outputs_def)
qed

lemma demo_mac: "\<exists>mac p'. compute_audit_hmac h ''d'' ''g'' (utc_datetime 5) demo_proc = (Ok mac, p')"
  using sign_fields_run [of demo_proc "replicate 32 7"]
  by (simp add: compute_audit_hmac_def slift_def sbind_def sign_fields_def valid_wall_def max_wall_def)

theorem signed_record_verifies_witness:
  "\<exists>h mac. fst (verify_audit_record_integrity h mac demo_outputs ''d'' ''g''
      \<lparr>dt_wall = 5, dt_off = None\<rparr> demo_proc) = Ok (True, [])"
proof -
  obtain h where h: "compute_agent_outputs_hash demo_outputs = Ok h" using demo_hash by blast
  obtain mac p' where mac: "compute_audit_hmac h ''d'' ''g'' (utc_datetime 5) demo_proc = (Ok mac, p')"
    using demo_mac by blast
  have "trusts_signer demo_proc demo_proc" by (simp add: trusts_signer_def accepts_key_def)
  moreover have "instant_of \<lparr>dt_wall = 5, dt_off = None\<rparr> = instant_of (utc_datetime 5)"
    by (simp add: instant_of_def utc_datetime_def)
  ultimately show ?thesis using signed_record_verifies [OF h mac] by blast
qed

text \<open>
  C3: tampering is found. Whatever the stored texts are, verification with the
  payload answers True only when the stored hash is, up to letter case, the hash
  of the payload and the stored HMAC is that of hash, decision, guideline
  version and instant under a key the process accepts; the reason it gives
  otherwise says which comparison failed first.
\<close>

theorem verification_decides:
  assumes "compute_agent_outputs_hash v = Ok h" and "is_ascii (lower stored)" and "is_ascii (lower mac)"
    and "signing_key p \<noteq> None" and "valid_wall (instant_of d)"
  shows "(fst (verify_audit_record_integrity stored mac v did gid d p) = Ok (True, []) \<longleftrightarrow>
      lower stored = h \<and> (\<exists>k. accepts_key p k \<and> lower mac =
        hmac_hex k (build_hmac_message h did gid (isoformat (utc_datetime (instant_of d)))))) \<and>
    (lower stored \<noteq> h \<longrightarrow> fst (verify_audit_record_integrity stored mac v did gid d p) =
        Ok (False, hash_mismatch_reason stored h))"
  using verify_integrity_run [OF assms] by (auto simp: hash_mismatch_reason_def hmac_failed_reason_def)

theorem verification_decides_witness:
  "\<exists>h. compute_agent_outputs_hash demo_outputs = Ok h \<and>
     fst (verify_audit_record_integrity ''00'' ''00'' demo_outputs ''d'' ''g'' (utc_datetime 5) demo_proc)
     = Ok (False, hash_mismatch_reason ''00'' h)"
proof -
  obtain h where h: "compute_agent_outputs_hash demo_outputs = Ok h" using demo_hash by blast
  have a: "is_ascii (lower ''00'')" by code_simp
  have "lower ''00'' \<noteq> h" using hash_shape [OF h] by (auto simp: lower_def)
  moreover have "signing_key demo_proc \<noteq> None" "valid_wall (instant_of (utc_datetime 5))"
    by (simp_all add: valid_wall_def max_wall_def instant_of_def utc_datetime_def)
  ultimately show ?thesis using verification_decides [OF h a a] h by blast
qed

text \<open>
  the signed text of a timestamp drops its microseconds when they are zero.
  The documented form always has six digits after the seconds; noon of
  1 June 2026 is signed without them.
\<close>

theorem whole_second_drops_microseconds:
  "serialise_written_at (utc_datetime 63915912000000000) = Ok ''2026-06-01T12:00:00+00:00''"
proof -
  have yd: "year_day 739767 = (2026, 151)" by (simp add: year_day_def)
  have "month_lengths (is_leap 2026) = [31, 28, 31, 30, 31, 30, 31, 31, 30, 31, 30, 31]"
    by (simp add: month_lengths_def is_leap_def)
  then have ymd: "dt_ymd (utc_datetime 63915912000000000) = (2026, 6, 1)"
    by (simp add: dt_ymd_def utc_datetime_def ymd_of_days_def yd)
  have pads: "pad_nat 4 2026 = ''2026''" "pad_nat 2 6 = ''06''" "pad_nat 2 (Suc 0) = ''01''"
    "pad_nat 2 12 = ''12''" "pad_nat 2 0 = ''00''"
    by (simp_all add: pad_nat_def hexdig_def run_simps)
  have "iso_time 43200000000 = ''12:00:00''" by (simp add: iso_time_def iso_usec_def pads)
  moreover have "iso_offset (Some 0) = ''+00:00''" by (simp add: iso_offset_def pads)
  ultimately have "isoformat (utc_datetime 63915912000000000) = ''2026-06-01T12:00:00+00:00''"
    unfolding isoformat_def ymd by (simp add: utc_datetime_def iso_date_def pads)
  then show ?thesis by (simp add: valid_wall_def max_wall_def)
qed

end
