(* ===== verification/AuditWriter.thy ===== *)
theory AuditWriter
  imports Models AuditHasher
begin

text \<open>
  \<open>audit/writer.py\<close>: the audit node of the pipeline. The pipeline state is a
  dict with text keys; the clock reading and the fresh record id of a run are
  arguments. Metrics and log lines are not modelled.
\<close>

section \<open>Python conversions\<close>

text \<open>
  \<open>str(v)\<close>. The text of a container is not modelled; it stands as a text that,
  like every container's, is not a UUID.
\<close>

fun py_str :: "pyval \<Rightarrow> string" where
  "py_str PNone = ''None''"
| "py_str (PBool b) = (if b then ''True'' else ''False'')"
| "py_str (PInt i) = int_str i"
| "py_str (PFloat t) = t"
| "py_str (PStr s) = s"
| "py_str (PDatetime d) = isoformat d"
| "py_str (PUuid u) = uuid_str u"
| "py_str (POther cls t) = t"
| "py_str v = ''<object>''"

text \<open>\<open>float(v)\<close>, on the texts that are JSON numbers.\<close>

fun to_float :: "pyval \<Rightarrow> pyval result" where
  "to_float (PFloat t) = Ok (PFloat t)"
| "to_float (PInt i) = Ok (PFloat (int_str i @ ''.0''))"
| "to_float (PBool b) = Ok (PFloat (if b then ''1.0'' else ''0.0''))"
| "to_float (PStr s) = (case parse_number (strip s) of
     Some (PFloat t, []) \<Rightarrow> Ok (PFloat t)
   | Some (PInt i, []) \<Rightarrow> Ok (PFloat (int_str i @ ''.0''))
   | _ \<Rightarrow> Raise (ValueError ''could not convert string to float''))"
| "to_float v = Raise (TypeError ''float() argument must be a string or a real number'')"

fun asdict :: "pyval \<Rightarrow> pyval"
  and asdict_list :: "pyval list \<Rightarrow> pyval list"
  and asdict_pairs :: "(string \<times> pyval) list \<Rightarrow> (string \<times> pyval) list" where
  "asdict (PData cls fs) = PDict (asdict_pairs fs)"
| "asdict (PList vs) = PList (asdict_list vs)"
| "asdict (PDict kvs) = PDict (asdict_pairs kvs)"
| "asdict v = v"
| "asdict_list [] = []"
| "asdict_list (v # vs) = asdict v # asdict_list vs"
| "asdict_pairs [] = []"
| "asdict_pairs ((k, v) # kvs) = (k, asdict v) # asdict_pairs kvs"

type_synonym pipeline_state = "(string \<times> pyval) list"

definition state_get :: "string \<Rightarrow> pyval \<Rightarrow> pipeline_state \<Rightarrow> pyval" where
  "state_get k dflt st = (case dict_get k st of None \<Rightarrow> dflt | Some v \<Rightarrow> v)"

definition state_text :: "string \<Rightarrow> pipeline_state \<Rightarrow> string result" where
  "state_text k st = (case dict_get k st of None \<Rightarrow> Raise (KeyError k) | Some v \<Rightarrow> Ok (py_str v))"

section \<open>The agents' results\<close>

definition serialise_agent_result :: "pyval \<Rightarrow> pyval" where
  "serialise_agent_result result = (case result of
     PNone \<Rightarrow> PNone
   | PDict kvs \<Rightarrow> PDict kvs
   | PData cls fs \<Rightarrow> asdict (PData cls fs)
   | PObj cls fs \<Rightarrow> PDict fs
   | PEnum v \<Rightarrow> PDict [(''_value_'', v), (''__objclass__'', POther ''EnumType'' [])]
   | v \<Rightarrow> PDict [(''raw'', PStr (py_str v))])"

definition extract_agent_outputs :: "pipeline_state \<Rightarrow> pyval" where
  "extract_agent_outputs st = PDict
     [(''document'', serialise_agent_result (state_get ''document_result'' PNone st)),
      (''sanctions'', serialise_agent_result (state_get ''sanctions_result'' PNone st)),
      (''temporal'', serialise_agent_result (state_get ''temporal_result'' PNone st)),
      (''transaction'', serialise_agent_result (state_get ''transaction_result'' PNone st)),
      (''rag'', serialise_agent_result (state_get ''rag_context'' PNone st))]"

definition all_agent_tags :: "string list" where
  "all_agent_tags = [''document'', ''sanctions'', ''temporal'', ''transaction'', ''rag'']"

definition get_affected_agent_tags :: "string \<Rightarrow> bool \<Rightarrow> (world, string list) step" where
  "get_affected_agent_tags guideline_version_id is_demo w =
     (case query is_demo (\<lambda>d. rbind (parse_uuid guideline_version_id) (\<lambda>u. Ok (find_guideline d u))) w of
        (Inr (Some g), w') \<Rightarrow>
          (Ok (if gv_affected_agent_tags g \<noteq> [] then gv_affected_agent_tags g else all_agent_tags), w')
      | (_, w') \<Rightarrow> (Ok all_agent_tags, w'))"

section \<open>Scheduling the upload\<close>

definition upload_task_name :: string where
  "upload_task_name = ''audit.s3_uploader.upload_audit_payload_task''"

definition schedule_minio_upload :: "(string \<times> pyval) list \<Rightarrow> (world, unit) step" where
  "schedule_minio_upload kwargs w =
     (case w_broker_fault w of
        Some _ \<Rightarrow> (Ok (), w)
      | None \<Rightarrow> (Ok (), w\<lparr>w_sent := w_sent w @ [(upload_task_name, ''calibration'', PDict kwargs)]\<rparr>))"

section \<open>The write\<close>

definition new_audit_record ::
  "uuid \<Rightarrow> uuid \<Rightarrow> uuid \<Rightarrow> uuid \<Rightarrow> string list \<Rightarrow> string \<Rightarrow> string \<Rightarrow> string \<Rightarrow> int \<Rightarrow> bool \<Rightarrow> audit_record" where
  "new_audit_record rid did aid gid tags h mac s3_key now is_demo =
     \<lparr>au_id = rid, au_is_demo = is_demo, au_decision_id = did, au_application_id = aid,
      au_guideline_version_id = gid, au_affected_agent_tags = tags, au_agent_outputs_hash = h,
      au_record_hmac = mac, au_payload_s3_key = Some s3_key, au_payload_s3_uploaded = False,
      au_written_at = now, au_breach_flag = False, au_breach_flagged_at = None\<rparr>"

text \<open>Steps 1 to 4 of \<open>_write_audit_record\<close>: everything that is computed before the INSERT.\<close>

record prepared =
  pr_decision_id :: string
  pr_application_id :: string
  pr_guideline_version_id :: string
  pr_agent_outputs :: pyval
  pr_is_demo :: bool
  pr_hash :: string
  pr_hmac :: string
  pr_s3_key :: string
  pr_tags :: "string list"

definition prepare_audit_record :: "int \<Rightarrow> pipeline_state \<Rightarrow> (world, prepared) step" where
  "prepare_audit_record now st =
     sbind (slift (state_text ''decision_id'' st)) (\<lambda>decision_id.
     sbind (slift (state_text ''application_id'' st)) (\<lambda>application_id.
     sbind (slift (state_text ''guideline_version_id'' st)) (\<lambda>guideline_version_id.
     let agent_outputs = extract_agent_outputs st;
         is_demo = truthy (state_get ''is_demo'' (PBool False) st);
         written_at = utc_datetime now
     in
     sbind (slift (compute_agent_outputs_hash agent_outputs)) (\<lambda>agent_outputs_hash.
     sbind (in_proc (compute_audit_hmac agent_outputs_hash decision_id guideline_version_id written_at))
       (\<lambda>record_hmac.
     sbind (get_affected_agent_tags guideline_version_id is_demo) (\<lambda>affected_agent_tags.
     sret \<lparr>pr_decision_id = decision_id, pr_application_id = application_id,
       pr_guideline_version_id = guideline_version_id, pr_agent_outputs = agent_outputs,
       pr_is_demo = is_demo, pr_hash = agent_outputs_hash, pr_hmac = record_hmac,
       pr_s3_key = compute_payload_s3_key decision_id written_at, pr_tags = affected_agent_tags\<rparr>))))))"

text \<open>Step 5, the INSERT and its commit, always on the production database.\<close>

definition commit_audit_record :: "int \<Rightarrow> uuid \<Rightarrow> prepared \<Rightarrow> (world, unit) step" where
  "commit_audit_record now audit_record_id pr =
     in_session False (\<lambda>d.
       rbind (parse_uuid (pr_decision_id pr)) (\<lambda>did.
       rbind (parse_uuid (pr_application_id pr)) (\<lambda>aid.
       rbind (parse_uuid (pr_guideline_version_id pr)) (\<lambda>gid.
       rbind (insert_audit_record
         (new_audit_record audit_record_id did aid gid (pr_tags pr) (pr_hash pr) (pr_hmac pr)
            (pr_s3_key pr) now (pr_is_demo pr)) d) (\<lambda>d'. Ok ((), d'))))))"

definition upload_kwargs :: "int \<Rightarrow> prepared \<Rightarrow> pyval \<Rightarrow> pyval \<Rightarrow> pyval \<Rightarrow> (string \<times> pyval) list" where
  "upload_kwargs now pr outcome confidence rationale_chain =
     [(''decision_id'', PStr (pr_decision_id pr)), (''application_id'', PStr (pr_application_id pr)),
      (''guideline_version_id'', PStr (pr_guideline_version_id pr)),
      (''written_at'', PStr (isoformat (utc_datetime now))), (''agent_outputs'', pr_agent_outputs pr),
      (''outcome'', outcome), (''confidence'', confidence), (''rationale_chain'', rationale_chain),
      (''s3_key'', PStr (pr_s3_key pr))]"

text \<open>Step 6: \<open>float(confidence)\<close> is evaluated after the commit.\<close>

definition write_audit_record :: "int \<Rightarrow> uuid \<Rightarrow> pipeline_state \<Rightarrow> (world, uuid) step" where
  "write_audit_record now audit_record_id st =
     sbind (prepare_audit_record now st) (\<lambda>pr.
     sbind (commit_audit_record now audit_record_id pr) (\<lambda>_.
     sbind (slift (to_float (state_get ''confidence'' (PFloat ''0.0'') st))) (\<lambda>confidence.
     sbind (schedule_minio_upload (upload_kwargs now pr (state_get ''decision'' (PStr []) st) confidence
         (state_get ''rationale_chain'' (PList []) st))) (\<lambda>_.
     sret audit_record_id))))"

definition write_failed :: "exn \<Rightarrow> exn" where
  "write_failed e = RuntimeError (''Audit record write failed: '' @ exn_text e @
     ''. The compliance decision cannot be returned without a persisted audit record.'')"

definition write_node :: "int \<Rightarrow> uuid \<Rightarrow> pipeline_state \<Rightarrow> (world, pipeline_state) step" where
  "write_node now audit_record_id st w =
     (case write_audit_record now audit_record_id st w of
        (Inr audit_id, w') \<Rightarrow> (Ok (dict_set ''audit_id'' (PStr (uuid_str audit_id)) st), w')
      | (Inl e, w') \<Rightarrow> (Raise (write_failed e), w'))"

section \<open>How a run goes\<close>

lemma dict_get_set [simp]: "dict_get k (dict_set k' v d) = (if k' = k then Some v else dict_get k d)"
  by (induction k' v d rule: dict_set.induct) (auto simp: dict_get_def)

definition tags_of :: "string \<Rightarrow> bool \<Rightarrow> world \<Rightarrow> string list" where
  "tags_of g b w = (case fst (get_affected_agent_tags g b w) of Inr t \<Rightarrow> t | Inl _ \<Rightarrow> [])"

lemma tags_run: "get_affected_agent_tags g b w = (Ok (tags_of g b w), w)"
proof -
  obtain r where "query b (\<lambda>d. rbind (parse_uuid g) (\<lambda>u. Ok (find_guideline d u))) w = (r, w)"
    by (metis prod.collapse query_frame)
  then show ?thesis
    by (auto simp: tags_of_def get_affected_agent_tags_def split: sum.splits option.splits)
qed

text \<open>
  Everything before the commit changes the process only; the commit appends
  one record to the production ledger; everything after it changes only what
  was sent.
\<close>

text \<open>What the prepared fields are, for a state, a clock reading and the process that signs.\<close>

definition prepared_from :: "int \<Rightarrow> pipeline_state \<Rightarrow> world \<Rightarrow> proc \<Rightarrow> prepared \<Rightarrow> bool" where
  "prepared_from now st w p pr \<longleftrightarrow>
     state_text ''decision_id'' st = Ok (pr_decision_id pr) \<and>
     state_text ''application_id'' st = Ok (pr_application_id pr) \<and>
     state_text ''guideline_version_id'' st = Ok (pr_guideline_version_id pr) \<and>
     pr_agent_outputs pr = extract_agent_outputs st \<and>
     pr_is_demo pr = truthy (state_get ''is_demo'' (PBool False) st) \<and>
     compute_agent_outputs_hash (extract_agent_outputs st) = Ok (pr_hash pr) \<and>
     compute_audit_hmac (pr_hash pr) (pr_decision_id pr) (pr_guideline_version_id pr) (utc_datetime now)
       (w_proc w) = (Ok (pr_hmac pr), p) \<and>
     pr_s3_key pr = compute_payload_s3_key (pr_decision_id pr) (utc_datetime now) \<and>
     pr_tags pr = tags_of (pr_guideline_version_id pr) (pr_is_demo pr) (w\<lparr>w_proc := p\<rparr>)"

lemma prepare_cases:
  obtains (stop) e p where "prepare_audit_record now st w = (Raise e, w\<lparr>w_proc := p\<rparr>)"
  | (go) pr p where "prepare_audit_record now st w = (Ok pr, w\<lparr>w_proc := p\<rparr>)" "prepared_from now st w p pr"
proof -
  note run = prepare_audit_record_def sbind_run slift_def sret_def Let_def in_proc_def tags_run
  have stop': "prepare_audit_record now st w = (Raise e, w) \<Longrightarrow> thesis" for e
    using stop [of e "w_proc w"] by simp
  consider (early) e where "prepare_audit_record now st w = (Raise e, w)"
    | (hashed) did aid gid h where "state_text ''decision_id'' st = Ok did"
        "state_text ''application_id'' st = Ok aid" "state_text ''guideline_version_id'' st = Ok gid"
        "compute_agent_outputs_hash (extract_agent_outputs st) = Ok h"
    by (cases "state_text ''decision_id'' st"; cases "state_text ''application_id'' st";
        cases "state_text ''guideline_version_id'' st";
        cases "compute_agent_outputs_hash (extract_agent_outputs st)") (simp_all add: run)
  then show ?thesis
  proof cases
    case hashed
    obtain r p where mac: "compute_audit_hmac h did gid (utc_datetime now) (w_proc w) = (r, p)"
      by (cases "compute_audit_hmac h did gid (utc_datetime now) (w_proc w)")
    show ?thesis
    proof (cases r)
      case (Inl e)
      then show ?thesis using hashed mac by (intro stop) (simp add: run)
    next
      case (Inr t)
      let ?demo = "truthy (state_get ''is_demo'' (PBool False) st)"
      let ?pr = "\<lparr>pr_decision_id = did, pr_application_id = aid, pr_guideline_version_id = gid,
        pr_agent_outputs = extract_agent_outputs st, pr_is_demo = ?demo, pr_hash = h, pr_hmac = t,
        pr_s3_key = compute_payload_s3_key did (utc_datetime now),
        pr_tags = tags_of gid ?demo (w\<lparr>w_proc := p\<rparr>)\<rparr>"
      show ?thesis
        by (rule go [of ?pr p]) (use hashed mac Inr in \<open>simp_all add: run prepared_from_def\<close>)
    qed
  qed (rule stop')
qed

lemma commit_cases:
  obtains (stop) e where "commit_audit_record now rid pr w = (Raise e, w)"
  | (go) did aid gid d' where "parse_uuid (pr_decision_id pr) = Ok did"
      "parse_uuid (pr_application_id pr) = Ok aid" "parse_uuid (pr_guideline_version_id pr) = Ok gid"
      "insert_audit_record (new_audit_record rid did aid gid (pr_tags pr) (pr_hash pr) (pr_hmac pr)
          (pr_s3_key pr) now (pr_is_demo pr)) (w_prod w) = Ok d'"
      "db_ready False w" "commit_audit_record now rid pr w = (Ok (), w\<lparr>w_prod := d'\<rparr>)"
proof (cases "db_ready False w")
  case False
  then obtain e where "commit_audit_record now rid pr w = (Raise e, w)"
    unfolding commit_audit_record_def using in_session_not_ready by blast
  then show ?thesis by (rule stop)
next
  case True
  let ?mk = "\<lambda>did aid gid. new_audit_record rid did aid gid (pr_tags pr) (pr_hash pr) (pr_hmac pr)
      (pr_s3_key pr) now (pr_is_demo pr)"
  let ?body = "rbind (parse_uuid (pr_decision_id pr)) (\<lambda>did. rbind (parse_uuid (pr_application_id pr)) (\<lambda>aid.
      rbind (parse_uuid (pr_guideline_version_id pr)) (\<lambda>gid.
      rbind (insert_audit_record (?mk did aid gid) (w_prod w)) (\<lambda>d'. Ok ((), d')))))"
  have run: "commit_audit_record now rid pr w =
      (case ?body of Inl e \<Rightarrow> (Raise e, w) | Inr (v, d) \<Rightarrow> (Ok v, store_db False d w))"
    unfolding commit_audit_record_def in_session_ready [OF True] by (simp add: select_db_def)
  show ?thesis
  proof (cases ?body)
    case (Inl e)
    then show ?thesis using run by (intro stop) simp
  next
    case (Inr vd)
    then obtain did aid gid d' where "parse_uuid (pr_decision_id pr) = Ok did"
      "parse_uuid (pr_application_id pr) = Ok aid" "parse_uuid (pr_guideline_version_id pr) = Ok gid"
      "insert_audit_record (?mk did aid gid) (w_prod w) = Ok d'" "vd = ((), d')"
      by (auto simp: rbind_Inr_iff)
    then show ?thesis using run Inr True by (intro go) (auto simp: store_db_def)
  qed
qed

lemma schedule_run:
  "schedule_minio_upload kw w = (Ok (), w\<lparr>w_sent := w_sent w @
     (if w_broker_fault w = None then [(upload_task_name, ''calibration'', PDict kw)] else [])\<rparr>)"
  by (auto simp: schedule_minio_upload_def split: option.splits)

text \<open>The message a run sends: none if the confidence is no number or the broker is down.\<close>

definition upload_messages :: "int \<Rightarrow> prepared \<Rightarrow> pipeline_state \<Rightarrow> world \<Rightarrow> (string \<times> string \<times> pyval) list" where
  "upload_messages now pr st w = (case to_float (state_get ''confidence'' (PFloat ''0.0'') st) of
     Inl _ \<Rightarrow> []
   | Inr conf \<Rightarrow> if w_broker_fault w = None then [(upload_task_name, ''calibration'', PDict (upload_kwargs now pr
       (state_get ''decision'' (PStr []) st) conf (state_get ''rationale_chain'' (PList []) st)))] else [])"

text \<open>
  A run of the writer either changes nothing but the process, or appends one
  record to the production ledger; then only an unusable confidence makes it raise.
\<close>

lemma write_cases:
  obtains (failed) e p where "write_audit_record now rid st w = (Raise e, w\<lparr>w_proc := p\<rparr>)"
  | (committed) pr p did aid gid d' m where "prepared_from now st w p pr"
      "parse_uuid (pr_decision_id pr) = Ok did" "parse_uuid (pr_application_id pr) = Ok aid"
      "parse_uuid (pr_guideline_version_id pr) = Ok gid"
      "insert_audit_record (new_audit_record rid did aid gid (pr_tags pr) (pr_hash pr) (pr_hmac pr)
          (pr_s3_key pr) now (pr_is_demo pr)) (w_prod w) = Ok d'"
      "write_audit_record now rid st w =
         (rbind (to_float (state_get ''confidence'' (PFloat ''0.0'') st)) (\<lambda>_. Ok rid),
          w\<lparr>w_proc := p, w_prod := d', w_sent := w_sent w @ m\<rparr>)" "m = upload_messages now pr st w"
proof (cases rule: prepare_cases [of now st w])
  case (stop e p)
  then show ?thesis by (intro failed) (simp add: write_audit_record_def sbind_run)
next
  case (go pr p)
  show ?thesis
  proof (cases rule: commit_cases [of now rid pr "w\<lparr>w_proc := p\<rparr>"])
    case (stop e)
    then show ?thesis using go by (intro failed) (simp add: write_audit_record_def sbind_run)
  next
    case c: (go did aid gid d')
    show ?thesis
    proof (cases "to_float (state_get ''confidence'' (PFloat ''0.0'') st)")
      case (Inl e)
      then show ?thesis using go c
        by (intro committed [of p pr did aid gid d' "[]"])
          (simp_all add: write_audit_record_def sbind_run slift_def upload_messages_def)
    next
      case (Inr conf)
      then show ?thesis using go c
        by (intro committed [of p pr did aid gid d' "upload_messages now pr st w"])
          (simp_all add: write_audit_record_def sbind_run slift_def sret_def schedule_run upload_messages_def)
    qed
  qed
qed

lemma insert_audit_record_iff:
  "(\<exists>d'. insert_audit_record r d = Ok d') \<longleftrightarrow>
     au_id r \<notin> au_id ` set (t_audit_records d) \<and> find_audit d (au_decision_id r) = None \<and>
     find_decision d (au_decision_id r) \<noteq> None \<and> find_application d (au_application_id r) \<noteq> None \<and>
     find_guideline d (au_guideline_version_id r) \<noteq> None"
  by (auto simp: insert_audit_record_def)

text \<open>When the writer can store the record of a state: ids, key, database and constraints.\<close>

definition write_ready :: "int \<Rightarrow> uuid \<Rightarrow> pipeline_state \<Rightarrow> world \<Rightarrow> bool" where
  "write_ready now rid st w \<longleftrightarrow>
     has_key (w_proc w) \<and> valid_wall now \<and> db_ready False w \<and>
     is_ok (compute_agent_outputs_hash (extract_agent_outputs st)) \<and>
     rid \<notin> au_id ` set (t_audit_records (w_prod w)) \<and>
     (\<exists>did aid gid. rbind (state_text ''decision_id'' st) parse_uuid = Ok did \<and>
        rbind (state_text ''application_id'' st) parse_uuid = Ok aid \<and>
        rbind (state_text ''guideline_version_id'' st) parse_uuid = Ok gid \<and>
        find_audit (w_prod w) did = None \<and> find_decision (w_prod w) did \<noteq> None \<and>
        find_application (w_prod w) aid \<noteq> None \<and> find_guideline (w_prod w) gid \<noteq> None)"

lemma compute_audit_hmac_run:
  assumes "signing_key p = Some k" and "valid_wall now"
  shows "compute_audit_hmac h did gid (utc_datetime now) p =
      (Ok (hmac_hex k (build_hmac_message h did gid (isoformat (utc_datetime now)))), p\<lparr>server_hmac_key := Some k\<rparr>)"
  using sign_fields_run [OF assms(1), of h did gid "isoformat (utc_datetime now)"] assms(2)
  by (simp add: compute_audit_hmac_def sign_fields_def sbind_run slift_def)

lemma write_ready_run:
  assumes "write_ready now rid st w"
  shows "\<exists>r w'. write_audit_record now rid st w =
      (rbind (to_float (state_get ''confidence'' (PFloat ''0.0'') st)) (\<lambda>_. Ok rid), w') \<and>
      w_prod w' = (w_prod w)\<lparr>t_audit_records := t_audit_records (w_prod w) @ [r]\<rparr> \<and> au_id r = rid \<and>
      rbind (state_text ''decision_id'' st) parse_uuid = Ok (au_decision_id r)"
proof -
  obtain k where k: "signing_key (w_proc w) = Some k" using assms by (auto simp: write_ready_def has_key_def)
  have valid: "valid_wall now" and ready: "db_ready False w" using assms by (simp_all add: write_ready_def)
  obtain h where h: "compute_agent_outputs_hash (extract_agent_outputs st) = Ok h"
    using assms by (auto simp: write_ready_def is_ok_iff)
  obtain did aid gid where ids: "rbind (state_text ''decision_id'' st) parse_uuid = Ok did"
      "rbind (state_text ''application_id'' st) parse_uuid = Ok aid"
      "rbind (state_text ''guideline_version_id'' st) parse_uuid = Ok gid"
    and fk: "find_audit (w_prod w) did = None" "find_decision (w_prod w) did \<noteq> None"
      "find_application (w_prod w) aid \<noteq> None" "find_guideline (w_prod w) gid \<noteq> None"
      "rid \<notin> au_id ` set (t_audit_records (w_prod w))"
    using assms by (auto simp: write_ready_def)
  obtain pr p where pr: "prepare_audit_record now st w = (Ok pr, w\<lparr>w_proc := p\<rparr>)" "prepared_from now st w p pr"
  proof (cases rule: prepare_cases [of now st w])
    case (stop e p)
    then show ?thesis
      using ids h compute_audit_hmac_run [OF k valid]
      by (auto simp: prepare_audit_record_def sbind_run slift_def sret_def Let_def in_proc_def tags_run
          rbind_Inr_iff)
  qed (rule that)
  have p: "p = (w_proc w)\<lparr>server_hmac_key := Some k\<rparr>"
    using pr(2) compute_audit_hmac_run [OF k valid] by (auto simp: prepared_from_def)
  let ?r = "new_audit_record rid did aid gid (pr_tags pr) (pr_hash pr) (pr_hmac pr) (pr_s3_key pr) now (pr_is_demo pr)"
  have "parse_uuid (pr_decision_id pr) = Ok did" "parse_uuid (pr_application_id pr) = Ok aid"
    "parse_uuid (pr_guideline_version_id pr) = Ok gid"
    using pr(2) ids by (auto simp: prepared_from_def rbind_Inr_iff)
  moreover obtain d' where d': "insert_audit_record ?r (w_prod w) = Ok d'"
    using fk insert_audit_record_iff [of ?r "w_prod w"] by (auto simp: new_audit_record_def)
  moreover have "db_ready False (w\<lparr>w_proc := p\<rparr>)" using ready by (simp add: db_ready_def p)
  ultimately have c: "commit_audit_record now rid pr (w\<lparr>w_proc := p\<rparr>) = (Ok (), w\<lparr>w_proc := p, w_prod := d'\<rparr>)"
    by (simp add: commit_audit_record_def in_session_ready select_db_def store_db_def)
  have d: "d' = (w_prod w)\<lparr>t_audit_records := t_audit_records (w_prod w) @ [?r]\<rparr>"
    using d' by (auto simp: insert_audit_record_def split: if_splits)
  have "\<exists>w'. write_audit_record now rid st w =
      (rbind (to_float (state_get ''confidence'' (PFloat ''0.0'') st)) (\<lambda>_. Ok rid), w') \<and> w_prod w' = d'"
  proof (cases "to_float (state_get ''confidence'' (PFloat ''0.0'') st)")
    case (Inl e)
    then show ?thesis using pr c by (simp add: write_audit_record_def sbind_run slift_def)
  next
    case (Inr conf)
    then show ?thesis using pr c by (simp add: write_audit_record_def sbind_run slift_def sret_def schedule_run)
  qed
  then show ?thesis using d ids(1) by (auto simp: new_audit_record_def intro!: exI [of _ ?r])
qed

section \<open>Properties\<close>

text \<open>
  C2: the audit record exists before the pipeline returns. When the audit node
  returns a state, that state carries the id of the record it appended to the
  production ledger. The record has the decision, application and guideline
  version of the state, the hash of the agents' outputs, the HMAC over hash,
  decision, version and the instant of writing, and no upload or breach mark. The
  only other effects are the process's key cache and, with the broker up, one
  message that asks for the upload of the payload; nothing else has changed.
\<close>

theorem audit_before_response:
  assumes "write_node now rid st w = (Ok st', w')"
  shows "st' = dict_set ''audit_id'' (PStr (uuid_str rid)) st \<and>
    (\<exists>r did aid gid conf p' pr.
      w' = w\<lparr>w_proc := p', w_prod := (w_prod w)\<lparr>t_audit_records := t_audit_records (w_prod w) @ [r]\<rparr>,
        w_sent := w_sent w @ (if w_broker_fault w = None then [(upload_task_name, ''calibration'',
          PDict (upload_kwargs now pr (state_get ''decision'' (PStr []) st) conf (state_get ''rationale_chain'' (PList []) st)))]
          else [])\<rparr> \<and>
      au_id r = rid \<and> au_written_at r = now \<and> au_is_demo r = truthy (state_get ''is_demo'' (PBool False) st) \<and>
      \<not> au_payload_s3_uploaded r \<and> \<not> au_breach_flag r \<and> au_breach_flagged_at r = None \<and>
      state_text ''decision_id'' st = Ok did \<and> parse_uuid did = Ok (au_decision_id r) \<and>
      state_text ''application_id'' st = Ok aid \<and> parse_uuid aid = Ok (au_application_id r) \<and>
      state_text ''guideline_version_id'' st = Ok gid \<and> parse_uuid gid = Ok (au_guideline_version_id r) \<and>
      compute_agent_outputs_hash (extract_agent_outputs st) = Ok (au_agent_outputs_hash r) \<and>
      compute_audit_hmac (au_agent_outputs_hash r) did gid (utc_datetime now) (w_proc w) = (Ok (au_record_hmac r), p') \<and>
      get_affected_agent_tags gid (au_is_demo r) (w\<lparr>w_proc := p'\<rparr>) = (Ok (au_affected_agent_tags r), w\<lparr>w_proc := p'\<rparr>) \<and>
      au_payload_s3_key r = Some (compute_payload_s3_key did (utc_datetime now)) \<and>
      to_float (state_get ''confidence'' (PFloat ''0.0'') st) = Ok conf \<and>
      pr_decision_id pr = did \<and> pr_application_id pr = aid \<and> pr_guideline_version_id pr = gid \<and>
      pr_agent_outputs pr = extract_agent_outputs st \<and> Some (pr_s3_key pr) = au_payload_s3_key r)"
proof -
  obtain u where ok: "write_audit_record now rid st w = (Ok u, w')"
    and st': "st' = dict_set ''audit_id'' (PStr (uuid_str u)) st"
    using assms by (auto simp: write_node_def split: prod.splits sum.splits)
  show ?thesis
  proof (cases rule: write_cases [of now rid st w])
    case (failed e p)
    then show ?thesis using ok by simp
  next
    case (committed pr p did aid gid d' m)
    let ?r = "new_audit_record rid did aid gid (pr_tags pr) (pr_hash pr) (pr_hmac pr) (pr_s3_key pr) now (pr_is_demo pr)"
    obtain conf where conf: "to_float (state_get ''confidence'' (PFloat ''0.0'') st) = Ok conf" and "u = rid"
      and w': "w' = w\<lparr>w_proc := p, w_prod := d', w_sent := w_sent w @ m\<rparr>"
      using ok committed(6) by (auto simp: rbind_Inr_iff)
    have "d' = (w_prod w)\<lparr>t_audit_records := t_audit_records (w_prod w) @ [?r]\<rparr>"
      using committed(5) by (auto simp: insert_audit_record_def split: if_splits)
    then have eq: "w' = w\<lparr>w_proc := p, w_prod := (w_prod w)\<lparr>t_audit_records := t_audit_records (w_prod w) @ [?r]\<rparr>,
        w_sent := w_sent w @ (if w_broker_fault w = None then [(upload_task_name, ''calibration'',
          PDict (upload_kwargs now pr (state_get ''decision'' (PStr []) st) conf (state_get ''rationale_chain'' (PList []) st)))]
          else [])\<rparr>"
      using w' committed(7) conf by (simp add: upload_messages_def)
    have fields: "prepared_from now st w p pr" "parse_uuid (pr_decision_id pr) = Ok did"
      "parse_uuid (pr_application_id pr) = Ok aid" "parse_uuid (pr_guideline_version_id pr) = Ok gid"
      by (fact committed)+
    show ?thesis
      apply (rule conjI)
       apply (simp add: st' \<open>u = rid\<close>)
      apply (rule exI [of _ ?r], rule exI [of _ "pr_decision_id pr"], rule exI [of _ "pr_application_id pr"],
          rule exI [of _ "pr_guideline_version_id pr"], rule exI [of _ conf], rule exI [of _ p], rule exI [of _ pr])
      using fields conf by (simp only: eq) (simp add: prepared_from_def new_audit_record_def tags_run)
  qed
qed

definition demo_db :: db where
  "demo_db = empty_db\<lparr>t_applications := [sample_application 1], t_decisions := [sample_decision 2 1 3],
     t_guideline_versions := [sample_guideline 3]\<rparr>"

definition demo_world :: world where
  "demo_world = sample_world demo_proc demo_db"

definition demo_state :: "pyval \<Rightarrow> pipeline_state" where
  "demo_state conf = [(''decision_id'', PStr (uuid_str 2)), (''application_id'', PUuid 1),
     (''guideline_version_id'', PUuid 3), (''document_result'', PDict [(''score'', PFloat ''0.9'')]),
     (''decision'', PStr ''APPROVE''), (''confidence'', conf)]"

lemma demo_world_key: "has_key (w_proc demo_world)"
proof -
  have "signing_key (w_proc demo_world) = signing_key demo_proc"
    by (simp add: signing_key_def get_server_hmac_key_def demo_world_def sample_world_def demo_proc_def
        load_hmac_key_def load_key32_def get_or_def)
  then show ?thesis by (simp add: has_key_def)
qed

lemma demo_state_hash: "is_ok (compute_agent_outputs_hash (extract_agent_outputs (demo_state c)))"
proof -
  have e: "extract_agent_outputs (demo_state c) = PDict [(''document'', PDict [(''score'', PFloat ''0.9'')]),
      (''sanctions'', PNone), (''temporal'', PNone), (''transaction'', PNone), (''rag'', PNone)]"
    by (simp add: extract_agent_outputs_def demo_state_def state_get_def dict_get_def serialise_agent_result_def)
  have "is_ok (dumps (extract_agent_outputs (demo_state c)))" unfolding e by code_simp
  moreover have "dumps (extract_agent_outputs (demo_state c)) \<noteq> Ok []" unfolding e by code_simp
  ultimately show ?thesis
    by (auto simp: compute_agent_outputs_hash_def hash_agent_outputs_def canonical_json_def
        compute_sha256_def is_ok_iff extract_agent_outputs_def)
qed

lemma demo_write_ready: "write_ready 5 7 (demo_state c) demo_world"
proof -
  have "rbind (state_text ''decision_id'' (demo_state c)) parse_uuid = Ok 2"
    "rbind (state_text ''application_id'' (demo_state c)) parse_uuid = Ok 1"
    "rbind (state_text ''guideline_version_id'' (demo_state c)) parse_uuid = Ok 3"
    by (simp_all add: demo_state_def state_text_def dict_get_def)
  moreover have "find_audit (w_prod demo_world) 2 = None" "find_decision (w_prod demo_world) 2 \<noteq> None"
    "find_application (w_prod demo_world) 1 \<noteq> None" "find_guideline (w_prod demo_world) 3 \<noteq> None"
    by (simp_all add: demo_world_def demo_db_def find_audit_def find_decision_def find_application_def
        find_guideline_def sample_decision_def sample_application_def sample_guideline_def empty_db_def)
  moreover have "valid_wall 5" "db_ready False demo_world" "(7 :: uuid) \<notin> au_id ` set (t_audit_records (w_prod demo_world))"
    by (simp_all add: valid_wall_def max_wall_def demo_world_def demo_db_def empty_db_def)
  ultimately show ?thesis
    unfolding write_ready_def using demo_world_key demo_state_hash by blast
qed

lemma demo_write: "\<exists>st' w'. write_node 5 7 (demo_state (PFloat ''0.9'')) demo_world = (Ok st', w')"
proof -
  have "to_float (state_get ''confidence'' (PFloat ''0.0'') (demo_state (PFloat ''0.9''))) = Ok (PFloat ''0.9'')"
    by (simp add: demo_state_def state_get_def dict_get_def)
  then show ?thesis
    using write_ready_run [OF demo_write_ready [of "PFloat ''0.9''"]] by (auto simp: write_node_def)
qed

theorem audit_before_response_witness:
  "\<exists>st' w'. write_node 5 7 (demo_state (PFloat ''0.9'')) demo_world = (Ok st', w') \<and>
     dict_get ''audit_id'' st' = Some (PStr (uuid_str 7))"
proof -
  obtain st' w' where run: "write_node 5 7 (demo_state (PFloat ''0.9'')) demo_world = (Ok st', w')" using demo_write by blast
  have "st' = dict_set ''audit_id'' (PStr (uuid_str 7)) (demo_state (PFloat ''0.9''))"
    using audit_before_response [OF run] by (rule conjunct1)
  then show ?thesis using run by simp
qed

text \<open>
  C6: what a failed write leaves. Every failure reaches the pipeline as a
  RuntimeError, nothing is sent, and the demo database and the object store are
  as before. The production database is as before too if the confidence of the
  state is a number; if it is not, the write may have failed after its commit,
  and then it has appended one record of the given id, and changed nothing else.
\<close>

theorem failed_write_leaves_no_trace:
  assumes "write_node now rid st w = (Raise e, w')"
  shows "(\<exists>m. e = RuntimeError m) \<and> w_demo w' = w_demo w \<and> w_minio w' = w_minio w \<and> w_sent w' = w_sent w \<and>
    (if is_ok (to_float (state_get ''confidence'' (PFloat ''0.0'') st)) then w_prod w' = w_prod w
     else w_prod w' = w_prod w \<or>
       (\<exists>r. w_prod w' = (w_prod w)\<lparr>t_audit_records := t_audit_records (w_prod w) @ [r]\<rparr> \<and> au_id r = rid))"
proof -
  obtain e0 where e0: "write_audit_record now rid st w = (Raise e0, w')" "e = write_failed e0"
    using assms by (auto simp: write_node_def split: prod.splits sum.splits)
  show ?thesis
  proof (cases rule: write_cases [of now rid st w])
    case (failed e p)
    then show ?thesis using e0 by (auto simp: write_failed_def)
  next
    case (committed pr p did aid gid d' m)
    let ?r = "new_audit_record rid did aid gid (pr_tags pr) (pr_hash pr) (pr_hmac pr) (pr_s3_key pr) now (pr_is_demo pr)"
    have bad: "\<not> is_ok (to_float (state_get ''confidence'' (PFloat ''0.0'') st))"
      using e0(1) committed(6) by (cases "to_float (state_get ''confidence'' (PFloat ''0.0'') st)") simp_all
    then have "m = []" using committed(7) by (auto simp: upload_messages_def is_ok_iff split: sum.splits)
    moreover have "d' = (w_prod w)\<lparr>t_audit_records := t_audit_records (w_prod w) @ [?r]\<rparr>" "au_id ?r = rid"
      using committed(5) by (auto simp: insert_audit_record_def new_audit_record_def split: if_splits)
    ultimately show ?thesis using committed(6) e0 bad by (auto simp: write_failed_def)
  qed
qed

theorem failed_write_leaves_no_trace_witness:
  "\<exists>e w'. write_node 5 7 [] demo_world = (Raise e, w') \<and> w_prod w' = w_prod demo_world"
proof -
  obtain e w' where run: "write_node 5 7 [] demo_world = (Raise e, w')"
    by (simp add: write_node_def write_audit_record_def prepare_audit_record_def sbind_run slift_def
        state_text_def dict_get_def)
  have "is_ok (to_float (state_get ''confidence'' (PFloat ''0.0'') []))"
    by (simp add: state_get_def dict_get_def)
  then have "w_prod w' = w_prod demo_world" using failed_write_leaves_no_trace [OF run] by simp
  then show ?thesis using run by blast
qed

text \<open>
  a failure after the commit. When the state is fit for the ledger but its
  confidence is not a number, the node raises although the record is already
  stored, and a repetition of the run under any new id cannot be stored any more.
\<close>

theorem unusable_confidence_after_commit:
  assumes "write_ready now rid st w" and "to_float (state_get ''confidence'' (PFloat ''0.0'') st) = Raise e"
  shows "\<exists>w' r. write_node now rid st w = (Raise (write_failed e), w') \<and>
    t_audit_records (w_prod w') = t_audit_records (w_prod w) @ [r] \<and> au_id r = rid \<and>
    (\<forall>now' rid'. \<not> write_ready now' rid' st w' \<and> w_prod (snd (write_node now' rid' st w')) = w_prod w')"
proof -
  obtain r w' where run: "write_audit_record now rid st w = (Raise e, w')"
    and w': "w_prod w' = (w_prod w)\<lparr>t_audit_records := t_audit_records (w_prod w) @ [r]\<rparr>" "au_id r = rid"
    and did: "rbind (state_text ''decision_id'' st) parse_uuid = Ok (au_decision_id r)"
    using write_ready_run [OF assms(1)] assms(2) by auto
  have there: "find_audit (w_prod w') (au_decision_id r) \<noteq> None"
    by (auto simp: w' find_audit_def find_None_iff)
  have "\<not> write_ready now' rid' st w'" for now' rid'
    using there did by (auto simp: write_ready_def)
  moreover have "w_prod (snd (write_node now' rid' st w')) = w_prod w'" for now' rid'
  proof (cases rule: write_cases [of now' rid' st w'])
    case (failed e p)
    then show ?thesis by (simp add: write_node_def)
  next
    case (committed pr p di ai gi d' m)
    then have "di = au_decision_id r" using did by (auto simp: prepared_from_def rbind_Inr_iff)
    then show ?thesis
      using committed(5) there by (auto simp: insert_audit_record_def new_audit_record_def split: if_splits)
  qed
  ultimately show ?thesis using run w' by (auto simp: write_node_def)
qed

theorem unusable_confidence_after_commit_witness:
  "\<exists>e w'. write_node 5 7 (demo_state PNone) demo_world = (Raise e, w') \<and>
     length (t_audit_records (w_prod w')) = 1"
proof -
  have "\<exists>e. to_float (state_get ''confidence'' (PFloat ''0.0'') (demo_state PNone)) = Raise e"
    by (simp add: demo_state_def state_get_def dict_get_def)
  then obtain e where "to_float (state_get ''confidence'' (PFloat ''0.0'') (demo_state PNone)) = Raise e" ..
  moreover have "t_audit_records (w_prod demo_world) = []"
    by (simp add: demo_world_def demo_db_def empty_db_def)
  ultimately show ?thesis
    using unusable_confidence_after_commit [OF demo_write_ready] by fastforce
qed

text \<open>
  C5: the ledger invariant. Whatever state and ids it is given and whether it
  succeeds or not, the audit node keeps record ids and decisions unique in the
  production ledger and every reference of a record valid, and never removes or
  changes a record.
\<close>

theorem write_keeps_ledger:
  assumes "audit_ledger_ok (w_prod w)" and "write_node now rid st w = (res, w')"
  shows "audit_ledger_ok (w_prod w') \<and>
    (\<exists>new. t_audit_records (w_prod w') = t_audit_records (w_prod w) @ new \<and> length new \<le> 1)"
proof (cases rule: write_cases [of now rid st w])
  case (failed e p)
  then show ?thesis using assms by (auto simp: write_node_def)
next
  case (committed pr p did aid gid d' m)
  then have "w_prod w' = d'" using assms(2) by (auto simp: write_node_def split: sum.splits)
  then show ?thesis using insert_audit_record_ok [OF assms(1) committed(5)] by auto
qed

theorem write_keeps_ledger_witness:
  "audit_ledger_ok (w_prod (snd (write_node 5 7 (demo_state PNone) demo_world)))"
proof -
  have "audit_ledger_ok (w_prod demo_world)"
    by (simp add: audit_ledger_ok_def demo_world_def demo_db_def empty_db_def)
  then show ?thesis using write_keeps_ledger by (metis prod.collapse)
qed

text \<open>
  demo runs cannot be audited. The INSERT always goes to the production
  database, so a demo run whose decision exists only in the demo database fails,
  and its record is stored in neither.
\<close>

theorem demo_decision_not_audited:
  assumes "rbind (state_text ''decision_id'' st) parse_uuid = Ok did"
    and "find_decision (w_prod w) did = None"
  shows "\<exists>m w'. write_node now rid st w = (Raise (RuntimeError m), w') \<and> w_prod w' = w_prod w \<and>
    w_demo w' = w_demo w"
proof (cases rule: write_cases [of now rid st w])
  case (failed e p)
  then show ?thesis by (simp add: write_node_def write_failed_def)
next
  case (committed pr p di ai gi d' m)
  then have "di = did" using assms(1) by (auto simp: prepared_from_def rbind_Inr_iff)
  then have False
    using committed(5) assms(2) by (auto simp: insert_audit_record_def new_audit_record_def split: if_splits)
  then show ?thesis ..
qed

theorem demo_decision_not_audited_witness:
  "\<exists>m. fst (write_node 5 7 ((''is_demo'', PBool True) # demo_state (PFloat ''0.9''))
     (demo_world\<lparr>w_prod := empty_db, w_demo := demo_db\<rparr>)) = Raise (RuntimeError m)"
proof -
  have a: "rbind (state_text ''decision_id'' ((''is_demo'', PBool True) # demo_state (PFloat ''0.9''))) parse_uuid = Ok 2"
    by (simp add: demo_state_def state_text_def dict_get_def)
  have b: "find_decision (w_prod (demo_world\<lparr>w_prod := empty_db, w_demo := demo_db\<rparr>)) 2 = None"
    by (simp add: find_decision_def empty_db_def)
  show ?thesis using demo_decision_not_audited [OF a b, of 5 7] by auto
qed

end
