(* ===== verification/Uploader.thy ===== *)
theory Uploader
  imports AuditWriter Encryption
begin

text \<open>
  \<open>audit/s3_uploader.py\<close>: encrypting and storing the payload of an audit record,
  and the retry of pending uploads. The object store is a map from bucket and
  key to bytes; \<open>LIMIT 100\<close> without an order takes the first rows of the table.
  The nonces are arguments. Decisions are unique in the ledger, so the query of
  one decision gives at most one row.
\<close>

section \<open>One upload\<close>

definition audit_bucket :: "world \<Rightarrow> string" where
  "audit_bucket w = get_or ''MINIO_BUCKET_AUDIT'' (os_environ (w_proc w)) ''complianceloop-audit''"

definition upload_to_minio :: "bytes \<Rightarrow> string \<Rightarrow> (world, unit) step" where
  "upload_to_minio encrypted s3_key w =
     (case w_minio_fault w of
        Some e \<Rightarrow> (Raise e, w)
      | None \<Rightarrow> (Ok (), w\<lparr>w_minio := (w_minio w)((audit_bucket w, s3_key) \<mapsto> encrypted)\<rparr>))"

definition set_uploaded :: "uuid \<Rightarrow> string \<Rightarrow> audit_record \<Rightarrow> audit_record" where
  "set_uploaded did s3_key r =
     (if au_decision_id r = did then r\<lparr>au_payload_s3_uploaded := True, au_payload_s3_key := Some s3_key\<rparr> else r)"

definition mark_uploaded :: "string \<Rightarrow> string \<Rightarrow> (world, unit) step" where
  "mark_uploaded decision_id s3_key =
     in_session False (\<lambda>d. rbind (parse_uuid decision_id) (\<lambda>did.
       Ok ((), d\<lparr>t_audit_records := map (set_uploaded did s3_key) (t_audit_records d)\<rparr>)))"

record payload_args =
  pa_decision_id :: string
  pa_application_id :: string
  pa_guideline_version_id :: string
  pa_written_at :: datetime
  pa_agent_outputs :: pyval
  pa_outcome :: pyval
  pa_confidence :: pyval
  pa_rationale_chain :: pyval
  pa_s3_key :: string

definition payload_dict :: "payload_args \<Rightarrow> pyval" where
  "payload_dict a = PDict
     [(''application_id'', PStr (pa_application_id a)), (''decision_id'', PStr (pa_decision_id a)),
      (''guideline_version_id'', PStr (pa_guideline_version_id a)),
      (''written_at'', PStr (isoformat (pa_written_at a))), (''agent_outputs'', pa_agent_outputs a),
      (''outcome'', pa_outcome a), (''confidence'', pa_confidence a),
      (''rationale_chain'', pa_rationale_chain a)]"

definition try_upload :: "aead \<Rightarrow> bytes \<Rightarrow> payload_args \<Rightarrow> (world, unit) step" where
  "try_upload c nonce a =
     sbind (slift (rbind (dumps (payload_dict a)) (\<lambda>t. Ok (utf8 t)))) (\<lambda>payload_bytes.
     sbind (in_proc (encrypt_payload c nonce payload_bytes)) (\<lambda>encrypted.
     sbind (upload_to_minio encrypted (pa_s3_key a)) (\<lambda>_.
     mark_uploaded (pa_decision_id a) (pa_s3_key a))))"

definition upload_audit_payload :: "aead \<Rightarrow> bytes \<Rightarrow> payload_args \<Rightarrow> (world, bool) step" where
  "upload_audit_payload c nonce a w =
     (case try_upload c nonce a w of
        (Inl _, w') \<Rightarrow> (Ok False, w')
      | (Inr _, w') \<Rightarrow> (Ok True, w'))"

section \<open>The retry task\<close>

record retry_stats =
  rs_attempted :: nat
  rs_succeeded :: nat
  rs_failed :: nat

definition pending_records :: "db \<Rightarrow> audit_record list" where
  "pending_records d =
     take 100 (filter (\<lambda>r. \<not> au_payload_s3_uploaded r \<and> \<not> au_is_demo r) (t_audit_records d))"

definition retry_args :: "audit_record \<Rightarrow> decision \<Rightarrow> payload_args" where
  "retry_args r d =
     \<lparr>pa_decision_id = uuid_str (au_decision_id r), pa_application_id = uuid_str (au_application_id r),
      pa_guideline_version_id = uuid_str (au_guideline_version_id r),
      pa_written_at = utc_datetime (au_written_at r), pa_agent_outputs = de_agent_outputs d,
      pa_outcome = PStr (outcome_value (de_outcome d)), pa_confidence = PFloat (de_confidence d),
      pa_rationale_chain = de_rationale_chain d,
      pa_s3_key = compute_payload_s3_key (uuid_str (au_decision_id r)) (utc_datetime (au_written_at r))\<rparr>"

text \<open>One pending record: True when it was uploaded; every exception counts as a failure.\<close>

definition retry_record :: "aead \<Rightarrow> bytes \<Rightarrow> audit_record \<Rightarrow> world \<Rightarrow> bool \<times> world" where
  "retry_record c nonce r w =
     (case query False (\<lambda>d. Ok (find_decision d (au_decision_id r), find_application d (au_application_id r))) w of
        (Inl _, w') \<Rightarrow> (False, w')
      | (Inr (None, _), w') \<Rightarrow> (False, w')
      | (Inr (Some d, None), w') \<Rightarrow> (False, w')
      | (Inr (Some d, Some ap), w') \<Rightarrow>
          if ap_payload_encrypted ap = None then (False, w')
          else (case upload_audit_payload c nonce (retry_args r d) w' of
                  (Inr True, w2) \<Rightarrow> (True, w2)
                | (_, w2) \<Rightarrow> (False, w2)))"

fun retry_records :: "aead \<Rightarrow> (nat \<Rightarrow> bytes) \<Rightarrow> audit_record list \<Rightarrow> retry_stats \<Rightarrow> world \<Rightarrow> retry_stats \<times> world" where
  "retry_records c rng [] s w = (s, w)"
| "retry_records c rng (r # rs) s w =
     (let (ok, w') = retry_record c (rng (rs_attempted s)) r w in
      retry_records c rng rs
        \<lparr>rs_attempted = rs_attempted s + 1, rs_succeeded = rs_succeeded s + (if ok then 1 else 0),
         rs_failed = rs_failed s + (if ok then 0 else 1)\<rparr> w')"

definition retry_pending_uploads :: "aead \<Rightarrow> (nat \<Rightarrow> bytes) \<Rightarrow> (world, retry_stats) step" where
  "retry_pending_uploads c rng =
     sbind (query False (\<lambda>d. Ok (pending_records d))) (\<lambda>rs w.
       (case retry_records c rng rs \<lparr>rs_attempted = 0, rs_succeeded = 0, rs_failed = 0\<rparr> w of
          (s, w') \<Rightarrow> (Ok s, w')))"

section \<open>What an upload changes\<close>

text \<open>The integrity fields of a record: everything verification reads.\<close>

definition integrity_fields :: "audit_record \<Rightarrow> uuid \<times> uuid \<times> uuid \<times> uuid \<times> string \<times> string \<times> int" where
  "integrity_fields r = (au_id r, au_decision_id r, au_application_id r, au_guideline_version_id r,
     au_agent_outputs_hash r, au_record_hmac r, au_written_at r)"

definition ledger_view :: "world \<Rightarrow> (uuid \<times> uuid \<times> uuid \<times> uuid \<times> string \<times> string \<times> int) list" where
  "ledger_view w = map integrity_fields (t_audit_records (w_prod w))"

lemma integrity_set_uploaded [simp]: "integrity_fields (set_uploaded did k r) = integrity_fields r"
  by (simp add: set_uploaded_def integrity_fields_def)

lemma mark_uploaded_frame:
  "ledger_view (snd (mark_uploaded did k w)) = ledger_view w \<and> w_demo (snd (mark_uploaded did k w)) = w_demo w
   \<and> w_minio (snd (mark_uploaded did k w)) = w_minio w"
proof (cases "db_ready False w")
  case True
  then show ?thesis
    by (cases "parse_uuid did")
      (simp_all add: mark_uploaded_def in_session_ready store_db_def select_db_def ledger_view_def comp_def)
next
  case False
  then obtain e where "mark_uploaded did k w = (Raise e, w)"
    unfolding mark_uploaded_def using in_session_not_ready by blast
  then show ?thesis by simp
qed

lemma upload_frame:
  "ledger_view (snd (upload_audit_payload c n a w)) = ledger_view w \<and>
   w_demo (snd (upload_audit_payload c n a w)) = w_demo w"
proof -
  have "ledger_view (snd (try_upload c n a w)) = ledger_view w \<and> w_demo (snd (try_upload c n a w)) = w_demo w"
    using mark_uploaded_frame
    by (auto simp: try_upload_def sbind_run slift_def in_proc_run upload_to_minio_def ledger_view_def
        split: sum.splits prod.splits option.splits)
  then show ?thesis by (auto simp: upload_audit_payload_def split: sum.splits prod.splits)
qed

lemma retry_record_frame:
  "ledger_view (snd (retry_record c n r w)) = ledger_view w \<and> w_demo (snd (retry_record c n r w)) = w_demo w"
proof -
  let ?q = "query False (\<lambda>d. Ok (find_decision d (au_decision_id r), find_application d (au_application_id r))) w"
  have q: "?q = (fst ?q, w)" by (simp add: prod_eq_iff)
  have up: "ledger_view w2 = ledger_view w \<and> w_demo w2 = w_demo w"
    if "upload_audit_payload c n a w = (x, w2)" for a x w2
    using upload_frame [of c n a w] that by simp
  show ?thesis
    using up unfolding retry_record_def by (subst (1 2) q)
      (auto split: sum.splits prod.splits option.splits bool.splits)
qed

lemma retry_records_frame:
  "ledger_view (snd (retry_records c rng rs s w)) = ledger_view w \<and>
   w_demo (snd (retry_records c rng rs s w)) = w_demo w"
proof (induction rs arbitrary: s w)
  case (Cons r rs)
  then show ?case
    using retry_record_frame [of c "rng (rs_attempted s)" r w] by (auto simp: Let_def split: prod.splits)
qed simp

lemma retry_records_counts:
  "rs_attempted (fst (retry_records c rng rs s w)) = rs_attempted s + length rs \<and>
   rs_succeeded (fst (retry_records c rng rs s w)) + rs_failed (fst (retry_records c rng rs s w)) =
     rs_succeeded s + rs_failed s + length rs"
  by (induction rs arbitrary: s w) (auto simp: Let_def split: prod.splits)

section \<open>A successful upload\<close>

lemma upload_run:
  assumes "dumps (payload_dict a) = Ok t" and "aead_correct c" and "length n = 12"
    and "aes_key_in_use (w_proc w) = Some k" and "length k = 32" and "w_minio_fault w = None"
    and "db_ready False w" and "parse_uuid (pa_decision_id a) = Ok did" and "t \<noteq> []" and "takes_aad c"
  shows "\<exists>b. is_encrypted b \<and>
      (\<forall>q. aes_key_in_use q = Some k \<longrightarrow> decrypt_payload c b q = (Ok (utf8 t), q\<lparr>aes_key := Some k\<rparr>)) \<and>
      upload_audit_payload c n a w = (Ok True,
        w\<lparr>w_proc := (w_proc w)\<lparr>aes_key := Some k\<rparr>,
          w_minio := (w_minio w)((audit_bucket w, pa_s3_key a) \<mapsto> b),
          w_prod := (w_prod w)\<lparr>t_audit_records := map (set_uploaded did (pa_s3_key a)) (t_audit_records (w_prod w))\<rparr>\<rparr>)"
proof -
  obtain b where b: "encrypt_payload c n (utf8 t) (w_proc w) = (Ok b, (w_proc w)\<lparr>aes_key := Some k\<rparr>)"
    "is_encrypted b" "\<forall>q. aes_key_in_use q = Some k \<longrightarrow> decrypt_payload c b q = (Ok (utf8 t), q\<lparr>aes_key := Some k\<rparr>)"
    using encrypt_decrypt [OF assms(2,4,5,3), of "utf8 t"] assms(9,10) by auto
  let ?w = "w\<lparr>w_proc := (w_proc w)\<lparr>aes_key := Some k\<rparr>, w_minio := (w_minio w)((audit_bucket w, pa_s3_key a) \<mapsto> b)\<rparr>"
  have "db_ready False ?w" using assms(7) by (simp add: db_ready_def)
  then have "mark_uploaded (pa_decision_id a) (pa_s3_key a) ?w = (Ok (), ?w\<lparr>w_prod :=
      (w_prod w)\<lparr>t_audit_records := map (set_uploaded did (pa_s3_key a)) (t_audit_records (w_prod w))\<rparr>\<rparr>)"
    using assms(8) by (simp add: mark_uploaded_def in_session_ready select_db_def store_db_def)
  then show ?thesis
    using b assms(1,6)
    by (intro exI [of _ b])
      (simp add: upload_audit_payload_def try_upload_def sbind_run slift_def in_proc_run upload_to_minio_def
        audit_bucket_def)
qed

text \<open>With a package that does not take the keyword, the upload fails before anything is stored.\<close>

lemma upload_refused:
  assumes "is_ok (dumps (payload_dict a))" and "aes_key_in_use (w_proc w) = Some k" and "\<not> takes_aad c"
  shows "\<exists>p. upload_audit_payload c n a w = (Ok False, w\<lparr>w_proc := p\<rparr>) \<and> (p = w_proc w \<or> p = (w_proc w)\<lparr>aes_key := Some k\<rparr>)"
proof -
  obtain t where t: "dumps (payload_dict a) = Ok t" using assms(1) by (auto simp: is_ok_iff)
  show ?thesis
  proof (cases "utf8 t = []")
    case True
    then have "encrypt_payload c n (utf8 t) (w_proc w) = (Raise (ValueError ''Cannot encrypt empty plaintext.''), w_proc w)"
      by (simp add: encrypt_payload_def sraise_def)
    then show ?thesis
      by (intro exI [of _ "w_proc w"]) (simp add: t upload_audit_payload_def try_upload_def sbind_run slift_def in_proc_run)
  next
    case False
    then have "encrypt_payload c n (utf8 t) (w_proc w) = (Raise (unexpected_aad ''encrypt''), (w_proc w)\<lparr>aes_key := Some k\<rparr>)"
      using encrypt_run [OF False assms(2), of c n] assms(3) by (simp add: aesgcm_encrypt_def)
    then show ?thesis
      by (intro exI [of _ "(w_proc w)\<lparr>aes_key := Some k\<rparr>"])
        (simp add: t upload_audit_payload_def try_upload_def sbind_run slift_def in_proc_run)
  qed
qed

section \<open>The retry task\<close>

lemma retry_run:
  "db_ready False w \<Longrightarrow> retry_pending_uploads c rng w =
     (case retry_records c rng (pending_records (w_prod w)) \<lparr>rs_attempted = 0, rs_succeeded = 0, rs_failed = 0\<rparr> w of
       (s, w') \<Rightarrow> (Ok s, w'))"
  by (simp add: retry_pending_uploads_def sbind_run query_ready select_db_def)

lemma retry_not_ready: "\<not> db_ready False w \<Longrightarrow> \<exists>e. retry_pending_uploads c rng w = (Raise e, w)"
  using query_not_ready [of False w "\<lambda>d. Ok (pending_records d)"]
  by (auto simp: retry_pending_uploads_def sbind_run)

text \<open>
  C34: the retry task is faithful to the ledger. Whatever uploads succeed or
  fail, it reads at most 100 records, accounts for each of them once, and leaves
  every field that verification reads, of every record, and the demo database,
  as they were.
\<close>

theorem retry_keeps_integrity:
  assumes "retry_pending_uploads c rng w = (Ok s, w')"
  shows "ledger_view w' = ledger_view w \<and> w_demo w' = w_demo w \<and>
    rs_attempted s = length (pending_records (w_prod w)) \<and> rs_attempted s \<le> 100 \<and>
    rs_succeeded s + rs_failed s = rs_attempted s"
proof -
  let ?s0 = "\<lparr>rs_attempted = 0, rs_succeeded = 0, rs_failed = 0\<rparr>"
  have "db_ready False w"
    using assms retry_not_ready [of w c rng] by auto
  then have "retry_records c rng (pending_records (w_prod w)) ?s0 w = (s, w')"
    using assms by (simp add: retry_run split: prod.splits)
  moreover have "length (pending_records (w_prod w)) \<le> 100" by (simp add: pending_records_def)
  ultimately show ?thesis
    using retry_records_frame [of c rng "pending_records (w_prod w)" ?s0 w]
      retry_records_counts [of c rng "pending_records (w_prod w)" ?s0 w] by simp
qed

lemma retry_record_wiped:
  assumes "\<forall>d ap. find_decision (w_prod w) (au_decision_id r) = Some d \<longrightarrow>
      find_application (w_prod w) (au_application_id r) = Some ap \<longrightarrow> ap_payload_encrypted ap = None"
  shows "retry_record c n r w = (False, w)"
proof (cases "db_ready False w")
  case True
  then show ?thesis
    using assms by (auto simp: retry_record_def query_ready select_db_def split: option.splits)
next
  case False
  then obtain e where "query False (\<lambda>d. Ok (find_decision d (au_decision_id r), find_application d (au_application_id r))) w
    = (Raise e, w)"
    using query_not_ready by blast
  then show ?thesis by (simp add: retry_record_def)
qed

lemma retry_records_wiped:
  assumes "\<forall>r\<in>set rs. \<forall>d ap. find_decision (w_prod w) (au_decision_id r) = Some d \<longrightarrow>
      find_application (w_prod w) (au_application_id r) = Some ap \<longrightarrow> ap_payload_encrypted ap = None"
  shows "retry_records c rng rs s w =
    (\<lparr>rs_attempted = rs_attempted s + length rs, rs_succeeded = rs_succeeded s,
      rs_failed = rs_failed s + length rs\<rparr>, w)"
  using assms
proof (induction rs arbitrary: s)
  case (Cons r rs)
  then have "retry_record c (rng (rs_attempted s)) r w = (False, w)" by (intro retry_record_wiped) simp
  then show ?case using Cons by (simp add: Let_def)
qed simp

text \<open>
  pending records can be starved. When the applications of the 100 records
  the query returns have been wiped, a run of the task fails them all and changes
  nothing, so the next run reads the same 100 again and the records behind them
  are never tried.
\<close>

theorem wiped_records_starve_retry:
  assumes "db_ready False w"
    and "\<forall>r\<in>set (pending_records (w_prod w)). \<forall>d ap. find_decision (w_prod w) (au_decision_id r) = Some d \<longrightarrow>
      find_application (w_prod w) (au_application_id r) = Some ap \<longrightarrow> ap_payload_encrypted ap = None"
  shows "retry_pending_uploads c rng w =
    (Ok \<lparr>rs_attempted = length (pending_records (w_prod w)), rs_succeeded = 0,
         rs_failed = length (pending_records (w_prod w))\<rparr>, w)"
  using assms by (simp add: retry_run retry_records_wiped)

definition wiped_world :: world where
  "wiped_world = sample_world demo_proc (demo_db\<lparr>
     t_applications := [(sample_application 1)\<lparr>ap_payload_encrypted := None\<rparr>],
     t_audit_records := [new_audit_record 7 2 1 3 [] ''h'' ''m'' ''k'' 5 False]\<rparr>)"

theorem wiped_records_starve_retry_witness:
  "retry_pending_uploads plain_aead (\<lambda>_. []) wiped_world =
     (Ok \<lparr>rs_attempted = 1, rs_succeeded = 0, rs_failed = 1\<rparr>, wiped_world)"
proof -
  have d: "w_prod wiped_world = demo_db\<lparr>
      t_applications := [(sample_application 1)\<lparr>ap_payload_encrypted := None\<rparr>],
      t_audit_records := [new_audit_record 7 2 1 3 [] ''h'' ''m'' ''k'' 5 False]\<rparr>"
    by (simp add: wiped_world_def)
  have p: "length (pending_records (w_prod wiped_world)) = 1"
    by (simp add: d pending_records_def new_audit_record_def)
  have "db_ready False wiped_world" by (simp add: wiped_world_def)
  moreover have "\<forall>r\<in>set (pending_records (w_prod wiped_world)). \<forall>d ap.
      find_decision (w_prod wiped_world) (au_decision_id r) = Some d \<longrightarrow>
      find_application (w_prod wiped_world) (au_application_id r) = Some ap \<longrightarrow> ap_payload_encrypted ap = None"
    unfolding d by (auto simp: find_application_def split: if_splits)
  ultimately show ?thesis using wiped_records_starve_retry p by simp
qed

theorem retry_keeps_integrity_witness:
  "\<exists>s w'. retry_pending_uploads plain_aead (\<lambda>_. []) demo_world = (Ok s, w') \<and> ledger_view w' = ledger_view demo_world"
proof -
  have "db_ready False demo_world" by (simp add: demo_world_def)
  then have "\<exists>s w'. retry_pending_uploads plain_aead (\<lambda>_. []) demo_world = (Ok s, w')"
    by (simp add: retry_run split: prod.splits)
  then show ?thesis using retry_keeps_integrity by blast
qed

end
