(* ===== verification/Verifier.thy ===== *)
theory Verifier
  imports Uploader
begin

text \<open>
  \<open>audit/verifier.py\<close>: reading a record back, checking its payload against the
  stored hash and its metadata against the stored HMAC, and reporting. The clock
  reading of a result (\<open>verified_at\<close>) is an argument; log lines are left out.
\<close>

section \<open>Results\<close>

record verification_result =
  vr_decision_id :: string
  vr_application_id :: string
  vr_guideline_version_id :: string
  vr_written_at :: string
  vr_outcome :: string
  vr_is_valid :: bool
  vr_hash_check_passed :: bool
  vr_hmac_check_passed :: bool
  vr_minio_payload_available :: bool
  vr_failure_reason :: string
  vr_agent_outputs_hash :: string
  vr_record_hmac_prefix :: string
  vr_verified_at :: string

definition to_report_dict :: "verification_result \<Rightarrow> (string \<times> pyval) list" where
  "to_report_dict v =
     [(''decision_id'', PStr (vr_decision_id v)), (''application_id'', PStr (vr_application_id v)),
      (''guideline_version_id'', PStr (vr_guideline_version_id v)), (''written_at'', PStr (vr_written_at v)),
      (''outcome'', PStr (vr_outcome v)), (''is_valid'', PBool (vr_is_valid v)),
      (''hash_check_passed'', PBool (vr_hash_check_passed v)),
      (''hmac_check_passed'', PBool (vr_hmac_check_passed v)),
      (''minio_payload_available'', PBool (vr_minio_payload_available v)),
      (''failure_reason'', PStr (vr_failure_reason v)),
      (''agent_outputs_hash_prefix'', PStr (take 16 (vr_agent_outputs_hash v) @ ''...'')),
      (''record_hmac_prefix'', PStr (vr_record_hmac_prefix v)), (''verified_at'', PStr (vr_verified_at v))]"

section \<open>The payload\<close>

text \<open>\<open>key in payload\<close> and \<open>payload.get("agent_outputs", {})\<close> on a decoded JSON value.\<close>

fun has_member :: "string \<Rightarrow> pyval \<Rightarrow> bool result" where
  "has_member k (PDict kvs) = Ok (dict_get k kvs \<noteq> None)"
| "has_member k (PList vs) = Ok (PStr k \<in> set vs)"
| "has_member k (PStr s) = Ok (contains k s)"
| "has_member k v = Raise (TypeError ''argument is not iterable'')"

fun require_keys :: "string list \<Rightarrow> pyval \<Rightarrow> pyval result" where
  "require_keys [] payload = Ok payload"
| "require_keys (k # ks) payload = rbind (has_member k payload) (\<lambda>there.
     if \<not> there then Raise (ValueError (''Decrypted payload missing expected key '' @ quoted k @ ''.''))
     else require_keys ks payload)"

fun payload_outputs :: "pyval \<Rightarrow> pyval result" where
  "payload_outputs (PDict kvs) = Ok (case dict_get ''agent_outputs'' kvs of None \<Rightarrow> PDict [] | Some v \<Rightarrow> v)"
| "payload_outputs v = Raise (AttributeError ''get'')"

definition get_object :: "string \<Rightarrow> (world, bytes) step" where
  "get_object s3_key w = (case w_minio_fault w of
       Some e \<Rightarrow> (Raise e, w)
     | None \<Rightarrow> (case w_minio w (audit_bucket w, s3_key) of
         None \<Rightarrow> (Raise (OtherExn ''S3Error'' ''NoSuchKey''), w)
       | Some b \<Rightarrow> (Ok b, w)))"

definition decode_utf8 :: "bytes \<Rightarrow> string result" where
  "decode_utf8 b = (case utf8_decode b of None \<Rightarrow> Raise (UnicodeError ''utf-8'') | Some t \<Rightarrow> Ok t)"

definition download_and_decrypt_payload :: "aead \<Rightarrow> string \<Rightarrow> string list \<Rightarrow> (world, pyval) step" where
  "download_and_decrypt_payload c s3_key expected_keys =
     sbind (get_object s3_key) (\<lambda>encrypted_bytes.
     sbind (in_proc (decrypt_payload c encrypted_bytes)) (\<lambda>decrypted_bytes.
     slift (rbind (decode_utf8 decrypted_bytes) (\<lambda>t.
       rbind (loads t) (\<lambda>payload. require_keys expected_keys payload)))))"

section \<open>Verification\<close>

definition run_full_verification :: "audit_record \<Rightarrow> pyval \<Rightarrow> (proc, bool \<times> string) step" where
  "run_full_verification r agent_outputs =
     verify_audit_record_integrity (au_agent_outputs_hash r) (au_record_hmac r) agent_outputs
       (uuid_str (au_decision_id r)) (uuid_str (au_guideline_version_id r)) (utc_datetime (au_written_at r))"

definition hmac_only_reason :: string where
  "hmac_only_reason = ''HMAC verification failed (MinIO payload unavailable for hash check). '' @
     ''The stored HMAC does not match the expected value for this audit record.''"

definition run_hmac_only_verification :: "audit_record \<Rightarrow> (proc, bool \<times> string \<times> bool \<times> bool) step" where
  "run_hmac_only_verification r =
     sbind (slift (serialise_written_at (utc_datetime (au_written_at r)))) (\<lambda>written_at_str.
     sbind (verify_record_hmac (au_record_hmac r) (au_agent_outputs_hash r) (uuid_str (au_decision_id r))
         (uuid_str (au_guideline_version_id r)) written_at_str) (\<lambda>hmac_valid.
       sret (if hmac_valid then (True, [], False, True) else (False, hmac_only_reason, False, False))))"

text \<open>Step 2: no exception of the download escapes.\<close>

definition fetch_payload :: "aead \<Rightarrow> audit_record \<Rightarrow> (world, pyval option) step" where
  "fetch_payload c r w = (case au_payload_s3_key r of
       Some (ch # key) \<Rightarrow>
         if au_payload_s3_uploaded r
         then (case download_and_decrypt_payload c (ch # key) [''agent_outputs''] w of
                 (Inl _, w') \<Rightarrow> (Ok None, w')
               | (Inr payload, w') \<Rightarrow> (Ok (Some payload), w'))
         else (Ok None, w)
     | _ \<Rightarrow> (Ok None, w))"

text \<open>Step 3: the two check results are read off the text of the reason.\<close>

definition read_checks :: "bool \<times> string \<Rightarrow> bool \<times> string \<times> bool \<times> bool" where
  "read_checks vr = (case vr of (is_valid, failure_reason) \<Rightarrow>
     (is_valid, failure_reason,
      if \<not> is_valid then \<not> contains ''hash'' (lower failure_reason) else True,
      if \<not> is_valid then \<not> contains ''hmac'' (lower failure_reason) else True))"

definition run_verification :: "audit_record \<Rightarrow> pyval option \<Rightarrow> (proc, bool \<times> string \<times> bool \<times> bool) step" where
  "run_verification r payload = (case payload of
       Some pl \<Rightarrow> sbind (slift (payload_outputs pl)) (\<lambda>agent_outputs.
         sbind (run_full_verification r agent_outputs) (\<lambda>vr. sret (read_checks vr)))
     | None \<Rightarrow> run_hmac_only_verification r)"

definition verification_report ::
  "string \<Rightarrow> int \<Rightarrow> audit_record \<Rightarrow> decision option \<Rightarrow> bool \<Rightarrow> bool \<times> string \<times> bool \<times> bool \<Rightarrow> verification_result" where
  "verification_report decision_id now r dec available checks =
     (case checks of (is_valid, failure_reason, hash_passed, hmac_passed) \<Rightarrow>
       \<lparr>vr_decision_id = decision_id, vr_application_id = uuid_str (au_application_id r),
        vr_guideline_version_id = uuid_str (au_guideline_version_id r),
        vr_written_at = isoformat (utc_datetime (au_written_at r)),
        vr_outcome = (case dec of Some d \<Rightarrow> outcome_value (de_outcome d) | None \<Rightarrow> ''UNKNOWN''),
        vr_is_valid = is_valid, vr_hash_check_passed = hash_passed, vr_hmac_check_passed = hmac_passed,
        vr_minio_payload_available = available, vr_failure_reason = failure_reason,
        vr_agent_outputs_hash = au_agent_outputs_hash r, vr_record_hmac_prefix = take 16 (au_record_hmac r),
        vr_verified_at = isoformat (utc_datetime now)\<rparr>)"

definition no_audit_record :: "string \<Rightarrow> exn" where
  "no_audit_record decision_id = ValueError (''No audit record found for decision_id '' @ quoted decision_id @
     ''. This decision may not have a compliance audit trail.'')"

definition fetch_record :: "string \<Rightarrow> bool \<Rightarrow> (world, audit_record \<times> decision option) step" where
  "fetch_record decision_id is_demo =
     sbind (get_engine_for_context is_demo) (\<lambda>_.
     sbind (slift (parse_uuid decision_id)) (\<lambda>did.
     query is_demo (\<lambda>d. case find_audit d did of
         None \<Rightarrow> Raise (no_audit_record decision_id)
       | Some r \<Rightarrow> Ok (r, find_decision d did))))"

definition verify_by_decision_id :: "aead \<Rightarrow> int \<Rightarrow> string \<Rightarrow> bool \<Rightarrow> (world, verification_result) step" where
  "verify_by_decision_id c now decision_id is_demo =
     sbind (fetch_record decision_id is_demo) (\<lambda>(r, dec).
     sbind (fetch_payload c r) (\<lambda>payload.
     sbind (in_proc (run_verification r payload)) (\<lambda>checks.
     sret (verification_report decision_id now r dec (payload \<noteq> None) checks))))"

text \<open>All records of an application, oldest first; a record whose verification raises is left out.\<close>

fun verify_each :: "aead \<Rightarrow> int \<Rightarrow> bool \<Rightarrow> audit_record list \<Rightarrow> world \<Rightarrow> verification_result list \<times> world" where
  "verify_each c now is_demo [] w = ([], w)"
| "verify_each c now is_demo (r # rs) w =
     (case verify_by_decision_id c now (uuid_str (au_decision_id r)) is_demo w of
        (res, w1) \<Rightarrow> (case verify_each c now is_demo rs w1 of
          (vs, w2) \<Rightarrow> (case res of Inl _ \<Rightarrow> (vs, w2) | Inr v \<Rightarrow> (v # vs, w2))))"

definition verify_by_application_id ::
  "aead \<Rightarrow> int \<Rightarrow> string \<Rightarrow> bool \<Rightarrow> (world, verification_result list) step" where
  "verify_by_application_id c now application_id is_demo =
     sbind (get_engine_for_context is_demo) (\<lambda>_.
     sbind (slift (parse_uuid application_id)) (\<lambda>aid.
     sbind (query is_demo (\<lambda>d. Ok (sort_key au_written_at
         (filter (\<lambda>r. au_application_id r = aid) (t_audit_records d))))) (\<lambda>rs w.
       (case verify_each c now is_demo rs w of (vs, w') \<Rightarrow> (Ok vs, w')))))"

section \<open>Verification only reads\<close>

text \<open>The world apart from the key caches of the process.\<close>

definition stored :: "world \<Rightarrow> db \<times> db \<times> ((string \<times> string) \<Rightarrow> bytes option) \<times> (string \<times> string \<times> pyval) list \<times> exn option list" where
  "stored w = (w_prod w, w_demo w, w_minio w, w_sent w, [w_db_fault w, w_minio_fault w, w_broker_fault w])"

lemma stored_proc [simp]: "stored (w\<lparr>w_proc := p\<rparr>) = stored w"
  by (simp add: stored_def)

lemma sbind_stored:
  assumes "\<And>v w'. m w = (Inr v, w') \<Longrightarrow> stored (snd (k v w')) = stored w'"
    and "stored (snd (m w)) = stored w"
  shows "stored (snd (sbind m k w)) = stored w"
  using assms by (auto simp: sbind_run split: prod.splits sum.splits)

lemma stored_steps [simp]:
  "stored (snd (slift r w)) = stored w" "stored (snd (sret v w)) = stored w"
  "stored (snd (in_proc f w)) = stored w" "stored (snd (get_engine_for_context b w)) = stored w"
  "stored (snd (query b q w)) = stored w" "stored (snd (get_object k w)) = stored w"
  by (simp_all add: slift_def sret_def in_proc_run get_engine_for_context_def Let_def get_object_def
      split: option.splits)

lemma download_reads: "stored (snd (download_and_decrypt_payload c k ks w)) = stored w"
  by (simp add: download_and_decrypt_payload_def sbind_stored)

lemma fetch_payload_reads: "stored (snd (fetch_payload c r w)) = stored w"
proof -
  have "stored w' = stored w" if "download_and_decrypt_payload c k ks w = (x, w')" for k ks x w'
    using download_reads [of c k ks w] that by simp
  then show ?thesis by (auto simp: fetch_payload_def split: option.splits list.splits prod.splits sum.splits)
qed

lemma verify_reads: "stored (snd (verify_by_decision_id c now t b w)) = stored w"
  by (auto simp: verify_by_decision_id_def fetch_record_def fetch_payload_reads
      intro!: sbind_stored split: prod.splits)

lemma verify_each_reads:
  "stored (snd (verify_each c now b rs w)) = stored w \<and> length (fst (verify_each c now b rs w)) \<le> length rs"
proof (induction rs arbitrary: w)
  case (Cons r rs)
  obtain x w1 where x: "verify_by_decision_id c now (uuid_str (au_decision_id r)) b w = (x, w1)" by fastforce
  obtain vs w2 where y: "verify_each c now b rs w1 = (vs, w2)" by fastforce
  have "stored w1 = stored w" using verify_reads [of c now "uuid_str (au_decision_id r)" b w] x by simp
  then show ?case using Cons [of w1] x y by (auto split: sum.splits)
qed simp

section \<open>How a verification goes\<close>

lemma fetch_run:
  assumes "db_ready False w" and "find_audit (w_prod w) did = Some r"
  shows "fetch_record (uuid_str did) False w = (Ok (r, find_decision (w_prod w) did), w)"
  using assms
  by (simp add: fetch_record_def sbind_run slift_def get_engine_for_context_def db_ready_def Let_def
      query_ready select_db_def)

lemma download_run:
  assumes "w_minio_fault w = None" and "w_minio w (audit_bucket w, key) = Some b"
    and "decrypt_payload c b (w_proc w) = (Ok (utf8 t), p)" and "loads t = Ok (PDict kvs)"
    and "dict_get ''agent_outputs'' kvs = Some v"
  shows "download_and_decrypt_payload c key [''agent_outputs''] w = (Ok (PDict kvs), w\<lparr>w_proc := p\<rparr>)"
  using assms
  by (simp add: download_and_decrypt_payload_def sbind_run slift_def get_object_def in_proc_run decode_utf8_def)

text \<open>A record whose payload is in the store, and the outputs the payload holds.\<close>

definition payload_there :: "aead \<Rightarrow> uuid \<Rightarrow> audit_record \<Rightarrow> pyval \<Rightarrow> proc \<Rightarrow> world \<Rightarrow> bool" where
  "payload_there c did r v p w \<longleftrightarrow> db_ready False w \<and> find_audit (w_prod w) did = Some r \<and>
     au_payload_s3_uploaded r \<and> w_minio_fault w = None \<and>
     (\<exists>key b t kvs. au_payload_s3_key r = Some key \<and> key \<noteq> [] \<and> w_minio w (audit_bucket w, key) = Some b \<and>
        decrypt_payload c b (w_proc w) = (Ok (utf8 t), p) \<and> loads t = Ok (PDict kvs) \<and>
        dict_get ''agent_outputs'' kvs = Some v)"

lemma verify_with_payload:
  assumes "payload_there c did r v p w"
  shows "verify_by_decision_id c now (uuid_str did) False w =
     (case run_full_verification r v p of
        (Inl e, p') \<Rightarrow> (Raise e, w\<lparr>w_proc := p'\<rparr>)
      | (Inr vr, p') \<Rightarrow> (Ok (verification_report (uuid_str did) now r (find_decision (w_prod w) did) True (read_checks vr)),
          w\<lparr>w_proc := p'\<rparr>))"
proof -
  obtain key b t kvs where k: "au_payload_s3_key r = Some key" "key \<noteq> []"
    "w_minio w (audit_bucket w, key) = Some b" "decrypt_payload c b (w_proc w) = (Ok (utf8 t), p)"
    "loads t = Ok (PDict kvs)" "dict_get ''agent_outputs'' kvs = Some v"
    and w: "w_minio_fault w = None" "au_payload_s3_uploaded r" "db_ready False w" "find_audit (w_prod w) did = Some r"
    using assms by (auto simp: payload_there_def)
  have "fetch_payload c r w = (Ok (Some (PDict kvs)), w\<lparr>w_proc := p\<rparr>)"
    using download_run [OF w(1) k(3-6)] k(1,2) w(2) by (auto simp: fetch_payload_def split: list.splits)
  then show ?thesis
    using fetch_run [OF w(3,4)] k(6)
    by (simp add: verify_by_decision_id_def sbind_run run_verification_def in_proc_run slift_def sret_def
        split: sum.splits prod.splits)
qed

section \<open>The reasons\<close>

text \<open>Two neighbouring characters of a text: \<open>hmac\<close> cannot occur where no \<open>h\<close> is followed by an \<open>m\<close>.\<close>

fun neighbours :: "char \<Rightarrow> char \<Rightarrow> string \<Rightarrow> bool" where
  "neighbours x y (a # b # s) = ((a = x \<and> b = y) \<or> neighbours x y (b # s))"
| "neighbours x y s = False"

lemma neighbours_Cons: "neighbours x y (a # s) \<longleftrightarrow> neighbours x y s \<or> (s \<noteq> [] \<and> a = x \<and> hd s = y)"
  by (cases s) auto

lemma neighbours_append:
  "neighbours x y (s @ t) \<longleftrightarrow> neighbours x y s \<or> neighbours x y t \<or> (s \<noteq> [] \<and> t \<noteq> [] \<and> last s = x \<and> hd t = y)"
proof (induction s)
  case (Cons a s)
  then show ?case by (cases s; cases t) auto
qed simp

lemma neighbours_absent: "x \<notin> set s \<Longrightarrow> \<not> neighbours x y s"
  by (induction x y s rule: neighbours.induct) auto

lemma contains_neighbours: "contains (x # y # p) s \<Longrightarrow> neighbours x y s"
  by (auto simp: contains_iff neighbours_append)

lemma contains_append: "contains p s \<Longrightarrow> contains p (s @ t)"
  by (fastforce simp: contains_iff)

lemma lower_const [text_simps]:
  "lower ''agent_outputs_hash mismatch. Stored: '' = ''agent_outputs_hash mismatch. stored: ''"
  "lower ''... Recomputed: '' = ''... recomputed: ''"
  "lower ''... The agent outputs have been tampered with.'' = ''... the agent outputs have been tampered with.''"
  by code_simp+

lemma mismatch_is_hash: "contains ''hash'' (lower (hash_mismatch_reason s r))"
proof -
  have "contains ''hash'' (lower ''agent_outputs_hash mismatch. Stored: '')" by code_simp
  then show ?thesis unfolding hash_mismatch_reason_def lower_append by (rule contains_append)
qed

lemma mismatch_not_hmac:
  assumes "set (lower s) \<subseteq> hex_chars" and "set (lower r) \<subseteq> hex_chars"
  shows "\<not> contains ''hmac'' (lower (hash_mismatch_reason s r))"
proof -
  have part: "\<not> neighbours CHR ''h'' CHR ''m'' (lower (take 16 u))" if "set (lower u) \<subseteq> hex_chars" for u
    by (rule neighbours_absent) (use that in \<open>auto simp: lower_def dest: in_set_takeD\<close>)
  have "\<not> neighbours CHR ''h'' CHR ''m'' (lower (hash_mismatch_reason s r))"
    unfolding hash_mismatch_reason_def lower_append lower_const
    using part [OF assms(1)] part [OF assms(2)]
    by (simp add: neighbours_append neighbours_Cons del: neighbours.simps(1))
  then show ?thesis using contains_neighbours by blast
qed

lemma hmac_failed_checks: "read_checks (False, hmac_failed_reason) = (False, hmac_failed_reason, True, False)"
proof -
  have "\<not> contains ''hash'' (lower hmac_failed_reason)" "contains ''hmac'' (lower hmac_failed_reason)"
    unfolding hmac_failed_reason_def by code_simp+
  then show ?thesis by (simp add: read_checks_def)
qed

section \<open>From the write to the report\<close>

lemma dict_get_sorted:
  "distinct (map fst kvs) \<Longrightarrow> dict_get k (sort_key fst kvs) = dict_get k kvs"
  unfolding dict_get_def by (metis distinct_fst_sort map_of_inject_set set_sort)

lemma dict_get_apsnd: "dict_get k (map (apsnd f) kvs) = map_option f (dict_get k kvs)"
  by (induction kvs) (auto simp: dict_get_def)

lemma payload_outputs_back:
  assumes "dumps (payload_dict a) = Ok t" and "pyval_ok (payload_dict a)"
  shows "\<exists>kvs. loads t = Ok (PDict kvs) \<and> dict_get ''agent_outputs'' kvs = Some (plain (sort_dicts (pa_agent_outputs a)))"
proof -
  obtain ps where ps: "payload_dict a = PDict ps" "distinct (map fst ps)"
    "dict_get ''agent_outputs'' ps = Some (pa_agent_outputs a)"
    by (simp add: payload_dict_def dict_get_def)
  have "distinct (map fst (sort_pairs ps))"
    using ps(2) by (simp add: sort_pairs_map)
  then have "dict_get ''agent_outputs'' (plain_pairs (sort_key fst (sort_pairs ps))) =
      Some (plain (sort_dicts (pa_agent_outputs a)))"
    using ps(3) by (simp add: plain_pairs_map dict_get_apsnd dict_get_sorted, simp add: sort_pairs_map dict_get_apsnd)
  then show ?thesis
    using loads_dumps [OF assms] by (simp add: ps(1))
qed

lemma find_set_uploaded:
  "find (\<lambda>r. au_decision_id r = did) (map (set_uploaded did' k) rs) =
     map_option (set_uploaded did' k) (find (\<lambda>r. au_decision_id r = did) rs)"
  by (induction rs) (auto simp: set_uploaded_def)

lemma signing_key_simps [simp]:
  "signing_key (p\<lparr>aes_key := k\<rparr>) = signing_key p" "signing_key (p\<lparr>server_hmac_key := Some x\<rparr>) = Some x"
  by (simp_all add: signing_key_def get_server_hmac_key_def load_hmac_key_def split: option.splits sum.splits)

lemma audit_hmac_proc:
  assumes "compute_audit_hmac h did gid (utc_datetime now) p = (Ok mac, p')"
  shows "\<exists>x. signing_key p = Some x \<and> p' = p\<lparr>server_hmac_key := Some x\<rparr>"
proof -
  have "valid_wall now"
    using assms by (auto simp: compute_audit_hmac_def serialise_instant instant_of_def utc_datetime_def slift_def sbind_def split: if_splits)
  moreover have "signing_key p \<noteq> None"
    using assms signing_key_None [of p]
    by (auto simp: compute_audit_hmac_def compute_record_hmac_def sbind_run slift_def split: sum.splits prod.splits)
  ultimately show ?thesis
    using compute_audit_hmac_run [of p _ now h did gid] assms by auto
qed

lemma audit_hmac_signer:
  assumes "compute_audit_hmac h did gid (utc_datetime now) p = (Ok mac, p')"
  shows "trusts_signer (p'\<lparr>aes_key := k\<rparr>) p"
  using audit_hmac_proc [OF assms] by (auto simp: trusts_signer_def accepts_key_def)

lemma write_run:
  assumes "write_node now rid st w = (Ok st', w1)"
    and "state_text ''decision_id'' st = Ok (uuid_str did)" and "state_text ''guideline_version_id'' st = Ok (uuid_str gid)"
  shows "\<exists>r h mac p. find_audit (w_prod w1) did = Some r \<and> w_proc w1 = p \<and> au_decision_id r = did \<and>
      au_guideline_version_id r = gid \<and> au_written_at r = now \<and> au_agent_outputs_hash r = h \<and> au_record_hmac r = mac \<and>
      \<not> au_payload_s3_uploaded r \<and>
      compute_agent_outputs_hash (extract_agent_outputs st) = Ok h \<and>
      compute_audit_hmac h (uuid_str did) (uuid_str gid) (utc_datetime now) (w_proc w) = (Ok mac, p)"
proof (cases rule: write_cases [of now rid st w])
  case (failed e p)
  then show ?thesis using assms(1) by (simp add: write_node_def)
next
  case (committed pr p di aid gi d' m)
  let ?r = "new_audit_record rid di aid gi (pr_tags pr) (pr_hash pr) (pr_hmac pr) (pr_s3_key pr) now (pr_is_demo pr)"
  have txts: "pr_decision_id pr = uuid_str did" "pr_guideline_version_id pr = uuid_str gid"
    using committed(1) assms(2,3) by (simp_all add: prepared_from_def)
  then have ids: "di = did" "gi = gid" using committed(2,4) by simp_all
  have "w1 = w\<lparr>w_proc := p, w_prod := d', w_sent := w_sent w @ m\<rparr>"
    using assms(1) committed(6) by (auto simp: write_node_def split: sum.splits)
  moreover have "find_audit d' did = Some ?r"
    using committed(5) ids(1) by (auto simp: insert_audit_record_def find_audit_def find_snoc new_audit_record_def split: if_splits)
  ultimately show ?thesis
    using committed(1) ids txts by (intro exI [of _ ?r]) (auto simp: prepared_from_def new_audit_record_def)
qed

lemma write_services:
  assumes "write_node now rid st w = (Ok st', w1)"
  shows "db_ready False w1 = db_ready False w" and "w_minio_fault w1 = w_minio_fault w"
    and "aes_key_in_use (w_proc w1) = aes_key_in_use (w_proc w)"
proof -
  obtain pr p d' m where pr: "prepared_from now st w p pr" and w1: "w1 = w\<lparr>w_proc := p, w_prod := d', w_sent := w_sent w @ m\<rparr>"
  proof (cases rule: write_cases [of now rid st w])
    case (failed e p)
    then show ?thesis using assms(1) by (simp add: write_node_def)
  next
    case (committed pr p did aid gid d' m)
    then show ?thesis using assms(1) by (auto simp: write_node_def split: sum.splits intro: that)
  qed
  obtain x where "p = (w_proc w)\<lparr>server_hmac_key := Some x\<rparr>"
    using pr unfolding prepared_from_def by (blast dest: audit_hmac_proc)
  then show "db_ready False w1 = db_ready False w" "w_minio_fault w1 = w_minio_fault w"
    "aes_key_in_use (w_proc w1) = aes_key_in_use (w_proc w)"
    by (auto simp: w1 db_ready_def aes_key_in_use_def get_aes_key_def load_aes_key_def split: option.splits sum.splits)
qed

lemma uploaded_payload_there:
  assumes "find_audit (w_prod w1) did = Some r" and "db_ready False w1" and "w_minio_fault w1 = None"
    and "pa_decision_id a = uuid_str did" and "pa_s3_key a \<noteq> []"
    and "pyval_ok (payload_dict a)" and "dumps (payload_dict a) = Ok t"
    and "aead_correct c" and "length n = 12" and "aes_key_in_use (w_proc w1) = Some k" and "length k = 32" and "takes_aad c"
  shows "\<exists>w2. upload_audit_payload c n a w1 = (Ok True, w2) \<and>
    payload_there c did (set_uploaded did (pa_s3_key a) r) (plain (sort_dicts (pa_agent_outputs a)))
      ((w_proc w1)\<lparr>aes_key := Some k\<rparr>) w2"
proof -
  obtain kvs where kvs: "loads t = Ok (PDict kvs)"
    "dict_get ''agent_outputs'' kvs = Some (plain (sort_dicts (pa_agent_outputs a)))"
    using payload_outputs_back [OF assms(7,6)] by blast
  have "t \<noteq> []" using kvs(1) by (auto simp: loads_def skip_ws_def parse_literal_def literals_def)
  then obtain b where b: "\<forall>q. aes_key_in_use q = Some k \<longrightarrow> decrypt_payload c b q = (Ok (utf8 t), q\<lparr>aes_key := Some k\<rparr>)"
    and up: "upload_audit_payload c n a w1 = (Ok True,
        w1\<lparr>w_proc := (w_proc w1)\<lparr>aes_key := Some k\<rparr>,
          w_minio := (w_minio w1)((audit_bucket w1, pa_s3_key a) \<mapsto> b),
          w_prod := (w_prod w1)\<lparr>t_audit_records := map (set_uploaded did (pa_s3_key a)) (t_audit_records (w_prod w1))\<rparr>\<rparr>)"
    using upload_run [OF assms(7-11,3,2), of did] assms(4,12) by auto
  have "au_decision_id r = did"
    using assms(1) by (auto simp: find_audit_def find_Some_iff)
  then show ?thesis
    using b kvs assms(1-3,5)
    by (auto simp: up payload_there_def find_audit_def find_set_uploaded db_ready_def audit_bucket_def set_uploaded_def)
qed

text \<open>A record whose payload was not uploaded is valid by its HMAC, in a process that trusts the signer.\<close>

lemma signed_record_hmac_only:
  assumes "compute_agent_outputs_hash v = Ok h" and "compute_audit_hmac h did gid (utc_datetime now) p = (Ok mac, p')"
    and "trusts_signer q p" and "signing_key q \<noteq> None"
    and "au_agent_outputs_hash r = h" "au_record_hmac r = mac" "uuid_str (au_decision_id r) = did"
      "uuid_str (au_guideline_version_id r) = gid" "au_written_at r = now"
  shows "\<exists>q'. run_hmac_only_verification r q = (Ok (True, [], False, True), q')"
proof -
  obtain k where k: "signing_key p = Some k" "p' = p\<lparr>server_hmac_key := Some k\<rparr>"
    using audit_hmac_proc [OF assms(2)] by blast
  have wall: "valid_wall now"
    using assms(2) by (auto simp: compute_audit_hmac_def serialise_instant instant_of_def utc_datetime_def slift_def sbind_def split: if_splits)
  then have mac: "mac = hmac_hex k (build_hmac_message h did gid (isoformat (utc_datetime now)))"
    using assms(2) compute_audit_hmac_run [OF k(1) wall, of h did gid] by simp
  have "is_ascii (lower mac)" "lower mac = mac"
    using mac by simp_all
  moreover have "accepts_key q k" using assms(3) k(1) by (simp add: trusts_signer_def)
  ultimately show ?thesis
    using verify_record_hmac_run [of mac q h did gid "isoformat (utc_datetime now)"] assms(4-9) wall mac
    by (auto simp: run_hmac_only_verification_def sbind_run slift_def sret_def)
qed

text \<open>
  C1: the audit trail works end to end, whatever the cipher package makes of the keyword
  \<open>aad\<close>. When the audit node has returned and its payload, with the outputs of the pipeline
  state, is then uploaded with the services up, the upload reports success exactly if
  the package takes the keyword; if it does not, as it documents, no row and no object
  changes. In both cases verification of the decision reports a valid record with the
  HMAC check passed, and with the hash check passed exactly if the payload was uploaded.
\<close>

theorem written_record_verifies:
  assumes "write_node now rid st w = (Ok st', w1)"
    and "state_text ''decision_id'' st = Ok (uuid_str did)" and "state_text ''guideline_version_id'' st = Ok (uuid_str gid)"
    and "pa_decision_id a = uuid_str did" and "pa_agent_outputs a = extract_agent_outputs st" and "pa_s3_key a \<noteq> []"
    and "pyval_ok (payload_dict a)" and "is_ok (dumps (payload_dict a))"
    and "db_ready False w" and "w_minio_fault w = None"
    and "aead_correct c" and "length n = 12" and "aes_key_in_use (w_proc w) = Some k" and "length k = 32"
  shows "\<exists>w2 w3 v. upload_audit_payload c n a w1 = (Ok (takes_aad c), w2) \<and>
    (\<not> takes_aad c \<longrightarrow> stored w2 = stored w1) \<and>
    verify_by_decision_id c now' (uuid_str did) False w2 = (Ok v, w3) \<and>
    vr_is_valid v \<and> vr_hash_check_passed v = takes_aad c \<and> vr_hmac_check_passed v \<and>
    vr_minio_payload_available v = takes_aad c \<and> vr_failure_reason v = []"
proof -
  obtain t where t: "dumps (payload_dict a) = Ok t" using assms(8) by (auto simp: is_ok_iff)
  obtain r h mac p where r: "find_audit (w_prod w1) did = Some r" "w_proc w1 = p" "au_decision_id r = did"
      "au_guideline_version_id r = gid" "au_written_at r = now" "au_agent_outputs_hash r = h" "au_record_hmac r = mac"
      "\<not> au_payload_s3_uploaded r"
    and h: "compute_agent_outputs_hash (extract_agent_outputs st) = Ok h"
    and mac: "compute_audit_hmac h (uuid_str did) (uuid_str gid) (utc_datetime now) (w_proc w) = (Ok mac, p)"
    using write_run [OF assms(1-3)] by blast
  have up: "db_ready False w1" "w_minio_fault w1 = None" "aes_key_in_use (w_proc w1) = Some k"
    using write_services [OF assms(1)] assms(9,10,13) by simp_all
  show ?thesis
  proof (cases "takes_aad c")
    case True
    let ?v = "plain (sort_dicts (extract_agent_outputs st))" and ?r = "set_uploaded did (pa_s3_key a) r"
    obtain w2 where w2: "upload_audit_payload c n a w1 = (Ok True, w2)"
        "payload_there c did ?r ?v (p\<lparr>aes_key := Some k\<rparr>) w2"
      using uploaded_payload_there [OF r(1) up(1,2) assms(4,6,7) t assms(11,12) up(3) assms(14) True] assms(5) r(2) by auto
    have "compute_agent_outputs_hash ?v = Ok h"
      using h unfolding extract_agent_outputs_def by (simp only: hash_plain_sort)
    then have "fst (run_full_verification ?r ?v (p\<lparr>aes_key := Some k\<rparr>)) = Ok (True, [])"
      using integrity_signed [OF _ mac refl audit_hmac_signer [OF mac]] r
      by (simp add: run_full_verification_def set_uploaded_def)
    then obtain p3 where "run_full_verification ?r ?v (p\<lparr>aes_key := Some k\<rparr>) = (Ok (True, []), p3)"
      by (metis prod.collapse)
    then show ?thesis
      using True w2 verify_with_payload [OF w2(2), of now'] by (auto simp: read_checks_def verification_report_def)
  next
    case False
    obtain q where q: "upload_audit_payload c n a w1 = (Ok False, w1\<lparr>w_proc := q\<rparr>)" "q = p \<or> q = p\<lparr>aes_key := Some k\<rparr>"
      using upload_refused [OF assms(8) up(3) False] r(2) by blast
    let ?w = "w1\<lparr>w_proc := q\<rparr>"
    obtain x where x: "signing_key (w_proc w) = Some x" "p = (w_proc w)\<lparr>server_hmac_key := Some x\<rparr>"
      using audit_hmac_proc [OF mac] by blast
    have "trusts_signer q (w_proc w)" "signing_key q \<noteq> None"
      using q(2) x audit_hmac_signer [OF mac, of "aes_key p"] audit_hmac_signer [OF mac, of "Some k"] by auto
    then obtain q' where "run_hmac_only_verification r q = (Ok (True, [], False, True), q')"
      using signed_record_hmac_only [OF h mac] r by blast
    moreover have "db_ready False ?w" using up(1) q(2) r(2) by (auto simp: db_ready_def)
    then have "fetch_record (uuid_str did) False ?w = (Ok (r, find_decision (w_prod w1) did), ?w)"
      using fetch_run [of ?w did r] r(1) by simp
    moreover have "fetch_payload c r ?w = (Ok None, ?w)"
      using r(8) by (auto simp: fetch_payload_def split: option.splits list.splits)
    ultimately show ?thesis
      using False q(1)
      by (simp add: verify_by_decision_id_def sbind_run run_verification_def in_proc_run slift_def sret_def
          verification_report_def)
  qed
qed

lemma is_ok_rbind_Ok: "(\<And>v. is_ok (f v)) \<Longrightarrow> is_ok (rbind r f) = is_ok r"
  by (cases r) auto

lemma is_ok_dump_pairs: "is_ok (dump_pairs kvs) \<longleftrightarrow> (\<forall>kv\<in>set kvs. is_ok (dump (snd kv)))"
proof (induction kvs)
  case (Cons kv kvs)
  obtain k v where kv: "kv = (k, v)" by fastforce
  have "is_ok (dump_pairs ((k, v) # kvs)) \<longleftrightarrow> is_ok (dump v) \<and> (kvs = [] \<or> is_ok (dump_pairs kvs))"
    by (cases "dump v"; cases "kvs = []"; cases "dump_pairs kvs") simp_all
  then show ?case using Cons by (auto simp: kv)
qed simp

lemma is_ok_dumps_dict: "is_ok (dumps (PDict kvs)) \<longleftrightarrow> (\<forall>kv\<in>set kvs. is_ok (dumps (snd kv)))"
  by (simp add: dumps_def is_ok_rbind_Ok is_ok_dump_pairs sort_pairs_map)

definition aes_world :: world where
  "aes_world = demo_world\<lparr>w_proc := (w_proc demo_world)\<lparr>aes_key := Some (replicate 32 3)\<rparr>\<rparr>"

lemma write_ready_aes:
  "write_ready now rid st (w\<lparr>w_proc := (w_proc w)\<lparr>aes_key := k\<rparr>\<rparr>) = write_ready now rid st w"
  by (simp add: write_ready_def has_key_def db_ready_def)

lemma aes_world_write: "\<exists>st' w1. write_node 5 7 (demo_state (PFloat ''0.9'')) aes_world = (Ok st', w1)"
proof -
  have "to_float (state_get ''confidence'' (PFloat ''0.0'') (demo_state (PFloat ''0.9''))) = Ok (PFloat ''0.9'')"
    by (simp add: demo_state_def state_get_def dict_get_def)
  moreover have "write_ready 5 7 (demo_state (PFloat ''0.9'')) aes_world"
    by (simp add: aes_world_def write_ready_aes demo_write_ready)
  ultimately show ?thesis
    using write_ready_run [of 5 7 "demo_state (PFloat ''0.9'')" aes_world] by (auto simp: write_node_def)
qed

definition demo_payload :: payload_args where
  "demo_payload = \<lparr>pa_decision_id = uuid_str 2, pa_application_id = uuid_str 1, pa_guideline_version_id = uuid_str 3,
     pa_written_at = utc_datetime 5, pa_agent_outputs = extract_agent_outputs (demo_state (PFloat ''0.9'')),
     pa_outcome = PStr ''APPROVE'', pa_confidence = PFloat ''0.9'', pa_rationale_chain = PList [], pa_s3_key = ''k''\<rparr>"

lemma demo_payload_ok: "pyval_ok (payload_dict demo_payload)" "is_ok (dumps (payload_dict demo_payload))"
proof -
  have e: "extract_agent_outputs (demo_state (PFloat ''0.9'')) = PDict [(''document'', PDict [(''score'', PFloat ''0.9'')]),
      (''sanctions'', PNone), (''temporal'', PNone), (''transaction'', PNone), (''rag'', PNone)]"
    by (simp add: extract_agent_outputs_def demo_state_def state_get_def dict_get_def serialise_agent_result_def)
  have "float_text ''0.9''" by code_simp
  then show "pyval_ok (payload_dict demo_payload)" by (simp add: payload_dict_def demo_payload_def e)
  have atoms: "is_ok (dumps (PStr s))" "is_ok (dumps (PFloat s))" "is_ok (dumps PNone)" "is_ok (dumps (PList []))" for s
    by (simp_all add: dumps_def)
  show "is_ok (dumps (payload_dict demo_payload))"
    by (simp add: payload_dict_def demo_payload_def e is_ok_dumps_dict atoms)
qed

theorem written_record_verifies_witness:
  "\<exists>st' w1 w2 w3 v. write_node 5 7 (demo_state (PFloat ''0.9'')) aes_world = (Ok st', w1) \<and>
     upload_audit_payload documented_aead (replicate 12 1) demo_payload w1 = (Ok False, w2) \<and>
     verify_by_decision_id documented_aead 6 (uuid_str 2) False w2 = (Ok v, w3) \<and> vr_is_valid v"
proof -
  obtain st' w1 where run: "write_node 5 7 (demo_state (PFloat ''0.9'')) aes_world = (Ok st', w1)"
    using aes_world_write by blast
  have ids: "state_text ''decision_id'' (demo_state (PFloat ''0.9'')) = Ok (uuid_str 2)"
    "state_text ''guideline_version_id'' (demo_state (PFloat ''0.9'')) = Ok (uuid_str 3)"
    by (simp_all add: demo_state_def state_text_def dict_get_def)
  have args: "pa_decision_id demo_payload = uuid_str 2" "pa_s3_key demo_payload \<noteq> []"
    "pa_agent_outputs demo_payload = extract_agent_outputs (demo_state (PFloat ''0.9''))"
    by (simp_all add: demo_payload_def)
  have "db_ready False demo_world" by (simp add: demo_world_def)
  then have up: "db_ready False aes_world" "w_minio_fault aes_world = None"
    "aes_key_in_use (w_proc aes_world) = Some (replicate 32 3)"
    by (simp_all add: aes_world_def db_ready_def demo_world_def)
  show ?thesis
    using written_record_verifies [OF run ids args(1,3,2) demo_payload_ok up(1,2) documented_aead_facts(1) _ up(3), of "replicate 12 1" 6]
      run documented_aead_facts(2) by auto
qed

text \<open>
  a hash mismatch is reported with the HMAC check passed. When the payload's
  outputs do not hash to the stored value, the report is invalid with the hash
  check failed, and it says that the HMAC check passed although the HMAC is never
  computed: whatever the stored HMAC is.
\<close>

theorem mismatch_reports_hmac_passed:
  assumes "payload_there c did r v p w" and "compute_agent_outputs_hash v = Ok h" and "lower (au_agent_outputs_hash r) \<noteq> h"
    and "set (lower (au_agent_outputs_hash r)) \<subseteq> hex_chars"
  shows "\<exists>rep w'. verify_by_decision_id c now (uuid_str did) False w = (Ok rep, w') \<and>
    \<not> vr_is_valid rep \<and> \<not> vr_hash_check_passed rep \<and> vr_hmac_check_passed rep"
proof -
  obtain t where t: "dumps v = Ok t" "t \<noteq> []" "h = sha256_hex (utf8 t)" using hash_Ok [OF assms(2)] by blast
  have "set h \<subseteq> hex_chars" using t(3) set_hexlify by (simp add: sha256_hex_def)
  then have reason: "read_checks (False, hash_mismatch_reason (au_agent_outputs_hash r) h) =
      (False, hash_mismatch_reason (au_agent_outputs_hash r) h, False, True)"
    using mismatch_is_hash mismatch_not_hmac [OF assms(4)] t(3)
    by (simp add: read_checks_def)
  have "is_ascii (lower (au_agent_outputs_hash r))"
    using assms(4) by (auto simp: is_ascii_def list_all_iff code_point_def)
  then have "rbind (canonical_json v) (\<lambda>data. verify_sha256 data (au_agent_outputs_hash r)) = Ok False"
    using t assms(3) by (auto simp: canonical_json_def verify_sha256_def compute_sha256_def compare_digest_def)
  then have "run_full_verification r v p = (Ok (False, hash_mismatch_reason (au_agent_outputs_hash r) h), p)"
    using assms(2) by (simp add: run_full_verification_def verify_audit_record_integrity_def sbind_run slift_def sret_def)
  then show ?thesis
    using verify_with_payload [OF assms(1), of now] reason by (simp add: verification_report_def)
qed

text \<open>
  a record whose payload was emptied disappears from the application's
  report. With an empty \<open>agent_outputs\<close> in the stored payload the verification of
  the decision raises instead of reporting a failure, and when it is the only
  record of its application, verification of the application returns no result.
\<close>

theorem emptied_payload_left_out:
  assumes "payload_there c did r (PDict []) p w"
    and "filter (\<lambda>r. au_application_id r = aid) (t_audit_records (w_prod w)) = [r]"
  shows "fst (verify_by_decision_id c now (uuid_str did) False w) = Raise (ValueError ''agent_outputs must not be empty.'') \<and>
    fst (verify_by_application_id c now (uuid_str aid) False w) = Ok []"
proof -
  have "run_full_verification r (PDict []) p = (Raise (ValueError ''agent_outputs must not be empty.''), p)"
    by (simp add: run_full_verification_def verify_audit_record_integrity_def compute_agent_outputs_hash_def
        hash_agent_outputs_def sbind_run slift_def)
  then have one: "verify_by_decision_id c now (uuid_str did) False w =
      (Raise (ValueError ''agent_outputs must not be empty.''), w\<lparr>w_proc := p\<rparr>)"
    using verify_with_payload [OF assms(1), of now] by simp
  have ready: "db_ready False w" and "find_audit (w_prod w) did = Some r" using assms(1) by (simp_all add: payload_there_def)
  then have "au_decision_id r = did" by (auto simp: find_audit_def find_Some_iff)
  then have "verify_each c now False [r] w = ([], w\<lparr>w_proc := p\<rparr>)" using one by simp
  then have "fst (verify_by_application_id c now (uuid_str aid) False w) = Ok []"
    using assms(2) ready
    by (simp add: verify_by_application_id_def sbind_run slift_def get_engine_for_context_def db_ready_def Let_def
        query_ready select_db_def split: prod.splits)
  then show ?thesis using one by simp
qed

text \<open>
  without the payload only the HMAC counts. When a record's payload is not
  in the store, a report is valid exactly when the stored HMAC is that of the
  stored fields under an accepted key, and always has the hash check not passed.
\<close>

theorem partial_verification:
  assumes "db_ready False w" and "find_audit (w_prod w) did = Some r" and "\<not> au_payload_s3_uploaded r"
    and "is_ascii (lower (au_record_hmac r))" and "signing_key (w_proc w) \<noteq> None" and "valid_wall (au_written_at r)"
  shows "\<exists>rep w'. verify_by_decision_id c now (uuid_str did) False w = (Ok rep, w') \<and>
    (vr_is_valid rep \<longleftrightarrow> (\<exists>k. accepts_key (w_proc w) k \<and> lower (au_record_hmac r) =
       hmac_hex k (build_hmac_message (au_agent_outputs_hash r) (uuid_str did) (uuid_str (au_guideline_version_id r))
         (isoformat (utc_datetime (au_written_at r)))))) \<and>
    vr_hmac_check_passed rep = vr_is_valid rep \<and> \<not> vr_hash_check_passed rep"
proof -
  have did: "au_decision_id r = did" using assms(2) by (auto simp: find_audit_def find_Some_iff)
  have "fetch_payload c r w = (Ok None, w)"
    using assms(3) by (auto simp: fetch_payload_def split: option.splits list.splits)
  then show ?thesis
    using fetch_run [OF assms(1,2)] assms(6) did
      verify_record_hmac_run [OF assms(4,5), of "au_agent_outputs_hash r" "uuid_str did"
        "uuid_str (au_guideline_version_id r)" "isoformat (utc_datetime (au_written_at r))"]
    by (auto simp: verify_by_decision_id_def sbind_run run_verification_def run_hmac_only_verification_def in_proc_run
        slift_def sret_def verification_report_def)
qed

section \<open>Witnesses\<close>

definition sealed :: "string \<Rightarrow> bytes" where
  "sealed t = version_byte # replicate 12 1 @ utf8 t @ replicate 16 0"

lemma decrypt_sealed:
  assumes "t \<noteq> []" and "aes_key_in_use p = Some k"
  shows "decrypt_payload plain_aead (sealed t) p = (Ok (utf8 t), p\<lparr>aes_key := Some k\<rparr>)"
proof -
  have "utf8 t \<noteq> []" using assms(1) by simp
  then have "is_encrypted (sealed t)" by (cases "utf8 t") (auto simp: is_encrypted_def sealed_def)
  then show ?thesis
    using decrypt_run [of "sealed t" p k plain_aead] assms(2)
    by (simp add: sealed_def wire_nonce_def wire_body_def plain_aead_def aesgcm_decrypt_def takes_aad_def)
qed

definition stored_record :: "bool \<Rightarrow> audit_record" where
  "stored_record up = (new_audit_record 7 2 1 3 [] ''00'' ''00'' ''k'' 5 False)\<lparr>au_payload_s3_uploaded := up\<rparr>"

definition payload_world :: "bool \<Rightarrow> string \<Rightarrow> world" where
  "payload_world up t = aes_world\<lparr>w_prod := demo_db\<lparr>t_audit_records := [stored_record up]\<rparr>, w_minio := (\<lambda>_. Some (sealed t))\<rparr>"

lemma payload_world_ready:
  "db_ready False (payload_world up t)" "find_audit (w_prod (payload_world up t)) 2 = Some (stored_record up)"
  "w_minio_fault (payload_world up t) = None" "w_proc (payload_world up t) = w_proc aes_world"
proof -
  have "db_ready False demo_world" by (simp add: demo_world_def)
  then show "db_ready False (payload_world up t)" by (simp add: payload_world_def aes_world_def db_ready_def)
qed (simp_all add: payload_world_def find_audit_def stored_record_def new_audit_record_def aes_world_def demo_world_def)

lemma payload_world_there:
  assumes "dumps (PDict [(''agent_outputs'', v)]) = Ok t" and "pyval_ok v"
  shows "payload_there plain_aead 2 (stored_record True) (plain (sort_dicts v)) (w_proc aes_world) (payload_world True t)"
proof -
  have l: "loads t = Ok (PDict [(''agent_outputs'', plain (sort_dicts v))])"
    using loads_dumps [OF assms(1)] assms(2) by simp
  then have "t \<noteq> []" by (auto simp: loads_def skip_ws_def parse_literal_def literals_def)
  then have "decrypt_payload plain_aead (sealed t) (w_proc aes_world) = (Ok (utf8 t), w_proc aes_world)"
    using decrypt_sealed [of t "w_proc aes_world" "replicate 32 3"] by (simp add: aes_world_def)
  then show ?thesis
    using payload_world_ready [of True t] l
    unfolding payload_there_def
    by (intro conjI exI [of _ "''k''"] exI [of _ "sealed t"] exI [of _ t] exI [of _ "[(''agent_outputs'', plain (sort_dicts v))]"])
      (simp_all add: stored_record_def new_audit_record_def, simp_all add: payload_world_def dict_get_def)
qed

lemma dumps_agent_outputs: "is_ok (dumps v) \<Longrightarrow> \<exists>t. dumps (PDict [(''agent_outputs'', v)]) = Ok t"
  using is_ok_dumps_dict [of "[(''agent_outputs'', v)]"] by (auto simp: is_ok_iff)

theorem mismatch_reports_hmac_passed_witness:
  "\<exists>t rep w'. verify_by_decision_id plain_aead 6 (uuid_str 2) False (payload_world True t) = (Ok rep, w') \<and>
     \<not> vr_is_valid rep \<and> vr_hmac_check_passed rep"
proof -
  let ?v = "PDict [(''a'', PInt 1)]"
  have ok: "is_ok (dumps ?v)" by (simp add: dumps_def)
  obtain t where t: "dumps (PDict [(''agent_outputs'', ?v)]) = Ok t" using dumps_agent_outputs [OF ok] by blast
  have there: "payload_there plain_aead 2 (stored_record True) ?v (w_proc aes_world) (payload_world True t)"
    using payload_world_there [OF t] by simp
  obtain u where u: "dumps ?v = Ok u" "u \<noteq> []" by (simp add: dumps_def)
  then have h: "compute_agent_outputs_hash ?v = Ok (sha256_hex (utf8 u))"
    by (simp add: compute_agent_outputs_hash_def hash_agent_outputs_def canonical_json_def compute_sha256_def)
  have s: "lower (au_agent_outputs_hash (stored_record True)) = ''00''"
    unfolding stored_record_def new_audit_record_def by (simp, code_simp)
  have "length ''00'' \<noteq> length (sha256_hex (utf8 u))" by simp
  then have "''00'' \<noteq> sha256_hex (utf8 u)" by metis
  then show ?thesis
    using mismatch_reports_hmac_passed [OF there h, of 6] s by fastforce
qed

theorem emptied_payload_left_out_witness:
  "\<exists>t. fst (verify_by_application_id plain_aead 6 (uuid_str 1) False (payload_world True t)) = Ok []"
proof -
  obtain t where t: "dumps (PDict [(''agent_outputs'', PDict [])]) = Ok t"
    using dumps_agent_outputs [of "PDict []"] by (auto simp: dumps_def)
  have "payload_there plain_aead 2 (stored_record True) (PDict []) (w_proc aes_world) (payload_world True t)"
    using payload_world_there [OF t] by simp
  moreover have "filter (\<lambda>r. au_application_id r = 1) (t_audit_records (w_prod (payload_world True t))) = [stored_record True]"
    by (simp add: payload_world_def stored_record_def new_audit_record_def)
  ultimately show ?thesis using emptied_payload_left_out by blast
qed

theorem partial_verification_witness:
  "\<exists>rep w'. verify_by_decision_id plain_aead 6 (uuid_str 2) False (payload_world False []) = (Ok rep, w') \<and>
     \<not> vr_hash_check_passed rep"
proof -
  have "signing_key (w_proc aes_world) = signing_key (w_proc demo_world)" by (simp add: aes_world_def)
  then have "signing_key (w_proc (payload_world False [])) \<noteq> None"
    using demo_world_key payload_world_ready(4) by (simp add: has_key_def)
  moreover have "is_ascii (lower ''00'')" by code_simp
  then have "is_ascii (lower (au_record_hmac (stored_record False)))" by (simp add: stored_record_def new_audit_record_def)
  moreover have "valid_wall (au_written_at (stored_record False))" "\<not> au_payload_s3_uploaded (stored_record False)"
    by (simp_all add: stored_record_def new_audit_record_def valid_wall_def max_wall_def)
  ultimately show ?thesis
    using partial_verification [OF payload_world_ready(1,2) , of False "[]"] by blast
qed

text \<open>
  verification only reads. Whether it succeeds or raises, whatever records and
  payloads it meets, verifying a decision or an application changes no row of
  either database, no stored object and sends nothing; it can only fill the key
  caches of the process.
\<close>

theorem verification_only_reads:
  "stored (snd (verify_by_decision_id c now t is_demo w)) = stored w \<and>
   stored (snd (verify_by_application_id c now t is_demo w)) = stored w"
proof -
  have "stored w' = stored w0" if "verify_each c now is_demo rs w0 = (vs, w')" for rs vs w0 w'
    using verify_each_reads [of c now is_demo rs w0] that by simp
  then have "stored (snd (verify_by_application_id c now t is_demo w)) = stored w"
    by (auto simp: verify_by_application_id_def intro!: sbind_stored split: prod.splits)
  then show ?thesis using verify_reads by simp
qed

end
