(* ===== verification/Dpdp.thy ===== *)
theory Dpdp
  imports Models PyUuid
begin

text \<open>
  What the DPDP modules share: integers read from the environment, shifts of
  instants, and the interface of a row operation that takes a row out of the
  set of rows still to be handled (wiping an application, flagging a record).
\<close>

section \<open>Integers from the environment\<close>

definition env_int :: "string \<Rightarrow> string \<Rightarrow> proc \<Rightarrow> int result" where
  "env_int name dflt p = py_int (get_or name (os_environ p) dflt)"

section \<open>Shifted instants\<close>

text \<open>\<open>t + timedelta\<close>, in microseconds.\<close>

definition shift :: "int \<Rightarrow> int \<Rightarrow> int result" where
  "shift t d = (if valid_wall (t + d) then Ok (t + d)
     else Raise (OtherExn ''OverflowError'' ''date value out of range''))"

abbreviation usec_per_second :: int where
  "usec_per_second \<equiv> 1000000"

section \<open>Draining a table\<close>

text \<open>
  A batch handles the rows whose keys it has read. The operation takes a row out
  of the target set and keeps its key, so every batch that handles a target row
  leaves fewer of them, and a row that is not in the batch is untouched.
\<close>

definition on_rows :: "('r \<Rightarrow> 'k) \<Rightarrow> 'k set \<Rightarrow> ('r \<Rightarrow> 'r) \<Rightarrow> 'r list \<Rightarrow> 'r list" where
  "on_rows key K f rs = map (\<lambda>r. if key r \<in> K then f r else r) rs"

locale row_drain =
  fixes target :: "'r \<Rightarrow> bool"
    and work :: "'r \<Rightarrow> 'r"
    and key :: "'r \<Rightarrow> 'k"
  assumes work_done: "\<not> target (work r)"
    and work_key: "key (work r) = key r"
begin

lemma keys_kept: "map key (on_rows key K work rs) = map key rs"
  by (simp add: on_rows_def work_key)

lemma target_rows: "filter target (on_rows key K work rs) = filter (\<lambda>r. target r \<and> key r \<notin> K) rs"
  by (induction rs) (auto simp: on_rows_def work_done)

lemma drain_less:
  assumes "r \<in> set rs" and "target r" and "key r \<in> K"
  shows "length (filter target (on_rows key K work rs)) < length (filter target rs)"
proof -
  have "filter target (on_rows key K work rs) = filter (\<lambda>r. key r \<notin> K) (filter target rs)"
    by (simp add: target_rows conj_commute)
  moreover have "length (filter (\<lambda>r. key r \<notin> K) (filter target rs)) < length (filter target rs)"
    by (rule length_filter_less [of r]) (use assms in simp_all)
  ultimately show ?thesis by metis
qed

lemma drain_all: "\<forall>r\<in>set rs. target r \<longrightarrow> key r \<in> K \<Longrightarrow> filter target (on_rows key K work rs) = []"
  by (auto simp: target_rows filter_empty_conv)

lemma done_keys:
  "key ` {r \<in> set (on_rows key K work rs). \<not> target r} = key ` {r \<in> set rs. \<not> target r} \<union> (K \<inter> key ` set rs)"
proof (induction rs)
  case (Cons r rs)
  have eq: "{x \<in> set (y # ys). \<not> target x} = (if target y then {} else {y}) \<union> {x \<in> set ys. \<not> target x}" for y ys
    by auto
  have "on_rows key K work (r # rs) = (if key r \<in> K then work r else r) # on_rows key K work rs"
    by (simp add: on_rows_def)
  then show ?case
    using Cons by (simp only: eq image_Un) (auto simp: work_done work_key)
qed (simp add: on_rows_def)

lemma untouched: "r \<in> set rs \<Longrightarrow> key r \<notin> K \<Longrightarrow> r \<in> set (on_rows key K work rs)"
  by (auto simp: on_rows_def intro!: image_eqI [of _ _ r])

end

section \<open>A plain process\<close>

definition plain_proc :: proc where
  "plain_proc = \<lparr>os_environ = [], server_hmac_key = None, server_hmac_key_previous = None, pan_hmac_key = None, aes_key = None,
     secret_cache = [], secrets_loaded = False\<rparr>"

end
