(* ===== verification/Retention.thy ===== *)
theory Retention
  imports Dpdp Verifier
begin

text \<open>
  \<open>dpdp/retention_enforcer.py\<close>: the daily wipe of expired personal data, the
  deletion of the stored payloads and the expiry date of a new application.

  One clock reading stands for a transaction's clock and for the \<open>updated_at\<close>
  trigger. What a batch meets is its \<open>batch_env\<close>: the clock, the rows locked by
  others (skipped), and the rows on which creating the event or writing the log
  line raises. The primary keys of the new events are drawn by \<open>event_id\<close>.
\<close>

section \<open>One application\<close>

definition wipe_application :: "int \<Rightarrow> application \<Rightarrow> application" where
  "wipe_application now a =
     a\<lparr>ap_payload_encrypted := None, ap_collateral_value := None, ap_city_tier := None,
       ap_retention_wiped := True, ap_retention_wiped_at := Some now, ap_updated_at := now\<rparr>"

definition fields_wiped :: "application \<Rightarrow> string list" where
  "fields_wiped a =
     (if ap_payload_encrypted a \<noteq> None then [''payload_encrypted''] else []) @
     (if ap_collateral_value a \<noteq> None then [''collateral_value''] else []) @
     (if ap_city_tier a \<noteq> None then [''city_tier''] else [])"

definition fields_text :: "string list \<Rightarrow> string" where
  "fields_text fs = (if fs \<noteq> [] then join '','' fs else ''none'')"

definition wipe_event :: "(uuid \<Rightarrow> uuid) \<Rightarrow> int \<Rightarrow> string \<Rightarrow> int \<Rightarrow> application \<Rightarrow> retention_event" where
  "wipe_event event_id now task_run_id days a =
     \<lparr>re_id = event_id (ap_id a), re_application_id = ap_id a, re_wiped_at = now,
      re_wipe_task_run_id = task_run_id, re_fields_wiped = fields_text (fields_wiped a),
      re_retention_policy_days = days,
      re_data_retention_expires_at_snapshot = ap_data_retention_expires_at a\<rparr>"

interpretation wipe: row_drain "\<lambda>a. \<not> ap_retention_wiped a" "wipe_application now" ap_id for now
  by unfold_locales (simp_all add: wipe_application_def)

section \<open>One batch\<close>

datatype wipe_fault = No_Fault | Event_Fault | Log_Fault

record batch_env =
  be_now :: int
  be_locked :: "uuid \<Rightarrow> bool"
  be_fault :: "uuid \<Rightarrow> wipe_fault"

definition wipe_batch_size :: nat where
  "wipe_batch_size = 500"

definition expired :: "int \<Rightarrow> application \<Rightarrow> bool" where
  "expired now a \<longleftrightarrow> ap_data_retention_expires_at a < now \<and> \<not> ap_retention_wiped a \<and> \<not> ap_is_demo a"

definition batch_rows :: "batch_env \<Rightarrow> nat \<Rightarrow> db \<Rightarrow> application list" where
  "batch_rows env n d = take n (filter (\<lambda>a. expired (be_now env) a \<and> \<not> be_locked env (ap_id a)) (t_applications d))"

text \<open>
  The row is wiped before its event is created, and counted before it is logged;
  an exception adds to the errors and the loop goes on.
\<close>

definition wipe_rows :: "(uuid \<Rightarrow> uuid) \<Rightarrow> batch_env \<Rightarrow> string \<Rightarrow> int \<Rightarrow> application list \<Rightarrow> db \<Rightarrow> db" where
  "wipe_rows event_id env task_run_id days rows d =
     d\<lparr>t_applications := on_rows ap_id (ap_id ` set rows) (wipe_application (be_now env)) (t_applications d),
       t_retention_events := t_retention_events d @
         map (wipe_event event_id (be_now env) task_run_id days)
           (filter (\<lambda>a. be_fault env (ap_id a) \<noteq> Event_Fault) rows)\<rparr>"

definition wiped_in :: "batch_env \<Rightarrow> application list \<Rightarrow> nat" where
  "wiped_in env rows = length (filter (\<lambda>a. be_fault env (ap_id a) \<noteq> Event_Fault) rows)"

definition errors_in :: "batch_env \<Rightarrow> application list \<Rightarrow> nat" where
  "errors_in env rows = length (filter (\<lambda>a. be_fault env (ap_id a) \<noteq> No_Fault) rows)"

definition wipe_batch :: "(uuid \<Rightarrow> uuid) \<Rightarrow> batch_env \<Rightarrow> string \<Rightarrow> nat \<Rightarrow> (world, nat \<times> nat) step" where
  "wipe_batch event_id env task_run_id batch_size w =
     sbind (slift (env_int ''DPDP_DEFAULT_RETENTION_DAYS'' ''90'' (w_proc w))) (\<lambda>days.
       in_session False (\<lambda>d.
         let rows = batch_rows env batch_size d in
         if rows = [] then Ok ((0, 0), d)
         else Ok ((wiped_in env rows, errors_in env rows), wipe_rows event_id env task_run_id days rows d))) w"

definition unwiped :: "world \<Rightarrow> nat" where
  "unwiped w = length (filter (\<lambda>a. \<not> ap_retention_wiped a) (t_applications (w_prod w)))"

lemma batch_rows_expired:
  "a \<in> set (batch_rows env n d) \<Longrightarrow>
     a \<in> set (t_applications d) \<and> expired (be_now env) a \<and> \<not> be_locked env (ap_id a)"
  by (auto simp: batch_rows_def dest: in_set_takeD)

lemma wipe_batch_cases:
  obtains (raised) e where "wipe_batch event_id env run n w = (Raise e, w)"
  | (none) "batch_rows env n (w_prod w) = []" "wipe_batch event_id env run n w = (Ok (0, 0), w)"
  | (some) days where "batch_rows env n (w_prod w) \<noteq> []"
      "env_int ''DPDP_DEFAULT_RETENTION_DAYS'' ''90'' (w_proc w) = Ok days"
      "wipe_batch event_id env run n w =
        (Ok (wiped_in env (batch_rows env n (w_prod w)), errors_in env (batch_rows env n (w_prod w))),
         w\<lparr>w_prod := wipe_rows event_id env run days (batch_rows env n (w_prod w)) (w_prod w)\<rparr>)"
proof (cases "env_int ''DPDP_DEFAULT_RETENTION_DAYS'' ''90'' (w_proc w)")
  case (Inl e)
  then show ?thesis by (intro raised) (simp add: wipe_batch_def sbind_run slift_def)
next
  case (Inr days)
  let ?body = "\<lambda>d. let rows = batch_rows env n d in
         if rows = [] then Ok ((0, 0), d)
         else Ok ((wiped_in env rows, errors_in env rows), wipe_rows event_id env run days rows d)"
  have run: "wipe_batch event_id env run n w = in_session False ?body w"
    using Inr by (simp add: wipe_batch_def sbind_run slift_def)
  show ?thesis
  proof (cases "db_ready False w")
    case False
    then obtain e where "in_session False ?body w = (Raise e, w)" using in_session_not_ready by blast
    then show ?thesis using run by (intro raised) simp
  next
    case True
    show ?thesis
    proof (cases "batch_rows env n (w_prod w) = []")
      case empty: True
      then have "wipe_batch event_id env run n w = (Ok (0, 0), w)"
        using run True by (simp add: in_session_ready select_db_def store_db_def)
      with empty show ?thesis by (rule none)
    next
      case False
      then show ?thesis using run True Inr
        by (intro some) (simp_all add: in_session_ready select_db_def store_db_def Let_def)
    qed
  qed
qed

lemma wipe_batch_less:
  assumes "wipe_batch event_id env run n w = (Ok (k, e), w')" and "k \<noteq> 0"
  shows "unwiped w' < unwiped w"
proof (cases rule: wipe_batch_cases [of event_id env run n w])
  case (some days)
  then obtain a where a: "a \<in> set (batch_rows env n (w_prod w))" by (cases "batch_rows env n (w_prod w)") auto
  have "length (filter (\<lambda>a. \<not> ap_retention_wiped a)
      (on_rows ap_id (ap_id ` set (batch_rows env n (w_prod w))) (wipe_application (be_now env)) (t_applications (w_prod w))))
      < length (filter (\<lambda>a. \<not> ap_retention_wiped a) (t_applications (w_prod w)))"
    by (rule wipe.drain_less [of a]) (use a batch_rows_expired [OF a] in \<open>auto simp: expired_def\<close>)
  then show ?thesis using some assms(1) by (simp add: unwiped_def wipe_rows_def)
qed (use assms in simp_all)

section \<open>The run\<close>

text \<open>The loop goes on while a batch wiped something; every such batch leaves fewer rows to wipe.\<close>

function wipe_loop ::
  "(uuid \<Rightarrow> uuid) \<Rightarrow> (nat \<Rightarrow> batch_env) \<Rightarrow> string \<Rightarrow> nat \<Rightarrow> nat \<times> nat \<Rightarrow> world \<Rightarrow> (nat \<times> nat) result \<times> world" where
  "wipe_loop event_id envs run i totals w =
     (case wipe_batch event_id (envs i) run wipe_batch_size w of
        (Inl e, w') \<Rightarrow> (Raise e, w')
      | (Inr (k, errs), w') \<Rightarrow>
          if k = 0 then (Ok (fst totals + k, snd totals + errs), w')
          else wipe_loop event_id envs run (Suc i) (fst totals + k, snd totals + errs) w')"
  by pat_completeness auto
termination
  by (relation "measure (\<lambda>(_, _, _, _, _, w). unwiped w)") (auto dest: sym intro: wipe_batch_less)

declare wipe_loop.simps [simp del]

record wipe_stats =
  ws_wiped_count :: nat
  ws_error_count :: nat
  ws_duration_seconds :: int
  ws_task_run_id :: string

definition run_stamp :: "int \<Rightarrow> string" where
  "run_stamp now = (case dt_ymd (utc_datetime now) of (y, m, d) \<Rightarrow>
     let s = nat (now mod usec_per_day) div 1000000
     in nat_str y @ pad_nat 2 m @ pad_nat 2 d @ ''T'' @
        pad_nat 2 (s div 3600) @ pad_nat 2 (s div 60 mod 60) @ pad_nat 2 (s mod 60))"

text \<open>\<open>int(seconds)\<close> truncates towards zero.\<close>

definition whole_seconds :: "int \<Rightarrow> int" where
  "whole_seconds usec = sgn usec * (\<bar>usec\<bar> div usec_per_second)"

definition run_retention_wipe ::
  "(uuid \<Rightarrow> uuid) \<Rightarrow> (nat \<Rightarrow> batch_env) \<Rightarrow> int \<Rightarrow> int \<Rightarrow> (world, wipe_stats) step" where
  "run_retention_wipe event_id envs start_time end_time w =
     (let task_run_id = ''retention-'' @ run_stamp start_time in
      case wipe_loop event_id envs task_run_id 0 (0, 0) w of
        (Inl e, w') \<Rightarrow> (Raise e, w')
      | (Inr (wiped, errs), w') \<Rightarrow>
          (Ok \<lparr>ws_wiped_count = wiped, ws_error_count = errs,
               ws_duration_seconds = whole_seconds (end_time - start_time), ws_task_run_id = task_run_id\<rparr>, w'))"

section \<open>Payload objects\<close>

text \<open>An \<open>S3Error\<close> of one key is counted; any other exception ends the deletion.\<close>

fun remove_keys :: "string \<Rightarrow> string list \<Rightarrow> nat \<times> nat \<Rightarrow> world \<Rightarrow> (nat \<times> nat) result \<times> world" where
  "remove_keys bucket [] (deleted, errs) w = (Ok (deleted, errs), w)"
| "remove_keys bucket (k # ks) (deleted, errs) w =
     (case w_minio_fault w of
        None \<Rightarrow> remove_keys bucket ks (deleted + 1, errs) (w\<lparr>w_minio := (w_minio w)((bucket, k) := None)\<rparr>)
      | Some (OtherExn cls m) \<Rightarrow>
          if cls = ''S3Error'' then remove_keys bucket ks (deleted, errs + 1) w else (Ok (deleted, errs + 1), w)
      | Some e \<Rightarrow> (Ok (deleted, errs + 1), w))"

fun parse_all :: "string list \<Rightarrow> uuid list result" where
  "parse_all [] = Ok []"
| "parse_all (s # ss) = rbind (parse_uuid s) (\<lambda>u. rbind (parse_all ss) (\<lambda>us. Ok (u # us)))"

definition stored_keys :: "uuid list \<Rightarrow> db \<Rightarrow> string list" where
  "stored_keys aids d =
     map (\<lambda>r. the (au_payload_s3_key r))
       (filter (\<lambda>r. au_application_id r \<in> set aids \<and> au_payload_s3_key r \<noteq> None \<and> au_payload_s3_uploaded r)
         (t_audit_records d))"

definition wipe_minio_payloads :: "string list \<Rightarrow> (world, nat \<times> nat) step" where
  "wipe_minio_payloads application_ids w =
     (case (sbind (get_engine_for_context False) (\<lambda>_.
            sbind (slift (parse_all application_ids)) (\<lambda>aids.
            query False (\<lambda>d. Ok (stored_keys aids d))))) w of
        (Inl e, w') \<Rightarrow> (Ok (0, 1), w')
      | (Inr keys, w') \<Rightarrow> remove_keys (audit_bucket w') keys (0, 0) w')"

section \<open>Expiry dates\<close>

text \<open>\<open>retention_days or int(env)\<close>: zero days count as no override.\<close>

definition compute_retention_expiry :: "proc \<Rightarrow> datetime \<Rightarrow> int option \<Rightarrow> datetime result" where
  "compute_retention_expiry p decision_date retention_days =
     rbind (case retention_days of
              Some n \<Rightarrow> if n \<noteq> 0 then Ok n else env_int ''DPDP_DEFAULT_RETENTION_DAYS'' ''90'' p
            | None \<Rightarrow> env_int ''DPDP_DEFAULT_RETENTION_DAYS'' ''90'' p) (\<lambda>days.
     rbind (shift (dt_wall decision_date) (days * usec_per_day)) (\<lambda>t. Ok (decision_date\<lparr>dt_wall := t\<rparr>)))"

section \<open>What a run changes\<close>

text \<open>A row of an application before and after: the same, or wiped after its expiry.\<close>

definition wiped_step :: "application \<Rightarrow> application \<Rightarrow> bool" where
  "wiped_step a a' \<longleftrightarrow> a' = a \<or> (\<exists>now. expired now a \<and> a' = wipe_application now a)"

lemma wiped_step_trans: "wiped_step a b \<Longrightarrow> wiped_step b c \<Longrightarrow> wiped_step a c"
  by (auto simp: wiped_step_def expired_def wipe_application_def)

lemma wiped_steps_trans:
  "list_all2 wiped_step xs ys \<Longrightarrow> list_all2 wiped_step ys zs \<Longrightarrow> list_all2 wiped_step xs zs"
  using list_all2_trans [of wiped_step wiped_step wiped_step] wiped_step_trans by blast

text \<open>Everything of a world but its applications and retention events.\<close>

definition beyond_wipe :: "world \<Rightarrow> world" where
  "beyond_wipe w = w\<lparr>w_prod := (w_prod w)\<lparr>t_applications := [], t_retention_events := []\<rparr>\<rparr>"

definition wiped_ids :: "world \<Rightarrow> uuid set" where
  "wiped_ids w = ap_id ` {a \<in> set (t_applications (w_prod w)). ap_retention_wiped a}"

definition events_for :: "world \<Rightarrow> world \<Rightarrow> retention_event list \<Rightarrow> bool" where
  "events_for w w' new \<longleftrightarrow> t_retention_events (w_prod w') = t_retention_events (w_prod w) @ new"

lemma batch_step:
  assumes "distinct (map ap_id (t_applications (w_prod w)))" and "wipe_batch event_id env run n w = (r, w')"
  shows "list_all2 wiped_step (t_applications (w_prod w)) (t_applications (w_prod w'))"
    and "beyond_wipe w' = beyond_wipe w"
proof -
  have same: "list_all2 wiped_step xs xs" for xs by (simp add: list_all2_same wiped_step_def)
  have rows: "wiped_step a (if ap_id a \<in> ap_id ` set (batch_rows env n (w_prod w)) then wipe_application (be_now env) a else a)"
    if "a \<in> set (t_applications (w_prod w))" for a
  proof (cases "ap_id a \<in> ap_id ` set (batch_rows env n (w_prod w))")
    case True
    then obtain b where b: "b \<in> set (batch_rows env n (w_prod w))" "ap_id a = ap_id b" by auto
    then have "a = b"
      using assms(1) that batch_rows_expired [OF b(1)] by (auto simp: distinct_map inj_on_def)
    then show ?thesis using b batch_rows_expired [OF b(1)] by (auto simp: wiped_step_def)
  qed (simp add: wiped_step_def)
  show "list_all2 wiped_step (t_applications (w_prod w)) (t_applications (w_prod w'))"
    using assms(2) same rows
    by (cases rule: wipe_batch_cases [of event_id env run n w])
      (auto simp: wipe_rows_def on_rows_def list_all2_map2 list_all2_same)
  show "beyond_wipe w' = beyond_wipe w"
    using assms(2) by (cases rule: wipe_batch_cases [of event_id env run n w])
      (auto simp: wipe_rows_def beyond_wipe_def)
qed

lemma wiped_steps_ids: "list_all2 wiped_step xs ys \<Longrightarrow> map ap_id ys = map ap_id xs"
  by (induction rule: list_all2_induct) (auto simp: wiped_step_def wipe_application_def)

lemma loop_step:
  assumes "distinct (map ap_id (t_applications (w_prod w)))" and "wipe_loop event_id envs run i tot w = (r, w')"
  shows "list_all2 wiped_step (t_applications (w_prod w)) (t_applications (w_prod w')) \<and> beyond_wipe w' = beyond_wipe w"
  using assms
proof (induction event_id envs run i tot w arbitrary: r w' rule: wipe_loop.induct)
  case (1 event_id envs run i tot w)
  obtain br w1 where b: "wipe_batch event_id (envs i) run wipe_batch_size w = (br, w1)" by fastforce
  note step = batch_step [OF "1.prems"(1) b]
  show ?case
  proof (cases "\<exists>k errs. br = Ok (k, errs) \<and> k \<noteq> 0")
    case True
    then obtain k errs where k: "br = Ok (k, errs)" "k \<noteq> 0" by blast
    have "distinct (map ap_id (t_applications (w_prod w1)))"
      using "1.prems"(1) wiped_steps_ids [OF step(1)] by simp
    moreover have "wipe_loop event_id envs run (Suc i) (fst tot + k, snd tot + errs) w1 = (r, w')"
      using "1.prems"(2) b k by (simp add: wipe_loop.simps [of event_id envs run i])
    ultimately have "list_all2 wiped_step (t_applications (w_prod w1)) (t_applications (w_prod w')) \<and> beyond_wipe w' = beyond_wipe w1"
      using "1.IH" b k by simp
    then show ?thesis using step wiped_steps_trans by simp
  next
    case False
    then have "w' = w1"
      using "1.prems"(2) b by (auto simp: wipe_loop.simps [of event_id envs run i] split: sum.splits if_splits)
    then show ?thesis using step by simp
  qed
qed

text \<open>The events of a batch, and of a run without faulty events.\<close>

lemma batch_events:
  assumes "wipe_batch event_id env run n w = (Ok (k, e), w')"
  shows "\<exists>new. events_for w w' new \<and> length new = k \<and>
    wiped_ids w' = wiped_ids w \<union> ap_id ` set (batch_rows env n (w_prod w)) \<and>
    ((\<forall>u. be_fault env u \<noteq> Event_Fault) \<longrightarrow> set (map re_application_id new) = ap_id ` set (batch_rows env n (w_prod w)))"
proof (cases rule: wipe_batch_cases [of event_id env run n w])
  case (raised e)
  then show ?thesis using assms by simp
next
  case none
  then show ?thesis using assms by (intro exI [of _ "[]"]) (auto simp: events_for_def)
next
  case (some days)
  let ?rows = "batch_rows env n (w_prod w)"
  let ?new = "map (wipe_event event_id (be_now env) run days) (filter (\<lambda>a. be_fault env (ap_id a) \<noteq> Event_Fault) ?rows)"
  have w': "w' = w\<lparr>w_prod := wipe_rows event_id env run days ?rows (w_prod w)\<rparr>" and k: "k = length ?new"
    using some assms by (simp_all add: wiped_in_def)
  have "wiped_ids w' = wiped_ids w \<union> ap_id ` set ?rows"
  proof -
    have "set ?rows \<subseteq> set (t_applications (w_prod w))" using batch_rows_expired by blast
    then show ?thesis
      using wipe.done_keys [of "ap_id ` set ?rows" "be_now env" "t_applications (w_prod w)"]
      by (auto simp: wiped_ids_def w' wipe_rows_def)
  qed
  moreover have "set (map re_application_id ?new) = ap_id ` set ?rows" if "\<forall>u. be_fault env u \<noteq> Event_Fault"
    using that by (auto simp: wipe_event_def)
  ultimately show ?thesis
    using k by (intro exI [of _ ?new]) (simp add: events_for_def w' wipe_rows_def)
qed

lemma loop_events:
  assumes "wipe_loop event_id envs run i tot w = (Ok (k, e), w')"
  shows "\<exists>new. events_for w w' new \<and> k = fst tot + length new \<and>
    ((\<forall>j u. be_fault (envs j) u \<noteq> Event_Fault) \<longrightarrow> wiped_ids w' = wiped_ids w \<union> set (map re_application_id new))"
  using assms
proof (induction event_id envs run i tot w arbitrary: k e w' rule: wipe_loop.induct)
  case (1 event_id envs run i tot w)
  obtain k1 e1 w1 where b: "wipe_batch event_id (envs i) run wipe_batch_size w = (Ok (k1, e1), w1)"
    using "1.prems" by (auto simp: wipe_loop.simps [of event_id envs run i] split: sum.splits prod.splits)
  obtain n1 where n1: "events_for w w1 n1" "length n1 = k1"
    "(\<forall>u. be_fault (envs i) u \<noteq> Event_Fault) \<longrightarrow> wiped_ids w1 = wiped_ids w \<union> set (map re_application_id n1)"
    using batch_events [OF b] by auto
  show ?case
  proof (cases "k1 = 0")
    case True
    then show ?thesis
      using "1.prems" b n1 by (auto simp: wipe_loop.simps [of event_id envs run i] intro!: exI [of _ n1])
  next
    case False
    then have "wipe_loop event_id envs run (Suc i) (fst tot + k1, snd tot + e1) w1 = (Ok (k, e), w')"
      using "1.prems" b by (simp add: wipe_loop.simps [of event_id envs run i])
    then have "\<exists>n2. events_for w1 w' n2 \<and> k = fst (fst tot + k1, snd tot + e1) + length n2 \<and>
      ((\<forall>j u. be_fault (envs j) u \<noteq> Event_Fault) \<longrightarrow> wiped_ids w' = wiped_ids w1 \<union> set (map re_application_id n2))"
      using "1.IH" [OF b [symmetric] refl refl False] by blast
    then obtain n2 where "events_for w1 w' n2" "k = fst tot + k1 + length n2"
      "(\<forall>j u. be_fault (envs j) u \<noteq> Event_Fault) \<longrightarrow> wiped_ids w' = wiped_ids w1 \<union> set (map re_application_id n2)"
      by auto
    then show ?thesis
      using n1 by (intro exI [of _ "n1 @ n2"]) (auto simp: events_for_def)
  qed
qed

text \<open>A run that meets no fault and no lock ends with nothing expired left.\<close>

lemma loop_complete:
  assumes "db_ready False w" and "is_ok (env_int ''DPDP_DEFAULT_RETENTION_DAYS'' ''90'' (w_proc w))"
    and "\<forall>j. t \<le> be_now (envs j)" and "\<forall>j u. \<not> be_locked (envs j) u \<and> be_fault (envs j) u = No_Fault"
  shows "\<exists>k w'. wipe_loop event_id envs run i tot w = (Ok (k, snd tot), w') \<and>
    (\<forall>a\<in>set (t_applications (w_prod w')). \<not> expired t a)"
  using assms
proof (induction event_id envs run i tot w rule: wipe_loop.induct)
  case (1 event_id envs run i tot w)
  let ?rows = "batch_rows (envs i) wipe_batch_size (w_prod w)"
  have noerr: "errors_in (envs i) ?rows = 0" and all: "wiped_in (envs i) ?rows = length ?rows"
    using "1.prems"(4) by (simp_all add: errors_in_def wiped_in_def)
  show ?case
  proof (cases rule: wipe_batch_cases [of event_id "envs i" run wipe_batch_size w])
    case (raised e)
    have "snd (wipe_batch event_id (envs i) run wipe_batch_size w) = w" using raised by simp
    have False
      using raised "1.prems"(1,2)
      by (auto simp: wipe_batch_def sbind_run slift_def is_ok_iff in_session_ready Let_def split: if_splits)
    then show ?thesis ..
  next
    case none
    then have "filter (\<lambda>a. expired (be_now (envs i)) a \<and> \<not> be_locked (envs i) (ap_id a)) (t_applications (w_prod w)) = []"
      by (simp add: batch_rows_def wipe_batch_size_def)
    then have "\<not> expired t a" if "a \<in> set (t_applications (w_prod w))" for a
      using that "1.prems"(3,4) unfolding filter_empty_conv expired_def by (meson order_less_le_trans)
    moreover have "wipe_loop event_id envs run i tot w = (Ok tot, w)"
      by (subst wipe_loop.simps) (simp add: none(2))
    ultimately show ?thesis by (cases tot) auto
  next
    case (some days)
    let ?w = "w\<lparr>w_prod := wipe_rows event_id (envs i) run days ?rows (w_prod w)\<rparr>"
    have step: "wipe_loop event_id envs run i tot w = wipe_loop event_id envs run (Suc i) (fst tot + length ?rows, snd tot) ?w"
      using some noerr all by (simp add: wipe_loop.simps [of event_id envs run i])
    have "db_ready False ?w" using "1.prems"(1) by (simp add: db_ready_def)
    then have "\<exists>k w'. wipe_loop event_id envs run (Suc i) (fst tot + length ?rows, snd tot) ?w = (Ok (k, snd tot), w') \<and>
        (\<forall>a\<in>set (t_applications (w_prod w')). \<not> expired t a)"
      using "1.IH" some noerr all "1.prems" by (simp add: is_ok_iff)
    then show ?thesis by (simp add: step)
  qed
qed

lemma remove_keys_run:
  assumes "w_minio_fault w = None"
  shows "remove_keys bucket ks (d, e) w =
    (Ok (d + length ks, e), w\<lparr>w_minio := (\<lambda>x. if fst x = bucket \<and> snd x \<in> set ks then None else w_minio w x)\<rparr>)"
  using assms
proof (induction ks arbitrary: d w)
  case (Cons k ks)
  let ?w = "w\<lparr>w_minio := (w_minio w)((bucket, k) := None)\<rparr>"
  have "?w\<lparr>w_minio := (\<lambda>x. if fst x = bucket \<and> snd x \<in> set ks then None else w_minio ?w x)\<rparr> =
      w\<lparr>w_minio := (\<lambda>x. if fst x = bucket \<and> snd x \<in> set (k # ks) then None else w_minio w x)\<rparr>"
    by (rule world.equality) (auto simp: fun_eq_iff)
  then show ?case
    using Cons.prems Cons.IH [of ?w "d + 1"] by simp
qed simp

lemma wipe_minio_run:
  assumes "db_ready False w" and "w_minio_fault w = None" and "parse_all ids = Ok aids"
  shows "wipe_minio_payloads ids w = (Ok (length (stored_keys aids (w_prod w)), 0),
    w\<lparr>w_minio := (\<lambda>x. if fst x = audit_bucket w \<and> snd x \<in> set (stored_keys aids (w_prod w)) then None else w_minio w x)\<rparr>)"
proof -
  have "get_engine_for_context False w = (Ok (), w)"
    using assms(1) by (simp add: get_engine_for_context_def db_ready_def Let_def)
  then show ?thesis
    using assms(3) remove_keys_run [OF assms(2), of "audit_bucket w" "stored_keys aids (w_prod w)" 0 0]
    by (simp add: wipe_minio_payloads_def sbind_run slift_def query_ready [OF assms(1)] select_db_def)
qed

section \<open>Properties\<close>

text \<open>
  C10: the wipe touches nothing else. Whatever faults and locks it meets and
  whether it returns or raises, a run leaves every application as it was or wiped
  exactly once after its expiry (never a demo row), in place, and changes nothing
  beyond applications and retention events: every audit record, decision and
  stored object stays.
\<close>

theorem wipe_touches_only_expired:
  assumes "distinct (map ap_id (t_applications (w_prod w)))"
    and "run_retention_wipe event_id envs t0 t1 w = (res, w')"
  shows "list_all2 wiped_step (t_applications (w_prod w)) (t_applications (w_prod w')) \<and> beyond_wipe w' = beyond_wipe w"
proof -
  obtain r where "wipe_loop event_id envs (''retention-'' @ run_stamp t0) 0 (0, 0) w = (r, w')"
    using assms(2) by (auto simp: run_retention_wipe_def Let_def split: prod.splits sum.splits)
  then show ?thesis using loop_step [OF assms(1)] by blast
qed

text \<open>
  C9: the wipe ends and is complete. With the database up, a readable retention
  period, and no row locked or failing, the loop ends, reports no error, and
  leaves no production application that had expired when the run began.
\<close>

theorem wipe_completes:
  assumes "db_ready False w" and "is_ok (env_int ''DPDP_DEFAULT_RETENTION_DAYS'' ''90'' (w_proc w))"
    and "\<forall>j. t0 \<le> be_now (envs j)" and "\<forall>j u. \<not> be_locked (envs j) u \<and> be_fault (envs j) u = No_Fault"
  shows "\<exists>s w'. run_retention_wipe event_id envs t0 t1 w = (Ok s, w') \<and> ws_error_count s = 0 \<and>
    (\<forall>a\<in>set (t_applications (w_prod w')). \<not> expired t0 a)"
  using loop_complete [OF assms, of event_id "''retention-'' @ run_stamp t0" 0 "(0, 0)"]
  by (auto simp: run_retention_wipe_def)

text \<open>
  C31: every wipe is logged. A run in which no event fails appends as many
  retention events as it reports wiped, and the applications they name are
  exactly those that became wiped.
\<close>

theorem every_wipe_is_logged:
  assumes "run_retention_wipe event_id envs t0 t1 w = (Ok s, w')" and "\<forall>j u. be_fault (envs j) u \<noteq> Event_Fault"
  shows "\<exists>new. t_retention_events (w_prod w') = t_retention_events (w_prod w) @ new \<and> length new = ws_wiped_count s \<and>
    wiped_ids w' = wiped_ids w \<union> set (map re_application_id new)"
proof -
  obtain k e where "wipe_loop event_id envs (''retention-'' @ run_stamp t0) 0 (0, 0) w = (Ok (k, e), w')" "ws_wiped_count s = k"
    using assms(1) by (auto simp: run_retention_wipe_def Let_def split: prod.splits sum.splits)
  from loop_events [OF this(1)] this(2) assms(2) obtain new where "events_for w w' new" "k = length new"
    "wiped_ids w' = wiped_ids w \<union> set (map re_application_id new)" "ws_wiped_count s = k" by (metis add_0 fst_conv)
  then show ?thesis by (intro exI [of _ new]) (simp add: events_for_def)
qed

text \<open>
  a wipe can go unlogged. An application whose event raises is wiped all the
  same, counts as an error only, and no later run can log it; and a batch in
  which all events raise ends the run.
\<close>

theorem failed_event_wipes_silently:
  assumes "db_ready False w" and "env_int ''DPDP_DEFAULT_RETENTION_DAYS'' ''90'' (w_proc w) = Ok days"
    and "batch_rows (envs 0) wipe_batch_size (w_prod w) \<noteq> []"
    and "\<forall>a\<in>set (batch_rows (envs 0) wipe_batch_size (w_prod w)). be_fault (envs 0) (ap_id a) = Event_Fault"
  shows "\<exists>s w'. run_retention_wipe event_id envs t0 t1 w = (Ok s, w') \<and> ws_wiped_count s = 0 \<and> 0 < ws_error_count s \<and>
    t_retention_events (w_prod w') = t_retention_events (w_prod w) \<and>
    ap_id ` set (batch_rows (envs 0) wipe_batch_size (w_prod w)) \<subseteq> wiped_ids w'"
proof -
  let ?rows = "batch_rows (envs 0) wipe_batch_size (w_prod w)" and ?run = "''retention-'' @ run_stamp t0"
  have count: "wiped_in (envs 0) ?rows = 0" "0 < errors_in (envs 0) ?rows"
    using assms(3,4) by (auto simp: wiped_in_def errors_in_def filter_empty_conv)
  obtain w' where b: "wipe_batch event_id (envs 0) ?run wipe_batch_size w = (Ok (0, errors_in (envs 0) ?rows), w')"
    using assms(1,2,3) count(1)
    by (auto simp: wipe_batch_def sbind_run slift_def in_session_ready select_db_def Let_def)
  then have "t_retention_events (w_prod w') = t_retention_events (w_prod w)" "ap_id ` set ?rows \<subseteq> wiped_ids w'"
    using batch_events [OF b] by (auto simp: events_for_def)
  then show ?thesis
    using b count(2) by (auto simp: run_retention_wipe_def Let_def wipe_loop.simps [of _ _ _ 0])
qed

text \<open>
  a retention of zero days is not possible. The override 0 gives the default
  of the environment, like no override at all.
\<close>

theorem zero_days_means_default:
  "compute_retention_expiry p d (Some 0) = compute_retention_expiry p d None"
  by (simp add: compute_retention_expiry_def)

text \<open>
  deleted payloads are gone for the verifier too. With the services up, the
  deletion removes every stored payload of the given applications and no other
  object, changes no row, and verification of their records then finds no payload
  and falls back to the HMAC.
\<close>

theorem deleted_payloads_gone:
  assumes "db_ready False w" and "w_minio_fault w = None" and "parse_all ids = Ok aids"
  shows "\<exists>n w'. wipe_minio_payloads ids w = (Ok (n, 0), w') \<and> w_prod w' = w_prod w \<and>
    (\<forall>r\<in>set (t_audit_records (w_prod w)). au_application_id r \<in> set aids \<longrightarrow> fst (fetch_payload c r w') = Ok None) \<and>
    (\<forall>b k. k \<notin> set (stored_keys aids (w_prod w)) \<longrightarrow> w_minio w' (b, k) = w_minio w (b, k))"
proof -
  let ?keys = "stored_keys aids (w_prod w)"
  let ?w = "w\<lparr>w_minio := (\<lambda>x. if fst x = audit_bucket w \<and> snd x \<in> set ?keys then None else w_minio w x)\<rparr>"
  have "fst (fetch_payload c r ?w) = Ok None"
    if r: "r \<in> set (t_audit_records (w_prod w))" "au_application_id r \<in> set aids" for r
  proof (cases "au_payload_s3_key r \<noteq> None \<and> au_payload_s3_uploaded r")
    case True
    then obtain k where k: "au_payload_s3_key r = Some k" "k \<in> set ?keys"
      using r by (force simp: stored_keys_def)
    then have "get_object k ?w = (Raise (OtherExn ''S3Error'' ''NoSuchKey''), ?w)"
      using assms(2) by (simp add: get_object_def audit_bucket_def)
    then show ?thesis
      using k by (auto simp: fetch_payload_def download_and_decrypt_payload_def sbind_run split: list.splits)
  qed (auto simp: fetch_payload_def split: option.splits list.splits)
  then show ?thesis
    using wipe_minio_run [OF assms] by (intro exI [of _ "length ?keys"] exI [of _ ?w]) auto
qed

section \<open>Witnesses\<close>

definition calm_env :: "wipe_fault \<Rightarrow> nat \<Rightarrow> batch_env" where
  "calm_env f i = \<lparr>be_now = 20, be_locked = (\<lambda>_. False), be_fault = (\<lambda>_. f)\<rparr>"

definition retention_world :: world where
  "retention_world = sample_world plain_proc (empty_db\<lparr>t_applications :=
     [sample_application 1, (sample_application 2)\<lparr>ap_is_demo := True\<rparr>]\<rparr>)"

lemma retention_world_facts:
  "db_ready False retention_world"
  "env_int ''DPDP_DEFAULT_RETENTION_DAYS'' ''90'' (w_proc retention_world) = Ok 90"
  "t_applications (w_prod retention_world) = [sample_application 1, (sample_application 2)\<lparr>ap_is_demo := True\<rparr>]"
  "w_minio_fault retention_world = None"
proof -
  have "env_int ''DPDP_DEFAULT_RETENTION_DAYS'' ''90'' (w_proc retention_world) = py_int ''90''"
    by (simp add: retention_world_def sample_world_def plain_proc_def env_int_def get_or_def)
  also have "\<dots> = Ok 90" by code_simp
  finally show "env_int ''DPDP_DEFAULT_RETENTION_DAYS'' ''90'' (w_proc retention_world) = Ok 90" .
qed (simp_all add: retention_world_def)

theorem wipe_touches_only_expired_witness:
  "list_all2 wiped_step [sample_application 1, (sample_application 2)\<lparr>ap_is_demo := True\<rparr>]
     (t_applications (w_prod (snd (run_retention_wipe id (calm_env Log_Fault) 15 25 retention_world))))"
proof -
  have "distinct (map ap_id (t_applications (w_prod retention_world)))"
    by (simp add: retention_world_facts sample_application_def)
  then show ?thesis
    using wipe_touches_only_expired by (metis prod.collapse retention_world_facts(3))
qed

theorem wipe_completes_witness:
  "\<exists>s w'. run_retention_wipe id (calm_env No_Fault) 15 25 retention_world = (Ok s, w') \<and> ws_error_count s = 0 \<and>
     (\<forall>a\<in>set (t_applications (w_prod w')). \<not> expired 15 a)"
  by (rule wipe_completes) (simp_all add: retention_world_facts calm_env_def)

theorem every_wipe_is_logged_witness:
  "\<exists>s w' new. run_retention_wipe id (calm_env No_Fault) 15 25 retention_world = (Ok s, w') \<and>
     t_retention_events (w_prod w') = t_retention_events (w_prod retention_world) @ new \<and> length new = ws_wiped_count s"
proof -
  have "\<exists>k w'. wipe_loop id (calm_env No_Fault) (''retention-'' @ run_stamp 15) 0 (0, 0) retention_world = (Ok (k, 0), w')"
    using loop_complete [of retention_world 15 "calm_env No_Fault" id "''retention-'' @ run_stamp 15" 0 "(0, 0)"]
    by (auto simp: retention_world_facts calm_env_def)
  then obtain s w' where "run_retention_wipe id (calm_env No_Fault) 15 25 retention_world = (Ok s, w')"
    by (auto simp: run_retention_wipe_def)
  then show ?thesis using every_wipe_is_logged [of id "calm_env No_Fault" 15 25 retention_world] by (fastforce simp: calm_env_def)
qed

theorem failed_event_wipes_silently_witness:
  "\<exists>s w'. run_retention_wipe id (calm_env Event_Fault) 15 25 retention_world = (Ok s, w') \<and> ws_wiped_count s = 0 \<and>
     1 \<in> wiped_ids w' \<and> t_retention_events (w_prod w') = []"
proof -
  have rows: "batch_rows (calm_env Event_Fault 0) wipe_batch_size (w_prod retention_world) = [sample_application 1]"
    by (simp add: batch_rows_def retention_world_facts calm_env_def expired_def sample_application_def wipe_batch_size_def)
  have "t_retention_events (w_prod retention_world) = []" by (simp add: retention_world_def empty_db_def)
  then show ?thesis
    using failed_event_wipes_silently [OF retention_world_facts(1,2), of "calm_env Event_Fault" id 15 25] rows
    by (auto simp: calm_env_def sample_application_def)
qed

theorem deleted_payloads_gone_witness:
  "\<exists>n w'. wipe_minio_payloads [uuid_str 1] retention_world = (Ok (n, 0), w') \<and> w_prod w' = w_prod retention_world"
  using deleted_payloads_gone [OF retention_world_facts(1,4), of "[uuid_str 1]" "[1]" plain_aead] by auto

end
