(* ===== verification/Consent.thy ===== *)
theory Consent
  imports Dpdp
begin

text \<open>
  \<open>dpdp/consent_manager.py\<close>: the consent gate of an application request and the
  versions of the consent notice. The clock readings are arguments. The texts of
  the error messages and the log lines are left out. The order in which the unit
  of work writes two changed rows is SQLAlchemy's: it is the parameter \<open>order\<close>.
\<close>

section \<open>Validation\<close>

record consent_validation_result =
  cr_is_valid :: bool
  cr_error_code :: "string option"
  cr_active_version_id :: "string option"

definition rejected :: "string \<Rightarrow> string option \<Rightarrow> consent_validation_result" where
  "rejected code active = \<lparr>cr_is_valid = False, cr_error_code = Some code, cr_active_version_id = active\<rparr>"

definition accepted :: "string \<Rightarrow> consent_validation_result" where
  "accepted active = \<lparr>cr_is_valid = True, cr_error_code = None, cr_active_version_id = Some active\<rparr>"

definition get_active_consent_version :: "(world, consent_version option) step" where
  "get_active_consent_version = query False (\<lambda>d. Ok (find cv_is_active (t_consent_versions d)))"

definition check_version :: "string \<Rightarrow> consent_version option \<Rightarrow> consent_validation_result" where
  "check_version consent_version active_version = (case active_version of
       None \<Rightarrow> rejected ''DPDP_NO_ACTIVE_CONSENT_VERSION'' None
     | Some v \<Rightarrow>
         if consent_version \<noteq> cv_version_id v
         then rejected ''DPDP_CONSENT_VERSION_MISMATCH'' (Some (cv_version_id v))
         else accepted (cv_version_id v))"

definition validate_consent ::
  "int \<Rightarrow> pyval \<Rightarrow> string \<Rightarrow> datetime \<Rightarrow> int \<Rightarrow> (world, consent_validation_result) step" where
  "validate_consent now dpdp_consent consent_version consent_timestamp validity_hours w =
     sbind (slift (env_int ''DPDP_CONSENT_VALIDITY_HOURS'' (int_str validity_hours) (w_proc w))) (\<lambda>env_validity.
       if dpdp_consent \<noteq> PBool True then sret (rejected ''DPDP_CONSENT_NOT_GIVEN'' None)
       else sbind (slift (shift now (5 * 60 * usec_per_second))) (\<lambda>latest.
         if latest < instant_of consent_timestamp then sret (rejected ''DPDP_CONSENT_TIMESTAMP_FUTURE'' None)
         else sbind (slift (shift now (- (env_validity * 3600 * usec_per_second)))) (\<lambda>consent_cutoff.
           if instant_of consent_timestamp < consent_cutoff then sret (rejected ''DPDP_CONSENT_EXPIRED'' None)
           else sbind get_active_consent_version (\<lambda>active_version.
             sret (check_version consent_version active_version))))) w"

section \<open>Versions\<close>

text \<open>One UPDATE, with the partial unique index on the active version.\<close>

definition update_consent_version :: "consent_version \<Rightarrow> db \<Rightarrow> db result" where
  "update_consent_version r d =
     (if cv_is_active r \<and> list_ex (\<lambda>x. cv_is_active x \<and> cv_id x \<noteq> cv_id r) (t_consent_versions d)
      then Raise (IntegrityError ''duplicate key value violates unique constraint ix_consent_versions_active'')
      else Ok (d\<lparr>t_consent_versions := map (\<lambda>x. if cv_id x = cv_id r then r else x) (t_consent_versions d)\<rparr>))"

fun flush_updates :: "consent_version list \<Rightarrow> db \<Rightarrow> db result" where
  "flush_updates [] d = Ok d"
| "flush_updates (r # rs) d = rbind (update_consent_version r d) (flush_updates rs)"

definition scalar_one_or_none :: "'a list \<Rightarrow> 'a option result" where
  "scalar_one_or_none rs = (case rs of
       [] \<Rightarrow> Ok None
     | [r] \<Rightarrow> Ok (Some r)
     | _ \<Rightarrow> Raise (OtherExn ''MultipleResultsFound'' ''Multiple rows were found when one or none was required''))"

definition deactivated :: "int \<Rightarrow> consent_version \<Rightarrow> consent_version" where
  "deactivated now v = v\<lparr>cv_is_active := False, cv_superseded_at := Some now\<rparr>"

definition activated :: "int \<Rightarrow> consent_version \<Rightarrow> consent_version" where
  "activated now v = v\<lparr>cv_is_active := True, cv_effective_from := now\<rparr>"

text \<open>The rows to write; when the version is already active, both changes are to one object.\<close>

definition changed_versions :: "int \<Rightarrow> consent_version option \<Rightarrow> consent_version \<Rightarrow> consent_version list" where
  "changed_versions now current_active new_version =
     map (\<lambda>v. v\<lparr>cv_updated_at := now\<rparr>)
       (case current_active of
          None \<Rightarrow> [activated now new_version]
        | Some c \<Rightarrow> if cv_id c = cv_id new_version then [activated now (deactivated now new_version)]
            else [deactivated now c, activated now new_version])"

definition activate_consent_version ::
  "(consent_version list \<Rightarrow> consent_version list) \<Rightarrow> int \<Rightarrow> string \<Rightarrow> (world, unit) step" where
  "activate_consent_version order now new_version_id =
     in_session False (\<lambda>d.
       rbind (scalar_one_or_none (filter (\<lambda>v. cv_version_id v = new_version_id) (t_consent_versions d))) (\<lambda>new_version.
       case new_version of
         None \<Rightarrow> Raise (ValueError (''Consent version '' @ quoted new_version_id @ '' does not exist in the database.''))
       | Some n \<Rightarrow>
           rbind (scalar_one_or_none (filter cv_is_active (t_consent_versions d))) (\<lambda>current_active.
           rbind (flush_updates (order (changed_versions now current_active n)) d) (\<lambda>d'. Ok ((), d')))))"

definition get_consent_version_text :: "string \<Rightarrow> (world, string option) step" where
  "get_consent_version_text version_id = query False (\<lambda>d.
     rbind (scalar_one_or_none (filter (\<lambda>v. cv_version_id v = version_id) (t_consent_versions d))) (\<lambda>v.
       Ok (map_option cv_consent_text v)))"

section \<open>Facts\<close>

text \<open>What the schema keeps of the consent versions.\<close>

definition consent_ok :: "consent_version list \<Rightarrow> bool" where
  "consent_ok vs \<longleftrightarrow> distinct (map cv_id vs) \<and> distinct (map cv_version_id vs) \<and> length (filter cv_is_active vs) \<le> 1"

lemma validate_frame: "snd (validate_consent now flag v ts hours w) = w"
proof -
  have "snd (get_active_consent_version w) = w" by (simp add: get_active_consent_version_def)
  then show ?thesis
    by (auto simp: validate_consent_def sbind_def slift_def sret_def split: sum.splits prod.splits)
qed

lemma scalar_filter:
  "length (filter P xs) \<le> 1 \<Longrightarrow> scalar_one_or_none (filter P xs) = Ok (find P xs)"
proof (induction xs)
  case (Cons x xs)
  then show ?case by (cases "filter P xs") (auto simp: scalar_one_or_none_def filter_empty_conv find_None_iff2 split: if_splits)
qed (simp add: scalar_one_or_none_def)

lemma active_unique:
  assumes "consent_ok vs" and "c \<in> set vs" and "cv_is_active c" and "x \<in> set vs" and "cv_is_active x"
  shows "x = c"
proof -
  have "length (filter cv_is_active vs) \<le> 1" using assms(1) by (simp add: consent_ok_def)
  moreover have "c \<in> set (filter cv_is_active vs)" "x \<in> set (filter cv_is_active vs)" using assms(2-5) by simp_all
  ultimately show ?thesis by (cases "filter cv_is_active vs") auto
qed

lemma id_unique:
  assumes "consent_ok vs" and "c \<in> set vs" and "x \<in> set vs" and "cv_id x = cv_id c"
  shows "x = c"
  using assms by (auto simp: consent_ok_def distinct_map inj_on_def)

lemma find_filter: "find P xs = (case filter P xs of [] \<Rightarrow> None | x # _ \<Rightarrow> Some x)"
  by (induction xs) auto

lemma switched_rows:
  assumes "consent_ok vs" and "n \<in> set vs" and "cv_is_active n'" and "cv_id n' = cv_id n"
    and "cv_version_id n' = cv_version_id n"
    and "\<And>x. x \<in> set vs \<Longrightarrow> f x = (if x = n then n' else f x)"
    and "\<And>x. x \<in> set vs \<Longrightarrow> x \<noteq> n \<Longrightarrow> cv_id (f x) = cv_id x \<and> cv_version_id (f x) = cv_version_id x \<and> \<not> cv_is_active (f x)"
  shows "consent_ok (map f vs)" and "find cv_is_active (map f vs) = Some n'"
proof -
  have fn: "f n = n'" using assms(2,6) by metis
  obtain ys zs where vs: "vs = ys @ n # zs" using assms(2) by (auto simp: in_set_conv_decomp)
  have new: "n \<notin> set ys \<union> set zs" using assms(1) by (auto simp: consent_ok_def vs)
  have off: "\<not> cv_is_active (f x)" if "x \<in> set ys \<union> set zs" for x
    using that assms(7) [of x] new by (auto simp: vs)
  have act: "filter cv_is_active (map f vs) = [n']"
    using off assms(3) by (simp add: vs fn filter_empty_conv)
  have "cv_id (f x) = cv_id x \<and> cv_version_id (f x) = cv_version_id x" if "x \<in> set vs" for x
    using assms(4,5,7) fn that by (cases "x = n") auto
  then have "map cv_id (map f vs) = map cv_id vs" "map cv_version_id (map f vs) = map cv_version_id vs"
    by simp_all
  then show "consent_ok (map f vs)" using assms(1) act by (simp add: consent_ok_def del: map_map)
  show "find cv_is_active (map f vs) = Some n'"
    using act by (simp add: find_filter)
qed

lemma version_once: "distinct (map cv_version_id vs) \<Longrightarrow> length (filter (\<lambda>v. cv_version_id v = ver) vs) \<le> Suc 0"
proof (induction vs)
  case (Cons a vs)
  then have "filter (\<lambda>v. cv_version_id v = cv_version_id a) vs = []" by (auto simp: filter_empty_conv) (metis image_eqI)
  then show ?case using Cons by auto
qed simp

lemma find_version:
  assumes "consent_ok vs" and "n \<in> set vs"
  shows "find (\<lambda>v. cv_version_id v = cv_version_id n) vs = Some n"
proof -
  have "inj_on cv_version_id (set vs)" using assms(1) by (simp add: consent_ok_def distinct_map)
  then show ?thesis
    using assms(2) by (cases "find (\<lambda>v. cv_version_id v = cv_version_id n) vs")
      (auto simp: find_None_iff find_Some_iff inj_on_def)
qed

lemma find_active: "consent_ok vs \<Longrightarrow> c \<in> set vs \<Longrightarrow> cv_is_active c \<Longrightarrow> find cv_is_active vs = Some c"
proof (cases "find cv_is_active vs")
  case (Some x)
  then have "x \<in> set vs" "cv_is_active x" by (auto simp: find_Some_iff)
  then show "consent_ok vs \<Longrightarrow> c \<in> set vs \<Longrightarrow> cv_is_active c \<Longrightarrow> find cv_is_active vs = Some c"
    using active_unique [of vs c x] Some by blast
qed (simp add: find_None_iff)

text \<open>The activation, as the rows read and the flush.\<close>

lemma activate_run:
  assumes "db_ready False w" and "consent_ok (t_consent_versions (w_prod w))"
  shows "activate_consent_version order now ver w =
    (case find (\<lambda>v. cv_version_id v = ver) (t_consent_versions (w_prod w)) of
       None \<Rightarrow> (Raise (ValueError (''Consent version '' @ quoted ver @ '' does not exist in the database.'')), w)
     | Some n \<Rightarrow> (case flush_updates (order (changed_versions now (find cv_is_active (t_consent_versions (w_prod w))) n)) (w_prod w) of
           Inl e \<Rightarrow> (Raise e, w)
         | Inr d' \<Rightarrow> (Ok (), w\<lparr>w_prod := d'\<rparr>)))"
proof -
  have "length (filter (\<lambda>v. cv_version_id v = ver) (t_consent_versions (w_prod w))) \<le> 1"
    using version_once [of "t_consent_versions (w_prod w)" ver] assms(2) by (simp add: consent_ok_def)
  then show ?thesis
    using assms
    by (simp add: activate_consent_version_def in_session_ready select_db_def store_db_def scalar_filter consent_ok_def
        split: option.splits sum.splits)
qed

lemma order_pair:
  assumes "mset (order [a, b]) = mset [a, b]"
  shows "order [a, b] = [a, b] \<or> order [a, b] = [b, a]"
proof -
  obtain x y where xy: "order [a, b] = [x, y]"
    using mset_eq_length [OF assms] by (cases "order [a, b]" rule: list.exhaust; fastforce simp: length_Suc_conv numeral_2_eq_2)
  then show ?thesis using assms by (auto simp: add_eq_conv_ex)
qed

lemma order_single: "mset (order [a]) = mset [a] \<Longrightarrow> order [a] = [a]"
  by (metis mset_single_iff mset.simps(1) mset.simps(2))

text \<open>The flush of one activation: the new version becomes the only active one, or the index refuses.\<close>

lemma flush_one:
  assumes "consent_ok (t_consent_versions d)" and "n \<in> set (t_consent_versions d)" and "cv_is_active n'"
    and "cv_id n' = cv_id n" and "cv_version_id n' = cv_version_id n"
    and "\<forall>x\<in>set (t_consent_versions d). cv_is_active x \<longrightarrow> x = n" and "flush_updates [n'] d = Ok d'"
  shows "consent_ok (t_consent_versions d') \<and> find cv_is_active (t_consent_versions d') = Some n'"
proof -
  have "t_consent_versions d' = map (\<lambda>x. if cv_id x = cv_id n then n' else x) (t_consent_versions d)"
    using assms(4,7) by (auto simp: update_consent_version_def split: if_splits)
  then show ?thesis
    using switched_rows [OF assms(1-5), of "\<lambda>x. if cv_id x = cv_id n then n' else x"] id_unique [OF assms(1,2)] assms(6)
    by (smt (verit))
qed

lemma flush_two:
  assumes "consent_ok (t_consent_versions d)" and "n \<in> set (t_consent_versions d)" and "cv_is_active n'"
    and "cv_id n' = cv_id n" and "cv_version_id n' = cv_version_id n"
    and "c \<in> set (t_consent_versions d)" and "cv_is_active c" and "c \<noteq> n"
    and "\<not> cv_is_active c'" and "cv_id c' = cv_id c" and "cv_version_id c' = cv_version_id c"
  shows "\<exists>d'. flush_updates [c', n'] d = Ok d' \<and>
      consent_ok (t_consent_versions d') \<and> find cv_is_active (t_consent_versions d') = Some n'"
    and "\<exists>e. flush_updates [n', c'] d = Raise e"
proof -
  let ?vs = "t_consent_versions d"
  have ids: "cv_id c \<noteq> cv_id n" using id_unique [OF assms(1,2,6)] assms(8) by blast
  let ?f = "\<lambda>x. if cv_id x = cv_id n then n' else if cv_id x = cv_id c then c' else x"
  have "flush_updates [c', n'] d = Ok (d\<lparr>t_consent_versions := map ?f ?vs\<rparr>)"
  proof -
    have "\<not> list_ex (\<lambda>x. cv_is_active x \<and> cv_id x \<noteq> cv_id n') (map (\<lambda>x. if cv_id x = cv_id c then c' else x) ?vs)"
      using active_unique [OF assms(1,6,7)] assms(9) by (auto simp: list_ex_iff)
    moreover have "map (\<lambda>x. if cv_id x = cv_id n then n' else x) (map (\<lambda>x. if cv_id x = cv_id c then c' else x) ?vs) = map ?f ?vs"
      using ids assms(10) by (auto simp: comp_def)
    ultimately show ?thesis
      using assms(4,9,10) by (simp add: update_consent_version_def del: map_map)
  qed
  moreover have "consent_ok (map ?f ?vs) \<and> find cv_is_active (map ?f ?vs) = Some n'"
  proof -
    have "?f x = (if x = n then n' else ?f x)" if "x \<in> set ?vs" for x
      using id_unique [OF assms(1,2) that] by auto
    moreover have "cv_id (?f x) = cv_id x \<and> cv_version_id (?f x) = cv_version_id x \<and> \<not> cv_is_active (?f x)"
      if "x \<in> set ?vs" "x \<noteq> n" for x
      using id_unique [OF assms(1,2) that(1)] id_unique [OF assms(1,6) that(1)]
        active_unique [OF assms(1,6,7) that(1)] that(2) assms(9-11) by auto
    ultimately show ?thesis using switched_rows [OF assms(1-5), of ?f] by blast
  qed
  ultimately show "\<exists>d'. flush_updates [c', n'] d = Ok d' \<and>
      consent_ok (t_consent_versions d') \<and> find cv_is_active (t_consent_versions d') = Some n'" by simp
  show "\<exists>e. flush_updates [n', c'] d = Raise e"
    using assms(3,4,6,7) ids by (auto simp: update_consent_version_def list_ex_iff)
qed

lemma activation_flush:
  assumes "consent_ok (t_consent_versions d)" and "\<forall>rs. mset (order rs) = mset rs" and "n \<in> set (t_consent_versions d)"
    and "flush_updates (order (changed_versions now (find cv_is_active (t_consent_versions d)) n)) d = Ok d'"
  shows "consent_ok (t_consent_versions d') \<and> (\<exists>n'. find cv_is_active (t_consent_versions d') = Some n' \<and>
    cv_version_id n' = cv_version_id n \<and> cv_effective_from n' = now)"
proof (cases "find cv_is_active (t_consent_versions d)")
  case None
  then have "\<forall>x\<in>set (t_consent_versions d). cv_is_active x \<longrightarrow> x = n" by (auto simp: find_None_iff)
  moreover have "flush_updates [(activated now n)\<lparr>cv_updated_at := now\<rparr>] d = Ok d'"
    using assms(2,4) None order_single [of order] by (simp add: changed_versions_def)
  ultimately show ?thesis
    using flush_one [OF assms(1,3), of "(activated now n)\<lparr>cv_updated_at := now\<rparr>" d'] by (simp add: activated_def)
next
  case (Some c)
  then have c: "c \<in> set (t_consent_versions d)" "cv_is_active c" by (auto simp: find_Some_iff)
  show ?thesis
  proof (cases "c = n")
    case True
    let ?n = "(activated now (deactivated now n))\<lparr>cv_updated_at := now\<rparr>"
    have "flush_updates [?n] d = Ok d'"
      using assms(2,4) Some True order_single [of order] by (simp add: changed_versions_def)
    then show ?thesis
      using flush_one [OF assms(1,3), of ?n d'] active_unique [OF assms(1) c] True
      by (simp add: activated_def deactivated_def)
  next
    case False
    let ?n = "(activated now n)\<lparr>cv_updated_at := now\<rparr>" and ?c = "(deactivated now c)\<lparr>cv_updated_at := now\<rparr>"
    have "cv_id c \<noteq> cv_id n" using id_unique [OF assms(1,3) c(1)] False by blast
    then have flush: "flush_updates (order [?c, ?n]) d = Ok d'"
      using assms(4) Some by (simp add: changed_versions_def)
    have "order [?c, ?n] = [?c, ?n] \<or> order [?c, ?n] = [?n, ?c]"
      by (rule order_pair) (use assms(2) in blast)
    then show ?thesis
      using flush flush_two [OF assms(1,3) _ _ _ c False, of ?n ?c]
      by (auto simp: activated_def deactivated_def simp del: flush_updates.simps)
  qed
qed

section \<open>Properties\<close>

text \<open>
  C17: the consent gate. With the database up and the configured validity a
  number, a request passes exactly when its flag is the boolean true, its
  timestamp lies between the validity window's start and five minutes after now,
  and its version is the active one; the check changes nothing.
\<close>

theorem consent_gate:
  assumes "db_ready False w" and "env_int ''DPDP_CONSENT_VALIDITY_HOURS'' (int_str hours) (w_proc w) = Ok h"
    and "valid_wall (now + 300000000)" and "valid_wall (now - 3600000000 * h)"
  shows "\<exists>r. validate_consent now flag ver ts hours w = (Ok r, w) \<and>
    (cr_is_valid r \<longleftrightarrow> flag = PBool True \<and> now - 3600000000 * h \<le> instant_of ts \<and> instant_of ts \<le> now + 300000000 \<and>
       (\<exists>v. find cv_is_active (t_consent_versions (w_prod w)) = Some v \<and> cv_version_id v = ver))"
proof -
  have "get_active_consent_version w = (Ok (find cv_is_active (t_consent_versions (w_prod w))), w)"
    using assms(1) by (simp add: get_active_consent_version_def query_ready select_db_def)
  then show ?thesis
    using assms(2-4)
    by (auto simp: validate_consent_def sbind_run slift_def sret_def shift_def check_version_def rejected_def accepted_def
        split: option.splits)
qed

text \<open>
  C18: activating a version switches the gate. Whatever order the unit of work
  writes the rows in, an activation either raises and changes nothing, or leaves
  the named version the only active one, so that requests with any other version
  are refused, and keeps the versions well formed.
\<close>

theorem activation_switches:
  assumes "consent_ok (t_consent_versions (w_prod w))" and "\<forall>rs. mset (order rs) = mset rs"
    and "activate_consent_version order now ver w = (res, w')"
  shows "(\<exists>e. res = Raise e \<and> w' = w) \<or>
    (res = Ok () \<and> consent_ok (t_consent_versions (w_prod w')) \<and>
     (\<exists>n. find cv_is_active (t_consent_versions (w_prod w')) = Some n \<and> cv_version_id n = ver \<and> cv_effective_from n = now))"
proof (cases "db_ready False w")
  case False
  then obtain e where "activate_consent_version order now ver w = (Raise e, w)"
    unfolding activate_consent_version_def using in_session_not_ready by blast
  then show ?thesis using assms(3) by simp
next
  case ready: True
  let ?vs = "t_consent_versions (w_prod w)"
  note run = activate_run [OF ready assms(1), of order now ver] 
  show ?thesis
  proof (cases "find (\<lambda>v. cv_version_id v = ver) ?vs")
    case None
    then show ?thesis using run assms(3) by simp
  next
    case (Some n)
    then have n: "n \<in> set ?vs" "cv_version_id n = ver" by (auto simp: find_Some_iff)
    let ?new = "order (changed_versions now (find cv_is_active ?vs) n)"
    consider (bad) e where "flush_updates ?new (w_prod w) = Raise e"
      | (good) d' n' where "flush_updates ?new (w_prod w) = Ok d'" "consent_ok (t_consent_versions d')"
        "find cv_is_active (t_consent_versions d') = Some n'" "cv_version_id n' = ver" "cv_effective_from n' = now"
      using activation_flush [OF assms(1,2) n(1), of now] n(2) by (cases "flush_updates ?new (w_prod w)") auto
    then show ?thesis
      by cases (use run Some assms(3) in auto)
  qed
qed

definition consent_row :: "uuid \<Rightarrow> string \<Rightarrow> bool \<Rightarrow> consent_version" where
  "consent_row u ver active = \<lparr>cv_id = u, cv_created_at = 0, cv_updated_at = 0, cv_version_id = ver, cv_title = ''t'',
     cv_consent_text = ''text'', cv_summary = None, cv_is_active = active, cv_effective_from = 0,
     cv_superseded_at = None, cv_change_summary = None\<rparr>"

definition consent_world :: "uuid \<Rightarrow> uuid \<Rightarrow> proc \<Rightarrow> world" where
  "consent_world old new p = sample_world p (empty_db\<lparr>t_consent_versions :=
     [consent_row old ''v1'' True, consent_row new ''v2'' False]\<rparr>)"

theorem consent_gate_witness:
  "\<exists>r. validate_consent 63915912000000000 (PBool True) ''v1'' (utc_datetime 63915912000000000) 24 (consent_world 1 2 plain_proc)
     = (Ok r, consent_world 1 2 plain_proc) \<and> cr_is_valid r"
proof -
  let ?w = "consent_world 1 2 plain_proc"
  have ready: "db_ready False ?w" by (simp add: consent_world_def)
  have "env_int ''DPDP_CONSENT_VALIDITY_HOURS'' (int_str 24) (w_proc ?w) = env_int ''X'' (int_str 24) plain_proc"
    by (simp add: consent_world_def sample_world_def plain_proc_def env_int_def get_or_def)
  also have "\<dots> = Ok 24" by code_simp
  finally have h: "env_int ''DPDP_CONSENT_VALIDITY_HOURS'' (int_str 24) (w_proc ?w) = Ok 24" .
  have "valid_wall (63915912000000000 + 300000000)" "valid_wall (63915912000000000 - 3600000000 * 24)"
    by (simp_all add: valid_wall_def max_wall_def)
  moreover have "find cv_is_active (t_consent_versions (w_prod ?w)) = Some (consent_row 1 ''v1'' True)"
    by (simp add: consent_world_def consent_row_def)
  ultimately show ?thesis
    using consent_gate [OF ready h, of 63915912000000000 "PBool True" "''v1''" "utc_datetime 63915912000000000"]
    by (simp add: utc_datetime_def instant_of_def consent_row_def)
qed

lemma consent_world_ok: "old \<noteq> new \<Longrightarrow> consent_ok (t_consent_versions (w_prod (consent_world old new p)))"
  by (simp add: consent_world_def consent_ok_def consent_row_def)

theorem activation_switches_witness:
  "fst (activate_consent_version (\<lambda>rs. rs) 9 ''v2'' (consent_world 1 2 plain_proc)) = Ok () \<and>
   (\<exists>n. find cv_is_active (t_consent_versions (w_prod (snd (activate_consent_version (\<lambda>rs. rs) 9 ''v2'' (consent_world 1 2 plain_proc))))) = Some n \<and>
      cv_version_id n = ''v2'')"
proof -
  let ?w = "consent_world 1 2 plain_proc" and ?run = "activate_consent_version (\<lambda>rs. rs) 9 ''v2'' (consent_world 1 2 plain_proc)"
  have ok: "consent_ok (t_consent_versions (w_prod ?w))" by (rule consent_world_ok) simp
  have "db_ready False ?w" by (simp add: consent_world_def)
  then obtain w' where "?run = (Ok (), w')"
    using activate_run [OF _ ok, of "\<lambda>rs. rs" 9 "''v2''"]
    by (simp add: consent_world_def consent_row_def changed_versions_def activated_def deactivated_def update_consent_version_def)
  then show ?thesis
    using activation_switches [OF ok, of "\<lambda>rs. rs" 9 "''v2''" "Ok ()" w'] by auto
qed

text \<open>
  an activation can be impossible. When the unit of work writes changed rows
  in the order of their primary keys, as SQLAlchemy does, and the new version's
  key is below the active one's, the new row becomes active while the old one
  still is, and the partial unique index refuses every activation of it.
\<close>

theorem activation_needs_larger_key:
  assumes "db_ready False w" and "consent_ok (t_consent_versions (w_prod w))"
    and "c \<in> set (t_consent_versions (w_prod w))" and "cv_is_active c"
    and "n \<in> set (t_consent_versions (w_prod w))" and "cv_id n < cv_id c"
  shows "activate_consent_version (sort_key cv_id) now (cv_version_id n) w =
    (Raise (IntegrityError ''duplicate key value violates unique constraint ix_consent_versions_active''), w)"
proof -
  let ?vs = "t_consent_versions (w_prod w)"
  let ?n = "(activated now n)\<lparr>cv_updated_at := now\<rparr>" and ?c = "(deactivated now c)\<lparr>cv_updated_at := now\<rparr>"
  have "changed_versions now (find cv_is_active ?vs) n = [?c, ?n]"
    using find_active [OF assms(2-4)] assms(6) by (auto simp: changed_versions_def)
  moreover have "sort_key cv_id [?c, ?n] = [?n, ?c]"
    using assms(6) by (simp add: activated_def deactivated_def)
  moreover have "list_ex (\<lambda>x. cv_is_active x \<and> cv_id x \<noteq> cv_id ?n) ?vs"
    using assms(3,4,6) by (auto simp: list_ex_iff activated_def)
  then have "flush_updates [?n, ?c] (w_prod w) =
      Raise (IntegrityError ''duplicate key value violates unique constraint ix_consent_versions_active'')"
    by (simp add: update_consent_version_def) (simp add: activated_def)
  ultimately show ?thesis
    using activate_run [OF assms(1,2), of "sort_key cv_id" now "cv_version_id n"] find_version [OF assms(2,5)] by simp
qed

theorem activation_needs_larger_key_witness:
  "\<exists>m. fst (activate_consent_version (sort_key cv_id) 9 ''v2'' (consent_world 2 1 plain_proc)) = Raise (IntegrityError m)"
proof -
  have "consent_row 1 ''v2'' False \<in> set (t_consent_versions (w_prod (consent_world 2 1 plain_proc)))"
    "consent_row 2 ''v1'' True \<in> set (t_consent_versions (w_prod (consent_world 2 1 plain_proc)))"
    "db_ready False (consent_world 2 1 plain_proc)"
    by (simp_all add: consent_world_def)
  then show ?thesis
    using activation_needs_larger_key [of "consent_world 2 1 plain_proc" "consent_row 2 ''v1'' True" "consent_row 1 ''v2'' False" 9]
      consent_world_ok [of 2 1 plain_proc]
    by (simp add: consent_row_def)
qed

end
