(* ===== verification/DataSubject.thy ===== *)
theory DataSubject
  imports Retention Consent
begin

text \<open>
  \<open>dpdp/data_subject_handler.py\<close>: access, erasure and withdrawal of consent. The
  request id and the clock readings are arguments; log lines are left out. The rows of an erasure are changed as
  by a retention wipe: the code repeats those assignments.
\<close>

section \<open>Identity\<close>

text \<open>The production rows of the applicant whose PAN digest matches.\<close>

definition subject_row :: "uuid \<Rightarrow> string \<Rightarrow> application \<Rightarrow> bool" where
  "subject_row applicant pan_hmac a \<longleftrightarrow>
     ap_applicant_id a = applicant \<and> ap_pan_hmac a = pan_hmac \<and> \<not> ap_is_demo a"

definition not_found :: "string \<Rightarrow> string \<Rightarrow> exn" where
  "not_found applicant_id rest =
     ValueError (''No applications found for applicant_id '' @ quoted applicant_id @ rest)"

definition access_refused :: "string \<Rightarrow> exn" where
  "access_refused applicant_id = not_found applicant_id '' with the provided PAN. Identity could not be verified.''"

definition erasure_refused :: "string \<Rightarrow> exn" where
  "erasure_refused applicant_id = not_found applicant_id ''. Identity could not be verified.''"

definition withdrawal_refused :: "string \<Rightarrow> exn" where
  "withdrawal_refused applicant_id = not_found applicant_id ''.''"

section \<open>Access\<close>

definition last_chars :: "nat \<Rightarrow> string \<Rightarrow> string" where
  "last_chars n s = drop (length s - n) s"

definition decision_summary :: "decision \<Rightarrow> pyval" where
  "decision_summary d = PDict
     [(''run_number'', PInt (de_run_number d)), (''outcome'', PStr (outcome_value (de_outcome d))),
      (''confidence'', PFloat (de_confidence d)), (''decided_at'', PStr (isoformat (utc_datetime (de_created_at d)))),
      (''is_retro_eval'', PBool (de_is_retro_eval d)),
      (''guideline_version_id'', PStr (uuid_str (de_guideline_version_id d)))]"

definition application_summary :: "decision list \<Rightarrow> application \<Rightarrow> pyval" where
  "application_summary decs a = PDict
     [(''application_id'', PStr (uuid_str (ap_id a))),
      (''submitted_at'', PStr (isoformat (utc_datetime (ap_submitted_at a)))),
      (''loan_purpose'', PStr (ap_loan_purpose a)), (''loan_amount_requested'', PFloat (ap_loan_amount_requested a)),
      (''loan_tenure_months'', PInt (ap_loan_tenure_months a)),
      (''dpdp_consent_version'', PStr (ap_dpdp_consent_version a)),
      (''dpdp_consent_at'', PStr (isoformat (utc_datetime (ap_dpdp_consent_at a)))),
      (''data_retention_expires_at'', PStr (isoformat (utc_datetime (ap_data_retention_expires_at a)))),
      (''retention_wiped'', PBool (ap_retention_wiped a)),
      (''pan_identifier'', PStr (''****'' @ last_chars 4 (ap_pan_hmac a))),
      (''decisions'', PList (map decision_summary
         (sort_key de_run_number (filter (\<lambda>d. de_application_id d = ap_id a) decs))))]"

record data_access_response =
  da_applicant_id :: string
  da_request_id :: string
  da_generated_at :: int
  da_applications_found :: nat
  da_data_held :: "pyval list"
  da_data_categories :: "string list"
  da_retention_info :: pyval
  da_note :: string

definition data_categories :: "string list" where
  "data_categories =
     [''Loan application identifiers and metadata'', ''Loan purpose and amount'', ''Compliance decision outcomes'',
      ''Consent records'', ''Data retention schedule'']"

definition retention_info :: pyval where
  "retention_info = PDict
     [(''policy'', PStr ''Personal data retained for configured retention period after final decision''),
      (''audit_records_retention'', PStr ''Audit hashes and HMACs retained indefinitely for non-repudiation''),
      (''contact'', PStr ''Raise a formal access request with your NBFC for encrypted payload review'')]"

definition access_note :: string where
  "access_note =
     ''This response contains non-sensitive identifiers and decision summaries. '' @
     ''Encrypted personal data requires a formal written request processed by '' @
     ''the compliance team. Contact your NBFC relationship manager.''"

definition handle_access_request ::
  "string \<Rightarrow> int \<Rightarrow> string \<Rightarrow> string \<Rightarrow> (world, data_access_response) step" where
  "handle_access_request request_id now applicant_id requesting_pan_hmac =
     query False (\<lambda>d.
       rbind (parse_uuid applicant_id) (\<lambda>applicant.
         let applications = sort_key (\<lambda>a. - ap_submitted_at a)
               (filter (subject_row applicant requesting_pan_hmac) (t_applications d))
         in if applications = [] then Raise (access_refused applicant_id)
            else Ok \<lparr>da_applicant_id = applicant_id, da_request_id = request_id, da_generated_at = now,
                     da_applications_found = length applications,
                     da_data_held = map (application_summary (t_decisions d)) applications,
                     da_data_categories = data_categories, da_retention_info = retention_info, da_note = access_note\<rparr>))"

section \<open>Erasure\<close>

record erasure_response =
  er_applicant_id :: string
  er_request_id :: string
  er_processed_at :: int
  er_applications_wiped :: nat
  er_applications_retained :: "string list"
  er_retained_reason :: string
  er_erasure_complete :: bool

definition retained_reason :: string where
  "retained_reason =
     ''Audit records (decision hash and HMAC) are retained indefinitely '' @
     ''for regulatory non-repudiation purposes under RBI NBFC directions. '' @
     ''Decision outcomes are retained for dispute resolution. '' @
     ''No personal identification data remains in retained records.''"

definition erase_rows :: "(uuid \<Rightarrow> uuid) \<Rightarrow> string \<Rightarrow> int \<Rightarrow> application list \<Rightarrow> db \<Rightarrow> db" where
  "erase_rows event_id request_id now rows d =
     d\<lparr>t_applications := on_rows ap_id (ap_id ` set rows) (wipe_application now) (t_applications d),
       t_retention_events := t_retention_events d @
         map (wipe_event event_id now (''erasure-request-'' @ request_id) 0) rows\<rparr>"

definition handle_erasure_request ::
  "(uuid \<Rightarrow> uuid) \<Rightarrow> string \<Rightarrow> int \<Rightarrow> string \<Rightarrow> string \<Rightarrow> (world, erasure_response) step" where
  "handle_erasure_request event_id request_id now applicant_id requesting_pan_hmac =
     in_session False (\<lambda>d.
       rbind (parse_uuid applicant_id) (\<lambda>applicant.
         let applications = filter (subject_row applicant requesting_pan_hmac) (t_applications d);
             fresh = filter (\<lambda>a. \<not> ap_retention_wiped a) applications;
             retained = map (\<lambda>a. uuid_str (ap_id a)) (filter ap_retention_wiped applications)
         in if applications = [] then Raise (erasure_refused applicant_id)
            else Ok (\<lparr>er_applicant_id = applicant_id, er_request_id = request_id, er_processed_at = now,
                      er_applications_wiped = length fresh, er_applications_retained = retained,
                      er_retained_reason = retained_reason, er_erasure_complete = (length retained = 0)\<rparr>,
                     erase_rows event_id request_id now fresh d)))"

section \<open>Withdrawal\<close>

definition withdraw_application :: "int \<Rightarrow> application \<Rightarrow> application" where
  "withdraw_application now a =
     (if ap_dpdp_consent_given a then a\<lparr>ap_dpdp_consent_given := False, ap_updated_at := now\<rparr> else a)"

definition handle_consent_withdrawal :: "int \<Rightarrow> string \<Rightarrow> string \<Rightarrow> (world, (string \<times> pyval) list) step" where
  "handle_consent_withdrawal now applicant_id requesting_pan_hmac =
     in_session False (\<lambda>d.
       rbind (parse_uuid applicant_id) (\<lambda>applicant.
         let applications = filter (subject_row applicant requesting_pan_hmac) (t_applications d)
         in if applications = [] then Raise (withdrawal_refused applicant_id)
            else Ok ([(''applicant_id'', PStr applicant_id),
                      (''consent_withdrawn_at'', PStr (isoformat (utc_datetime now))),
                      (''applications_affected'', PInt (int (length applications))),
                      (''message'', PStr (''Consent has been withdrawn. Future applications will require fresh consent. '' @
                         ''Prior decisions made under valid consent remain legally effective.''))],
                     d\<lparr>t_applications := on_rows ap_id (ap_id ` set applications) (withdraw_application now)
                         (t_applications d)\<rparr>)))"

interpretation withdrawal: row_drain ap_dpdp_consent_given "withdraw_application now" ap_id for now
  by unfold_locales (simp_all add: withdraw_application_def)

section \<open>Facts\<close>

lemma access_run:
  assumes "db_ready False w" and "parse_uuid applicant_id = Ok u"
  shows "handle_access_request rid now applicant_id pan w =
    (let applications = sort_key (\<lambda>a. - ap_submitted_at a) (filter (subject_row u pan) (t_applications (w_prod w)))
     in if applications = [] then Raise (access_refused applicant_id)
        else Ok \<lparr>da_applicant_id = applicant_id, da_request_id = rid, da_generated_at = now,
                 da_applications_found = length applications,
                 da_data_held = map (application_summary (t_decisions (w_prod w))) applications,
                 da_data_categories = data_categories, da_retention_info = retention_info, da_note = access_note\<rparr>, w)"
  using assms by (simp add: handle_access_request_def query_ready select_db_def Let_def)

lemma erasure_run:
  assumes "db_ready False w" and "parse_uuid applicant_id = Ok u"
    and "filter (subject_row u pan) (t_applications (w_prod w)) \<noteq> []"
  shows "handle_erasure_request event_id rid now applicant_id pan w =
    (Ok \<lparr>er_applicant_id = applicant_id, er_request_id = rid, er_processed_at = now,
       er_applications_wiped = length (filter (\<lambda>a. subject_row u pan a \<and> \<not> ap_retention_wiped a) (t_applications (w_prod w))),
       er_applications_retained = map (\<lambda>a. uuid_str (ap_id a)) (filter (\<lambda>a. subject_row u pan a \<and> ap_retention_wiped a) (t_applications (w_prod w))),
       er_retained_reason = retained_reason,
       er_erasure_complete = (\<forall>a\<in>set (t_applications (w_prod w)). subject_row u pan a \<longrightarrow> \<not> ap_retention_wiped a)\<rparr>,
     w\<lparr>w_prod := erase_rows event_id rid now (filter (\<lambda>a. subject_row u pan a \<and> \<not> ap_retention_wiped a) (t_applications (w_prod w))) (w_prod w)\<rparr>)"
  using assms
  by (auto simp: handle_erasure_request_def in_session_ready select_db_def store_db_def Let_def conj_commute filter_empty_conv)

lemma not_subject:
  assumes "filter (subject_row u pan) (t_applications (w_prod w)) = []" and "db_ready False w"
    and "parse_uuid applicant_id = Ok u"
  shows "handle_access_request rid now applicant_id pan w = (Raise (access_refused applicant_id), w)"
    and "handle_erasure_request event_id rid now applicant_id pan w = (Raise (erasure_refused applicant_id), w)"
    and "handle_consent_withdrawal now applicant_id pan w = (Raise (withdrawal_refused applicant_id), w)"
  using assms access_run [OF assms(2,3)]
  by (simp_all add: handle_erasure_request_def handle_consent_withdrawal_def in_session_ready select_db_def Let_def)

section \<open>Properties\<close>

text \<open>
  C16: an erasure erases. For a verified applicant the request succeeds; after it
  every production application of the applicant is wiped and has no payload,
  collateral or city, every other application is as before, one event is appended
  per application it wiped, and audit records, decisions and all else stay.
\<close>

theorem erasure_erases:
  assumes "db_ready False w" and "parse_uuid applicant_id = Ok u" and "distinct (map ap_id (t_applications (w_prod w)))"
    and "filter (subject_row u pan) (t_applications (w_prod w)) \<noteq> []"
  shows "\<exists>r w'. handle_erasure_request event_id rid now applicant_id pan w = (Ok r, w') \<and> beyond_wipe w' = beyond_wipe w \<and>
    (\<forall>a\<in>set (t_applications (w_prod w')). subject_row u pan a \<longrightarrow> ap_retention_wiped a) \<and>
    list_all2 (\<lambda>a a'. a' = (if subject_row u pan a \<and> \<not> ap_retention_wiped a then wipe_application now a else a))
      (t_applications (w_prod w)) (t_applications (w_prod w')) \<and>
    length (t_retention_events (w_prod w')) = length (t_retention_events (w_prod w)) + er_applications_wiped r"
proof -
  let ?apps = "t_applications (w_prod w)"
  let ?fresh = "filter (\<lambda>a. subject_row u pan a \<and> \<not> ap_retention_wiped a) ?apps"
  let ?w = "w\<lparr>w_prod := erase_rows event_id rid now ?fresh (w_prod w)\<rparr>"
  have mem: "ap_id a \<in> ap_id ` set ?fresh \<longleftrightarrow> subject_row u pan a \<and> \<not> ap_retention_wiped a" if "a \<in> set ?apps" for a
    using that assms(3) by (auto simp: distinct_map inj_on_def)
  have rows: "t_applications (w_prod ?w) =
      map (\<lambda>a. if subject_row u pan a \<and> \<not> ap_retention_wiped a then wipe_application now a else a) ?apps"
    using mem by (simp add: erase_rows_def on_rows_def cong: map_cong)
  have "\<forall>a\<in>set (t_applications (w_prod ?w)). subject_row u pan a \<longrightarrow> ap_retention_wiped a"
    unfolding rows by (auto simp: wipe_application_def)
  moreover have "beyond_wipe ?w = beyond_wipe w" by (simp add: beyond_wipe_def erase_rows_def)
  moreover have "list_all2 (\<lambda>a a'. a' = (if subject_row u pan a \<and> \<not> ap_retention_wiped a then wipe_application now a else a))
      ?apps (t_applications (w_prod ?w))"
    unfolding rows by (simp add: list_all2_map2 list_all2_same)
  moreover obtain r where "handle_erasure_request event_id rid now applicant_id pan w = (Ok r, ?w)"
    "er_applications_wiped r = length ?fresh"
    using erasure_run [OF assms(1,2,4), of event_id rid now] by simp
  moreover from this(2)
  have "length (t_retention_events (w_prod ?w)) = length (t_retention_events (w_prod w)) + er_applications_wiped r"
    by (simp add: erase_rows_def)
  ultimately show ?thesis by blast
qed

text \<open>
  a repeated erasure is reported as incomplete. When any application of the
  applicant was already wiped, by retention or an earlier request, the response
  says the erasure is not complete although nothing is left to erase.
\<close>

theorem repeated_erasure_incomplete:
  assumes "db_ready False w" and "parse_uuid applicant_id = Ok u"
    and "a \<in> set (t_applications (w_prod w))" and "subject_row u pan a" and "ap_retention_wiped a"
  shows "\<exists>r w'. handle_erasure_request event_id rid now applicant_id pan w = (Ok r, w') \<and> \<not> er_erasure_complete r \<and>
    uuid_str (ap_id a) \<in> set (er_applications_retained r)"
proof -
  have "filter (subject_row u pan) (t_applications (w_prod w)) \<noteq> []" using assms(3,4) by (auto simp: filter_empty_conv)
  then show ?thesis
    using erasure_run [OF assms(1,2), of pan event_id rid now] assms(3-5) by auto
qed

text \<open>A change of personal fields only.\<close>

definition masked :: "(application \<Rightarrow> application) \<Rightarrow> bool" where
  "masked m \<longleftrightarrow> (\<forall>a. \<exists>name income obl coll city pay ip.
     m a = a\<lparr>ap_applicant_name := name, ap_declared_income := income, ap_declared_obligations := obl,
             ap_collateral_value := coll, ap_city_tier := city, ap_payload_encrypted := pay, ap_source_ip_hash := ip\<rparr>)"

lemma masked_visible:
  assumes "masked m"
  shows "application_summary ds (m a) = application_summary ds a" and "subject_row u pan (m a) = subject_row u pan a"
    and "ap_submitted_at (m a) = ap_submitted_at a"
proof -
  obtain n i ob c ci pa ip where m: "m a = a\<lparr>ap_applicant_name := n, ap_declared_income := i, ap_declared_obligations := ob,
      ap_collateral_value := c, ap_city_tier := ci, ap_payload_encrypted := pa, ap_source_ip_hash := ip\<rparr>"
    using assms unfolding masked_def by blast
  show "application_summary ds (m a) = application_summary ds a" "subject_row u pan (m a) = subject_row u pan a"
    "ap_submitted_at (m a) = ap_submitted_at a"
    by (simp_all add: m application_summary_def subject_row_def)
qed

lemma insort_map: "(\<And>x. k (m x) = k x) \<Longrightarrow> insort_key k (m x) (map m ys) = map m (insort_key k x ys)"
  by (induction ys) auto

lemma sort_map: "(\<And>x. k (m x) = k x) \<Longrightarrow> sort_key k (map m xs) = map m (sort_key k xs)"
  by (induction xs) (auto simp: insort_map)

text \<open>
  C38: an access response shows no personal data. Whatever is put in place of the
  encrypted payload, the name, the income, the obligations, the collateral, the
  city tier and the source address of every application, the response is the same.
\<close>

theorem access_hides_personal_data:
  assumes "masked m"
  shows "fst (handle_access_request rid now applicant_id pan
      (w\<lparr>w_prod := (w_prod w)\<lparr>t_applications := map m (t_applications (w_prod w))\<rparr>\<rparr>)) =
    fst (handle_access_request rid now applicant_id pan w)"
proof -
  let ?w = "w\<lparr>w_prod := (w_prod w)\<lparr>t_applications := map m (t_applications (w_prod w))\<rparr>\<rparr>"
  have ready: "db_ready False ?w = db_ready False w" by (simp add: db_ready_def)
  have rows: "filter (subject_row u pan) (map m xs) = map m (filter (subject_row u pan) xs)" for u xs
    by (induction xs) (auto simp: masked_visible [OF assms])
  show ?thesis
  proof (cases "db_ready False w")
    case True
    then show ?thesis
      using ready
      by (cases "parse_uuid applicant_id")
        (simp_all add: handle_access_request_def query_ready select_db_def Let_def rows
          sort_map [of "\<lambda>a. - ap_submitted_at a" m] masked_visible [OF assms])
  next
    case False
    then show ?thesis
      unfolding handle_access_request_def query_def in_session_def get_engine_for_context_def
      by (auto simp: db_ready_def Let_def split: option.splits)
  qed
qed

text \<open>
  without the PAN digest nothing happens. A request for an applicant none of
  whose production rows carries the given digest is refused, and no row, event or
  summary is produced.
\<close>

theorem unverified_subject_refused:
  assumes "db_ready False w" and "parse_uuid applicant_id = Ok u"
    and "\<forall>a\<in>set (t_applications (w_prod w)). ap_applicant_id a = u \<longrightarrow> ap_pan_hmac a \<noteq> pan \<or> ap_is_demo a"
  shows "handle_access_request rid now applicant_id pan w = (Raise (access_refused applicant_id), w) \<and>
    handle_erasure_request event_id rid now applicant_id pan w = (Raise (erasure_refused applicant_id), w) \<and>
    handle_consent_withdrawal now applicant_id pan w = (Raise (withdrawal_refused applicant_id), w)"
proof -
  have "filter (subject_row u pan) (t_applications (w_prod w)) = []"
    using assms(3) by (auto simp: filter_empty_conv subject_row_def)
  then show ?thesis using not_subject [OF _ assms(1,2)] by simp
qed

text \<open>
  a withdrawal does not reach the consent gate. It records the withdrawal on
  the applicant's stored applications, but the check of a new application answers
  the same after it as before, for every request.
\<close>

theorem withdrawal_not_enforced:
  assumes "handle_consent_withdrawal now applicant_id pan w = (Ok r, w')"
  shows "fst (validate_consent t flag ver ts hours w') = fst (validate_consent t flag ver ts hours w) \<and>
    (\<exists>u. parse_uuid applicant_id = Ok u \<and>
       (\<forall>a\<in>set (t_applications (w_prod w')). subject_row u pan a \<longrightarrow> \<not> ap_dpdp_consent_given a))"
proof -
  have ready: "db_ready False w"
  proof (rule ccontr)
    assume "\<not> db_ready False w"
    then obtain e where "handle_consent_withdrawal now applicant_id pan w = (Raise e, w)"
      unfolding handle_consent_withdrawal_def using in_session_not_ready by blast
    then show False using assms by simp
  qed
  obtain u where u: "parse_uuid applicant_id = Ok u"
    and w': "w' = w\<lparr>w_prod := (w_prod w)\<lparr>t_applications := on_rows ap_id (ap_id ` set (filter (subject_row u pan) (t_applications (w_prod w))))
        (withdraw_application now) (t_applications (w_prod w))\<rparr>\<rparr>"
    using assms ready
    by (cases "parse_uuid applicant_id")
      (auto simp: handle_consent_withdrawal_def in_session_ready select_db_def store_db_def Let_def split: if_splits)
  have subj: "subject_row u pan (withdraw_application now a) = subject_row u pan a" for a
    by (simp add: subject_row_def withdraw_application_def)
  have "get_active_consent_version w' = (fst (get_active_consent_version w), w')"
    using ready by (simp add: get_active_consent_version_def query_ready select_db_def w' db_ready_def)
  moreover have "get_active_consent_version w = (fst (get_active_consent_version w), w)"
    by (simp add: get_active_consent_version_def prod_eq_iff)
  moreover have "w_proc w' = w_proc w" by (simp add: w')
  ultimately have "fst (validate_consent t flag ver ts hours w') = fst (validate_consent t flag ver ts hours w)"
    by (auto simp: validate_consent_def sbind_def slift_def sret_def split: sum.splits prod.splits)
  moreover have "\<forall>a\<in>set (t_applications (w_prod w')). subject_row u pan a \<longrightarrow> \<not> ap_dpdp_consent_given a"
    using subj by (auto simp: w' on_rows_def withdrawal.work_done split: if_splits)
  ultimately show ?thesis using u by blast
qed

text \<open>
  an erasure leaves the applicant's name. Neither the plaintext name nor the
  declared income of any application changes in an erasure, although its response
  says that no personal identification data remains.
\<close>

theorem erasure_keeps_names:
  assumes "handle_erasure_request event_id rid now applicant_id pan w = (Ok r, w')"
  shows "map (\<lambda>a. (ap_id a, ap_applicant_name a, ap_declared_income a)) (t_applications (w_prod w')) =
    map (\<lambda>a. (ap_id a, ap_applicant_name a, ap_declared_income a)) (t_applications (w_prod w)) \<and>
    er_retained_reason r = retained_reason"
proof -
  have ready: "db_ready False w"
  proof (rule ccontr)
    assume "\<not> db_ready False w"
    then obtain e where "handle_erasure_request event_id rid now applicant_id pan w = (Raise e, w)"
      unfolding handle_erasure_request_def using in_session_not_ready by blast
    then show False using assms by simp
  qed
  then show ?thesis
    using assms
    by (cases "parse_uuid applicant_id")
      (auto simp: handle_erasure_request_def in_session_ready select_db_def store_db_def Let_def erase_rows_def on_rows_def
        wipe_application_def split: if_splits)
qed

section \<open>Witnesses\<close>

definition subject_world :: world where
  "subject_world = sample_world plain_proc (empty_db\<lparr>t_applications :=
     [sample_application 1, (sample_application 2)\<lparr>ap_retention_wiped := True\<rparr>, (sample_application 3)\<lparr>ap_applicant_id := 8\<rparr>]\<rparr>)"

lemma subject_world_facts:
  "db_ready False subject_world" "parse_uuid (uuid_str 9) = Ok 9"
  "t_applications (w_prod subject_world) =
     [sample_application 1, (sample_application 2)\<lparr>ap_retention_wiped := True\<rparr>, (sample_application 3)\<lparr>ap_applicant_id := 8\<rparr>]"
  by (simp_all add: subject_world_def)

theorem erasure_erases_witness:
  "\<exists>r w'. handle_erasure_request id ''r'' 20 (uuid_str 9) ''aa'' subject_world = (Ok r, w') \<and>
     (\<forall>a\<in>set (t_applications (w_prod w')). subject_row 9 ''aa'' a \<longrightarrow> ap_retention_wiped a)"
proof -
  have "distinct (map ap_id (t_applications (w_prod subject_world)))"
    "filter (subject_row 9 ''aa'') (t_applications (w_prod subject_world)) \<noteq> []"
    by (simp_all add: subject_world_facts sample_application_def subject_row_def)
  then show ?thesis using erasure_erases [OF subject_world_facts(1,2), of "''aa''" id "''r''" 20] by blast
qed

theorem repeated_erasure_incomplete_witness:
  "\<exists>r w'. handle_erasure_request id ''r'' 20 (uuid_str 9) ''aa'' subject_world = (Ok r, w') \<and> \<not> er_erasure_complete r"
  using repeated_erasure_incomplete [OF subject_world_facts(1,2), of "(sample_application 2)\<lparr>ap_retention_wiped := True\<rparr>" "''aa''" id "''r''" 20]
  by (auto simp: subject_world_facts sample_application_def subject_row_def)

theorem erasure_keeps_names_witness:
  "\<exists>r w'. handle_erasure_request id ''r'' 20 (uuid_str 9) ''aa'' subject_world = (Ok r, w') \<and>
     map ap_applicant_name (t_applications (w_prod w')) = [''A'', ''A'', ''A'']"
proof -
  have "filter (subject_row 9 ''aa'') (t_applications (w_prod subject_world)) \<noteq> []"
    by (simp add: subject_world_facts sample_application_def subject_row_def)
  then obtain r w' where run: "handle_erasure_request id ''r'' 20 (uuid_str 9) ''aa'' subject_world = (Ok r, w')"
    using erasure_run [OF subject_world_facts(1,2)] by blast
  have "map ap_applicant_name rows = map (\<lambda>(_, n, _). n) (map (\<lambda>a. (ap_id a, ap_applicant_name a, ap_declared_income a)) rows)" for rows
    by simp
  then show ?thesis
    using run erasure_keeps_names [OF run] by (auto simp: subject_world_facts sample_application_def)
qed

theorem access_hides_personal_data_witness:
  "fst (handle_access_request ''r'' 20 (uuid_str 9) ''aa''
     (subject_world\<lparr>w_prod := (w_prod subject_world)\<lparr>t_applications :=
        map (\<lambda>a. a\<lparr>ap_applicant_name := ''B''\<rparr>) (t_applications (w_prod subject_world))\<rparr>\<rparr>)) =
   fst (handle_access_request ''r'' 20 (uuid_str 9) ''aa'' subject_world)"
proof (rule access_hides_personal_data)
  show "masked (\<lambda>a. a\<lparr>ap_applicant_name := ''B''\<rparr>)"
    unfolding masked_def
  proof
    fix a :: application
    have "a\<lparr>ap_applicant_name := ''B''\<rparr> = a\<lparr>ap_applicant_name := ''B'', ap_declared_income := ap_declared_income a,
        ap_declared_obligations := ap_declared_obligations a, ap_collateral_value := ap_collateral_value a,
        ap_city_tier := ap_city_tier a, ap_payload_encrypted := ap_payload_encrypted a, ap_source_ip_hash := ap_source_ip_hash a\<rparr>"
      by simp
    then show "\<exists>name income obl coll city pay ip. a\<lparr>ap_applicant_name := ''B''\<rparr> = a\<lparr>ap_applicant_name := name,
        ap_declared_income := income, ap_declared_obligations := obl, ap_collateral_value := coll,
        ap_city_tier := city, ap_payload_encrypted := pay, ap_source_ip_hash := ip\<rparr>"
      by blast
  qed
qed

theorem unverified_subject_refused_witness:
  "fst (handle_erasure_request id ''r'' 20 (uuid_str 9) ''bb'' subject_world) = Raise (erasure_refused (uuid_str 9))"
  using unverified_subject_refused [OF subject_world_facts(1,2), of "''bb''" "''r''" 20 id]
  by (simp add: subject_world_facts sample_application_def)

theorem withdrawal_not_enforced_witness:
  "\<exists>r w'. handle_consent_withdrawal 20 (uuid_str 9) ''aa'' subject_world = (Ok r, w') \<and>
     fst (validate_consent 5 (PBool True) ''v1'' (utc_datetime 5) 24 w') =
     fst (validate_consent 5 (PBool True) ''v1'' (utc_datetime 5) 24 subject_world)"
proof -
  have "\<exists>r w'. handle_consent_withdrawal 20 (uuid_str 9) ''aa'' subject_world = (Ok r, w')"
    using subject_world_facts
    by (simp add: handle_consent_withdrawal_def in_session_ready select_db_def Let_def sample_application_def subject_row_def)
  then show ?thesis using withdrawal_not_enforced by blast
qed

end
