(* ===== verification/Breach.thy ===== *)
theory Breach
  imports Dpdp Uploader
begin

text \<open>
  \<open>dpdp/breach_response.py\<close> and the two stored procedures it calls (migration
  0005). The clock readings, the primary keys of the new notifications and
  PostgreSQL's rendering of a timestamp are arguments, as are the messages of the
  retro-evaluation queue and the Celery control that revokes them. Metrics and
  log lines are left out.
\<close>

section \<open>Procedures\<close>

definition flag_record :: "int \<Rightarrow> audit_record \<Rightarrow> audit_record" where
  "flag_record now r =
     (if au_breach_flag r then r else r\<lparr>au_breach_flag := True, au_breach_flagged_at := Some now\<rparr>)"

interpretation flagging: row_drain "\<lambda>r. \<not> au_breach_flag r" "flag_record now" au_application_id for now
  by unfold_locales (simp_all add: flag_record_def)

definition new_notification :: "uuid \<Rightarrow> int \<Rightarrow> uuid option \<Rightarrow> string option \<Rightarrow> pyval \<Rightarrow> notification_outbox" where
  "new_notification nid now app email payload =
     \<lparr>no_id = nid, no_is_demo = False, no_created_at = now, no_updated_at = now,
      no_notification_type = BREACH_ALERT, no_channel = EMAIL, no_recipient_application_id = app,
      no_recipient_reviewer_id = None, no_recipient_email = email, no_recipient_webhook_url = None,
      no_payload = payload, no_status = PENDING, no_retry_count = 0, no_max_retries = 3,
      no_next_retry_at = None, no_sent_at = None, no_failure_reason = None\<rparr>"

definition breach_payload :: "(int \<Rightarrow> string) \<Rightarrow> int \<Rightarrow> uuid \<Rightarrow> nat \<Rightarrow> pyval" where
  "breach_payload pg_timestamp now p n = PDict
     [(''application_id'', PStr (uuid_str p)), (''breach_detected_at'', PStr (pg_timestamp now)),
      (''records_affected'', PInt (int n)),
      (''message'', PStr (''A data breach has been detected affecting your application data. '' @
         ''You will be contacted with further details within 72 hours.''))]"

record pg =
  pg_now :: int
  pg_timestamp :: "int \<Rightarrow> string"
  pg_notification_id :: "uuid \<Rightarrow> uuid"

definition unflagged :: "uuid \<Rightarrow> db \<Rightarrow> nat" where
  "unflagged p d = length (filter (\<lambda>r. au_application_id r = p \<and> \<not> au_breach_flag r) (t_audit_records d))"

text \<open>The notification's foreign key is the application.\<close>

definition break_glass :: "pg \<Rightarrow> uuid \<Rightarrow> db \<Rightarrow> ((nat \<times> nat) \<times> db) result" where
  "break_glass g p d =
     (let v_records_flagged = unflagged p d;
          flagged = on_rows au_application_id {p} (flag_record (pg_now g)) (t_audit_records d);
          alert = new_notification (pg_notification_id g p) (pg_now g) (Some p) None
            (breach_payload (pg_timestamp g) (pg_now g) p v_records_flagged)
      in if find_application d p = None
         then Raise (IntegrityError ''insert or update on table notification_outbox violates foreign key constraint'')
         else Ok ((v_records_flagged, 1),
                  d\<lparr>t_audit_records := flagged, t_notification_outbox := t_notification_outbox d @ [alert]\<rparr>))"

text \<open>
  In \<open>break_glass_range\<close> the names \<open>records_flagged\<close> and \<open>notifications_queued\<close>
  are both output variables of the procedure and columns of the inner call. What
  such a name means is PostgreSQL's setting \<open>plpgsql.variable_conflict\<close>: an error
  (the default), the column, or the variable (here NULL, counted as 0).
\<close>

datatype variable_conflict = Conflict_Error | Use_Column | Use_Variable

definition ambiguous :: exn where
  "ambiguous = OtherExn ''ProgrammingError'' ''column reference records_flagged is ambiguous''"

fun range_loop :: "variable_conflict \<Rightarrow> pg \<Rightarrow> uuid list \<Rightarrow> nat \<times> nat \<times> nat \<Rightarrow> db \<Rightarrow> ((nat \<times> nat \<times> nat) \<times> db) result" where
  "range_loop vc g [] totals d = Ok (totals, d)"
| "range_loop vc g (p # ps) (apps, records, alerts) d =
     (if vc = Conflict_Error then Raise ambiguous
      else rbind (break_glass g p d) (\<lambda>((v_records, v_notes), d').
        range_loop vc g ps
          (apps + 1, records + (if vc = Use_Column then v_records else 0), alerts + (if vc = Use_Column then v_notes else 0)) d'))"

definition range_applications :: "int \<Rightarrow> int \<Rightarrow> db \<Rightarrow> uuid list" where
  "range_applications start_time end_time d =
     remdups (map au_application_id (filter (\<lambda>r. start_time \<le> au_written_at r \<and> au_written_at r \<le> end_time) (t_audit_records d)))"

definition break_glass_range :: "variable_conflict \<Rightarrow> pg \<Rightarrow> int \<Rightarrow> int \<Rightarrow> db \<Rightarrow> ((nat \<times> nat \<times> nat) \<times> db) result" where
  "break_glass_range vc g start_time end_time d =
     range_loop vc g (range_applications start_time end_time d) (0, 0, 0) d"

section \<open>The Python wrapper\<close>

text \<open>
  The application id is a query argument of type uuid, given as a text. The
  database driver encodes it: 32 to 36 characters, hyphens anywhere, and between
  them exactly 32 hexadecimal digits. Braces and \<open>urn:\<close> are refused.
\<close>

definition uuid_argument :: "string \<Rightarrow> uuid result" where
  "uuid_argument s =
     (let h = filter (\<lambda>c. c \<noteq> CHR ''-'') s in
      if 32 \<le> length s \<and> length s \<le> 36 \<and> length h = 32 \<and> list_all (\<lambda>c. hexval c \<noteq> None) h
      then Ok (of_nat (undigits 16 (map (\<lambda>c. the (hexval c)) h)))
      else Raise (OtherExn ''DBAPIError'' ''invalid input for query argument''))"

definition call_break_glass_procedure ::
  "variable_conflict \<Rightarrow> pg \<Rightarrow> string option \<Rightarrow> int \<Rightarrow> int \<Rightarrow> (world, nat \<times> nat) step" where
  "call_break_glass_procedure vc g application_id start_time end_time =
     in_session False (\<lambda>d. case application_id of
         Some s \<Rightarrow> rbind (uuid_argument s) (\<lambda>p. break_glass g p d)
       | None \<Rightarrow> rbind (break_glass_range vc g start_time end_time d) (\<lambda>((_, n, m), d'). Ok ((n, m), d')))"

text \<open>One message of the queue: the task to revoke, if it is one of the application's.\<close>

definition task_to_revoke :: "string option \<Rightarrow> string \<Rightarrow> pyval option" where
  "task_to_revoke application_id raw =
     (case (if raw = [] then Raise json_error else loads raw) of
        Inr (PDict task_data) \<Rightarrow>
          (case (case dict_get ''kwargs'' task_data of None \<Rightarrow> PDict [] | Some v \<Rightarrow> v) of
             PDict task_kwargs \<Rightarrow>
               let task_app_id = (case dict_get ''application_id'' task_kwargs of None \<Rightarrow> PStr [] | Some v \<Rightarrow> v) in
               (case application_id of
                  Some (c # s) \<Rightarrow>
                    if task_app_id = PStr (c # s)
                    then (case dict_get ''id'' task_data of Some i \<Rightarrow> if truthy i then Some i else None | None \<Rightarrow> None)
                    else None
                | _ \<Rightarrow> None)
           | _ \<Rightarrow> None)
      | _ \<Rightarrow> None)"

fun revoke_until :: "(pyval \<Rightarrow> bool) \<Rightarrow> pyval list \<Rightarrow> pyval list" where
  "revoke_until fails [] = []"
| "revoke_until fails (t # ts) = (if fails t then [] else t # revoke_until fails ts)"

text \<open>The revoked tasks; the code returns how many they are. An unreachable queue freezes none.\<close>

definition freeze_retro_eval_jobs :: "string list result \<Rightarrow> (pyval \<Rightarrow> bool) \<Rightarrow> string option \<Rightarrow> pyval list" where
  "freeze_retro_eval_jobs queue revoke_fails application_id =
     (case queue of
        Inl _ \<Rightarrow> []
      | Inr raws \<Rightarrow> revoke_until revoke_fails (List.map_filter (task_to_revoke application_id) (take 10000 raws)))"

definition get_affected_application_ids :: "string option \<Rightarrow> int \<Rightarrow> int \<Rightarrow> (world, string list) step" where
  "get_affected_application_ids application_id start_time end_time =
     (case application_id of
        Some (c # s) \<Rightarrow> sret [c # s]
      | _ \<Rightarrow> query False (\<lambda>d. Ok (map uuid_str (take 1000 (range_applications start_time end_time d)))))"

text \<open>An em dash is written \<open>--\<close>.\<close>

definition assess_data_categories :: "string \<Rightarrow> string list" where
  "assess_data_categories severity =
     [''Application identifiers'', ''Loan application details'', ''Decision outcomes''] @
     (if severity \<in> {''HIGH'', ''CRITICAL''}
      then [''Encrypted personal data payload (AES-256-GCM)'', ''PAN HMAC (not plaintext -- low risk)'', ''Income and financial details'']
      else []) @
     (if severity = ''CRITICAL'' then [''Document metadata'', ''KYC status information''] else [])"

definition get_recommended_actions :: "string \<Rightarrow> string list" where
  "get_recommended_actions severity =
     [''Immediately review breach scope using audit_records.breach_flag query'',
      ''Notify affected applicants via notification_outbox (automated -- verify delivery)'',
      ''Assess whether AES encryption key (AES_KEY) needs rotation'',
      ''Review access logs for unauthorized database access''] @
     (if severity \<in> {''HIGH'', ''CRITICAL''}
      then [''MANDATORY: Notify Data Protection Board within 72 hours (DPDP Act S.8)'',
            ''Engage legal counsel immediately'',
            ''Rotate SERVER_HMAC_KEY and AES_KEY using scripts/rotate_secrets.sh'',
            ''Consider suspending new application intake during investigation'']
      else []) @
     (if severity = ''CRITICAL''
      then [''CRITICAL: Consider notifying law enforcement if fraud is suspected'',
            ''Preserve all server logs for forensic investigation'',
            ''Do not alter or delete any database records until legal review'']
      else [])"

definition board_payload :: "int \<Rightarrow> nat \<Rightarrow> string list \<Rightarrow> string \<Rightarrow> pyval" where
  "board_payload now n affected_ids severity = PDict
     [(''breach_detected_at'', PStr (isoformat (utc_datetime now))), (''records_flagged'', PInt (int n)),
      (''affected_applications_count'', PInt (int (length affected_ids))), (''severity'', PStr severity),
      (''data_fiduciary'', PStr ''ComplianceLoop NBFC''),
      (''message'', PStr (''A personal data breach has been detected affecting '' @ nat_str n @
         '' records. Severity: '' @ severity @
         ''. Formal notification to follow within 72 hours per DPDP Act Section 8.''))]"

definition queue_board_notification :: "uuid \<Rightarrow> int \<Rightarrow> nat \<Rightarrow> string list \<Rightarrow> string \<Rightarrow> (world, unit) step" where
  "queue_board_notification nid now records_flagged affected_ids severity w =
     (let board_email = get_or ''DPDP_BOARD_NOTIFICATION_EMAIL'' (os_environ (w_proc w)) [] in
      if board_email = [] then (Ok (), w)
      else in_session False (\<lambda>d. Ok ((), d\<lparr>t_notification_outbox := t_notification_outbox d @
             [new_notification nid now None (Some board_email) (board_payload now records_flagged affected_ids severity)]\<rparr>)) w)"

record breach_report =
  br_report_id :: string
  br_generated_at :: int
  br_application_ids :: "string list"
  br_records_flagged :: nat
  br_notifications_queued :: nat
  br_retro_eval_jobs_frozen :: nat
  br_data_categories :: "string list"
  br_recommended_actions :: "string list"
  br_severity :: string

record breach_env =
  bv_conflict :: variable_conflict
  bv_pg :: pg
  bv_queue :: "string list result"
  bv_revoke_fails :: "pyval \<Rightarrow> bool"
  bv_detected_at :: int
  bv_board_id :: uuid
  bv_report_id :: string

definition breach_response ::
  "breach_env \<Rightarrow> string option \<Rightarrow> int option \<Rightarrow> int option \<Rightarrow> string \<Rightarrow> (world, breach_report) step" where
  "breach_response v application_id time_range_start time_range_end severity =
     (if application_id = None \<and> (time_range_start = None \<or> time_range_end = None)
      then sraise (ValueError ''Must provide either application_id or both time_range_start and time_range_end.'')
      else
        let t0 = (case time_range_start of Some t \<Rightarrow> t | None \<Rightarrow> 0); t1 = (case time_range_end of Some t \<Rightarrow> t | None \<Rightarrow> 0) in
        sbind (call_break_glass_procedure (bv_conflict v) (bv_pg v) application_id t0 t1) (\<lambda>(records_flagged, notifications_queued).
        let frozen = freeze_retro_eval_jobs (bv_queue v) (bv_revoke_fails v) application_id in
        sbind (get_affected_application_ids application_id t0 t1) (\<lambda>affected_ids.
        sbind (queue_board_notification (bv_board_id v) (bv_detected_at v) records_flagged affected_ids severity) (\<lambda>_.
        sret \<lparr>br_report_id = bv_report_id v, br_generated_at = bv_detected_at v, br_application_ids = affected_ids,
              br_records_flagged = records_flagged, br_notifications_queued = notifications_queued,
              br_retro_eval_jobs_frozen = length frozen, br_data_categories = assess_data_categories severity,
              br_recommended_actions = get_recommended_actions severity, br_severity = severity\<rparr>))))"

section \<open>Lemmas\<close>

lemma uuid_argument_empty: "uuid_argument [] \<noteq> Ok p"
  by (simp add: uuid_argument_def)

lemma uuid_argument_str [simp]: "uuid_argument (uuid_str u) = Ok u"
proof -
  have "CHR ''-'' \<notin> hex_chars" by simp
  then have h: "filter (\<lambda>c. c \<noteq> CHR ''-'') (uuid_str u) = uuid_hex u"
    unfolding uuid_str_def using uuid_hex_chars [of u] by (intro filter_hyphenate) blast
  have digits: "hexval (hexdig d) = Some d" if "d \<in> set (digits_be 16 32 (unat u))" for d
    using digits_be_less [of 16 d 32 "unat u"] that by (simp add: hexdig_facts)
  then have "list_all (\<lambda>c. hexval c \<noteq> None) (uuid_hex u)"
    and "map (\<lambda>c. the (hexval c)) (uuid_hex u) = digits_be 16 32 (unat u)"
    by (simp_all add: uuid_hex_def list_all_iff map_idI)
  moreover have "unat u < 16 ^ 32" using unsigned_less [of u, where 'a = nat] by simp
  ultimately show ?thesis by (simp add: uuid_argument_def Let_def h undigits_digits_be)
qed

lemma break_glass_ok:
  "find_application d p \<noteq> None \<Longrightarrow> break_glass g p d = Ok ((unflagged p d, 1),
     d\<lparr>t_audit_records := on_rows au_application_id {p} (flag_record (pg_now g)) (t_audit_records d),
       t_notification_outbox := t_notification_outbox d @ [new_notification (pg_notification_id g p) (pg_now g) (Some p) None
         (breach_payload (pg_timestamp g) (pg_now g) p (unflagged p d))]\<rparr>)"
  by (simp add: break_glass_def Let_def)

lemma flag_record_application [simp]: "au_application_id (flag_record now r) = au_application_id r"
  by (rule flagging.work_key)

lemma unflagged_other:
  "q \<noteq> p \<Longrightarrow> unflagged q (d\<lparr>t_audit_records := on_rows au_application_id {p} f (t_audit_records d), t_notification_outbox := ns\<rparr>) = unflagged q d"
  if "\<And>r. au_application_id (f r) = au_application_id r"
proof -
  have "length (filter (\<lambda>r. au_application_id r = q \<and> \<not> au_breach_flag r) (on_rows au_application_id {p} f rs)) =
      length (filter (\<lambda>r. au_application_id r = q \<and> \<not> au_breach_flag r) rs)" if "q \<noteq> p" for rs
    using that \<open>\<And>r. au_application_id (f r) = au_application_id r\<close> by (induction rs) (auto simp: on_rows_def)
  then show "q \<noteq> p \<Longrightarrow> unflagged q (d\<lparr>t_audit_records := on_rows au_application_id {p} f (t_audit_records d), t_notification_outbox := ns\<rparr>) = unflagged q d"
    by (simp add: unflagged_def)
qed

lemma on_rows_insert:
  "q \<notin> set ps \<Longrightarrow> on_rows au_application_id (set ps) (flag_record now) (on_rows au_application_id {q} (flag_record now) rs) =
     on_rows au_application_id (insert q (set ps)) (flag_record now) rs"
  by (auto simp: on_rows_def)

text \<open>The rows are flagged whenever the names can be read; the totals are those of the columns.\<close>

lemma range_loop_run:
  assumes "distinct ps" and "\<forall>p\<in>set ps. find_application d p \<noteq> None" and "vc \<noteq> Conflict_Error"
  shows "\<exists>alerts. map no_recipient_application_id alerts = map Some ps \<and>
    range_loop vc g ps (a, n, m) d =
      Ok ((a + length ps, n + (if vc = Use_Column then sum_list (map (\<lambda>p. unflagged p d) ps) else 0),
           m + (if vc = Use_Column then length ps else 0)),
          d\<lparr>t_audit_records := on_rows au_application_id (set ps) (flag_record (pg_now g)) (t_audit_records d),
            t_notification_outbox := t_notification_outbox d @ alerts\<rparr>)"
  using assms(1,2)
proof (induction ps arbitrary: a n m d)
  case Nil
  show ?case by (simp add: on_rows_def)
next
  case (Cons q ps)
  define alert where "alert = new_notification (pg_notification_id g q) (pg_now g) (Some q) None
      (breach_payload (pg_timestamp g) (pg_now g) q (unflagged q d))"
  define d1 where "d1 = d\<lparr>t_audit_records := on_rows au_application_id {q} (flag_record (pg_now g)) (t_audit_records d),
      t_notification_outbox := t_notification_outbox d @ [alert]\<rparr>"
  let ?n = "n + (if vc = Use_Column then unflagged q d else 0)" and ?m = "m + (if vc = Use_Column then 1 else 0)"
  have step: "break_glass g q d = Ok ((unflagged q d, 1), d1)"
    using Cons.prems(2) by (simp add: break_glass_ok alert_def d1_def)
  have counts: "map (\<lambda>p. unflagged p d1) ps = map (\<lambda>p. unflagged p d) ps"
    using Cons.prems(1) unfolding d1_def by (auto intro!: map_cong unflagged_other)
  have "\<forall>p\<in>set ps. find_application d1 p \<noteq> None"
    using Cons.prems(2) by (simp add: d1_def find_application_def)
  then obtain alerts where "map no_recipient_application_id alerts = map Some ps"
    and "range_loop vc g ps (a + 1, ?n, ?m) d1 =
      Ok ((a + 1 + length ps, ?n + (if vc = Use_Column then sum_list (map (\<lambda>p. unflagged p d1) ps) else 0),
           ?m + (if vc = Use_Column then length ps else 0)),
          d1\<lparr>t_audit_records := on_rows au_application_id (set ps) (flag_record (pg_now g)) (t_audit_records d1),
            t_notification_outbox := t_notification_outbox d1 @ alerts\<rparr>)"
    using Cons.IH [of d1 "a + 1" ?n ?m] Cons.prems(1) by auto
  moreover have "no_recipient_application_id alert = Some q" by (simp add: alert_def new_notification_def)
  moreover have "d1\<lparr>t_audit_records := on_rows au_application_id (set ps) (flag_record (pg_now g)) (t_audit_records d1),
      t_notification_outbox := t_notification_outbox d1 @ alerts\<rparr> =
    d\<lparr>t_audit_records := on_rows au_application_id (set (q # ps)) (flag_record (pg_now g)) (t_audit_records d),
      t_notification_outbox := t_notification_outbox d @ alert # alerts\<rparr>" for alerts
    using Cons.prems(1) by (simp add: d1_def on_rows_insert)
  ultimately show ?case
    using assms(3) by (intro exI [of _ "alert # alerts"], cases "vc = Use_Column") (simp_all add: step counts)
qed

lemma board_run:
  assumes "db_ready False w"
  shows "\<exists>alerts. queue_board_notification nid now n ids severity w =
    (Ok (), w\<lparr>w_prod := (w_prod w)\<lparr>t_notification_outbox := t_notification_outbox (w_prod w) @ alerts\<rparr>\<rparr>)"
proof (cases "get_or ''DPDP_BOARD_NOTIFICATION_EMAIL'' (os_environ (w_proc w)) [] = []")
  case True
  then show ?thesis by (intro exI [of _ "[]"]) (simp add: queue_board_notification_def)
next
  case False
  then show ?thesis
    using assms by (auto simp: queue_board_notification_def in_session_ready select_db_def store_db_def Let_def)
qed

section \<open>Properties\<close>

text \<open>What a record shows besides the breach flag.\<close>

definition flag_free :: "audit_record \<Rightarrow> audit_record" where
  "flag_free r = r\<lparr>au_breach_flag := False, au_breach_flagged_at := None\<rparr>"

lemma flag_free_flag [simp]: "flag_free (flag_record now r) = flag_free r"
  by (simp add: flag_free_def flag_record_def)

text \<open>
  C14: a breach response for one application flags all of its audit records and no
  other. It returns, reports the number of records it flagged anew, changes nothing
  of a record but the flag (the time of a record flagged earlier is kept), adds at
  least one notification to the outbox and leaves every other table alone.
\<close>

theorem breach_flags_application:
  assumes "db_ready False w" and "uuid_argument application_id = Ok p" and "find_application (w_prod w) p \<noteq> None"
  shows "\<exists>rep w' alert alerts. breach_response v (Some application_id) t0 t1 severity w = (Ok rep, w') \<and>
    br_records_flagged rep = unflagged p (w_prod w) \<and>
    (\<forall>r\<in>set (t_audit_records (w_prod w')). au_application_id r = p \<longrightarrow> au_breach_flag r) \<and>
    map flag_free (t_audit_records (w_prod w')) = map flag_free (t_audit_records (w_prod w)) \<and>
    filter (\<lambda>r. au_application_id r \<noteq> p) (t_audit_records (w_prod w')) = filter (\<lambda>r. au_application_id r \<noteq> p) (t_audit_records (w_prod w)) \<and>
    w' = w\<lparr>w_prod := (w_prod w)\<lparr>t_audit_records := t_audit_records (w_prod w'),
      t_notification_outbox := t_notification_outbox (w_prod w) @ alert # alerts\<rparr>\<rparr> \<and>
    no_recipient_application_id alert = Some p \<and> no_notification_type alert = BREACH_ALERT"
proof -
  define alert where "alert = new_notification (pg_notification_id (bv_pg v) p) (pg_now (bv_pg v)) (Some p) None
      (breach_payload (pg_timestamp (bv_pg v)) (pg_now (bv_pg v)) p (unflagged p (w_prod w)))"
  define rs where "rs = on_rows au_application_id {p} (flag_record (pg_now (bv_pg v))) (t_audit_records (w_prod w))"
  define w1 where "w1 = w\<lparr>w_prod := (w_prod w)\<lparr>t_audit_records := rs, t_notification_outbox := t_notification_outbox (w_prod w) @ [alert]\<rparr>\<rparr>"
  have ready: "db_ready False w1" using assms(1) by (simp add: db_ready_def w1_def)
  have call: "call_break_glass_procedure (bv_conflict v) (bv_pg v) (Some application_id) a b w = (Ok (unflagged p (w_prod w), 1), w1)" for a b
    using assms
    by (simp add: call_break_glass_procedure_def in_session_ready select_db_def break_glass_ok store_db_def
        w1_def alert_def rs_def)
  obtain c s where cs: "application_id = c # s"
    using assms(2) by (cases application_id) (simp_all add: uuid_argument_empty)
  obtain alerts where board: "queue_board_notification (bv_board_id v) (bv_detected_at v) (unflagged p (w_prod w)) [application_id] severity w1 =
      (Ok (), w1\<lparr>w_prod := (w_prod w1)\<lparr>t_notification_outbox := t_notification_outbox (w_prod w1) @ alerts\<rparr>\<rparr>)"
    using board_run [OF ready] by blast
  have recs: "\<forall>r\<in>set rs. au_application_id r = p \<longrightarrow> au_breach_flag r"
    using flagging.work_done by (auto simp: rs_def on_rows_def)
  have view: "map flag_free rs = map flag_free (t_audit_records (w_prod w))"
    by (simp add: rs_def on_rows_def)
  have others: "filter (\<lambda>r. au_application_id r \<noteq> p) rs = filter (\<lambda>r. au_application_id r \<noteq> p) (t_audit_records (w_prod w))"
  proof -
    have "filter (\<lambda>r. au_application_id r \<noteq> p) (on_rows au_application_id {p} (flag_record t) xs) =
        filter (\<lambda>r. au_application_id r \<noteq> p) xs" for t xs
      by (induction xs) (auto simp: on_rows_def)
    then show ?thesis by (simp add: rs_def)
  qed
  define w2 where "w2 = w1\<lparr>w_prod := (w_prod w1)\<lparr>t_notification_outbox := t_notification_outbox (w_prod w1) @ alerts\<rparr>\<rparr>"
  obtain rep where "breach_response v (Some application_id) t0 t1 severity w = (Ok rep, w2)"
    and "br_records_flagged rep = unflagged p (w_prod w)"
    using board call [of "case t0 of Some t \<Rightarrow> t | None \<Rightarrow> 0" "case t1 of Some t \<Rightarrow> t | None \<Rightarrow> 0"]
    by (simp add: breach_response_def sbind_def sret_def get_affected_application_ids_def cs Let_def w2_def)
  moreover have "w2 = w\<lparr>w_prod := (w_prod w)\<lparr>t_audit_records := t_audit_records (w_prod w2),
      t_notification_outbox := t_notification_outbox (w_prod w) @ alert # alerts\<rparr>\<rparr>"
    and "t_audit_records (w_prod w2) = rs"
    by (simp_all add: w2_def w1_def)
  moreover have "no_recipient_application_id alert = Some p" and "no_notification_type alert = BREACH_ALERT"
    by (simp_all add: alert_def new_notification_def)
  ultimately show ?thesis using recs view others by metis
qed

text \<open>
  with PostgreSQL's default setting a breach response for a time range cannot
  flag anything. As soon as one audit record was written in the range the
  procedure raises, and the world is as before.
\<close>

theorem range_breach_fails:
  assumes "db_ready False w" and "bv_conflict v = Conflict_Error"
    and "r \<in> set (t_audit_records (w_prod w))" and "start_time \<le> au_written_at r" and "au_written_at r \<le> end_time"
  shows "breach_response v None (Some start_time) (Some end_time) severity w = (Raise ambiguous, w)"
proof -
  obtain p ps where "range_applications start_time end_time (w_prod w) = p # ps"
  proof (cases "range_applications start_time end_time (w_prod w)")
    case Nil
    then show ?thesis using assms(3-5) by (auto simp: range_applications_def filter_empty_conv)
  qed
  then show ?thesis
    using assms(1,2)
    by (simp add: breach_response_def call_break_glass_procedure_def in_session_ready select_db_def break_glass_range_def sbind_def)
qed

text \<open>
  a breach response for a time range freezes no retro-evaluation job, whatever
  waits in the queue.
\<close>

lemma range_freezes_nothing: "freeze_retro_eval_jobs queue revoke_fails None = []"
proof -
  have none: "task_to_revoke None raw = None" for raw
    by (auto simp: task_to_revoke_def Let_def split: sum.splits pyval.splits option.splits)
  have "List.map_filter (task_to_revoke None) raws = []" for raws
    by (simp add: List.map_filter_def none)
  then show ?thesis by (simp add: freeze_retro_eval_jobs_def split: sum.splits)
qed

text \<open>The applications with an audit record in a range, and the records of theirs.\<close>

definition in_range :: "int \<Rightarrow> int \<Rightarrow> db \<Rightarrow> uuid \<Rightarrow> bool" where
  "in_range start_time end_time d p \<longleftrightarrow>
     (\<exists>r\<in>set (t_audit_records d). au_application_id r = p \<and> start_time \<le> au_written_at r \<and> au_written_at r \<le> end_time)"

lemma range_applications_in_range: "set (range_applications start_time end_time d) = {p. in_range start_time end_time d p}"
  by (auto simp: range_applications_def in_range_def)

lemma unflagged_sum:
  assumes "distinct ps"
  shows "sum_list (map (\<lambda>p. unflagged p d) ps) =
    length (filter (\<lambda>r. \<not> au_breach_flag r \<and> au_application_id r \<in> set ps) (t_audit_records d))"
  using assms
proof (induction ps)
  case (Cons p ps)
  have split: "length (filter (\<lambda>r. \<not> au_breach_flag r \<and> au_application_id r \<in> set (p # ps)) rs) =
      length (filter (\<lambda>r. au_application_id r = p \<and> \<not> au_breach_flag r) rs) +
      length (filter (\<lambda>r. \<not> au_breach_flag r \<and> au_application_id r \<in> set ps) rs)" for rs
    using Cons.prems by (induction rs) auto
  have "sum_list (map (\<lambda>p. unflagged p d) (p # ps)) = unflagged p d + sum_list (map (\<lambda>p. unflagged p d) ps)" by simp
  also have "\<dots> = unflagged p d + length (filter (\<lambda>r. \<not> au_breach_flag r \<and> au_application_id r \<in> set ps) (t_audit_records d))"
    using Cons by simp
  finally show ?case by (simp only: split unflagged_def)
qed simp

text \<open>
  C15: what a breach for a time range does to the database, under every setting
  of \<open>plpgsql.variable_conflict\<close>. When no audit record lies in the range it
  returns (0, 0) and changes nothing. Otherwise PostgreSQL's default makes the call
  raise, and the world is as before: nothing is flagged. Were the setting changed,
  the call would flag exactly the records of the applications that have a record in
  the range and queue one notification for each of these applications, and it would
  report the numbers of newly flagged records and of notifications if the names
  are read as columns, and (0, 0) if they are read as variables.
\<close>

theorem range_flags_applications:
  assumes "db_ready False w" and "audit_ledger_ok (w_prod w)"
  shows "\<exists>alerts hits. set hits = {p. in_range start_time end_time (w_prod w) p} \<and> distinct hits \<and>
    map no_recipient_application_id alerts = map Some hits \<and>
    call_break_glass_procedure vc g None start_time end_time w =
      (if hits = [] then (Ok (0, 0), w)
       else case vc of
         Conflict_Error \<Rightarrow> (Raise ambiguous, w)
       | _ \<Rightarrow> (Ok (if vc = Use_Column
                  then (length (filter (\<lambda>r. \<not> au_breach_flag r \<and> in_range start_time end_time (w_prod w) (au_application_id r))
                          (t_audit_records (w_prod w))), length hits)
                  else (0, 0)),
               w\<lparr>w_prod := (w_prod w)\<lparr>
                 t_audit_records := map (\<lambda>r. if in_range start_time end_time (w_prod w) (au_application_id r)
                   then flag_record (pg_now g) r else r) (t_audit_records (w_prod w)),
                 t_notification_outbox := t_notification_outbox (w_prod w) @ alerts\<rparr>\<rparr>))"
proof -
  let ?d = "w_prod w" and ?ps = "range_applications start_time end_time (w_prod w)"
  have dist: "distinct ?ps" by (simp add: range_applications_def)
  have "\<forall>p\<in>set ?ps. find_application ?d p \<noteq> None"
    using assms(2) by (auto simp: range_applications_def audit_ledger_ok_def)
  then have run: "\<exists>alerts. map no_recipient_application_id alerts = map Some ?ps \<and> break_glass_range vc g start_time end_time ?d =
      Ok ((length ?ps, if vc = Use_Column then sum_list (map (\<lambda>p. unflagged p ?d) ?ps) else 0, if vc = Use_Column then length ?ps else 0),
          ?d\<lparr>t_audit_records := on_rows au_application_id (set ?ps) (flag_record (pg_now g)) (t_audit_records ?d),
            t_notification_outbox := t_notification_outbox ?d @ alerts\<rparr>)" if "vc \<noteq> Conflict_Error"
    using range_loop_run [OF dist _ that, of ?d g 0 0 0] by (simp add: break_glass_range_def)
  have error: "break_glass_range Conflict_Error g start_time end_time ?d = (if ?ps = [] then Ok ((0, 0, 0), ?d) else Raise ambiguous)"
    by (cases ?ps) (simp_all add: break_glass_range_def)
  have ids: "\<exists>alerts :: notification_outbox list. map no_recipient_application_id alerts = map Some ?ps"
    by (intro exI [of _ "map (\<lambda>p. new_notification 0 0 (Some p) None (PDict [])) ?ps"]) (simp add: new_notification_def comp_def)
  note sess = call_break_glass_procedure_def in_session_ready [OF assms(1)] select_db_def store_db_def
  show ?thesis
  proof (cases "vc = Conflict_Error \<or> ?ps = []")
    case True
    obtain alerts :: "notification_outbox list" where "map no_recipient_application_id alerts = map Some ?ps" using ids by blast
    moreover have "on_rows au_application_id {} f rs = rs" for f :: "audit_record \<Rightarrow> audit_record" and rs
      by (simp add: on_rows_def)
    moreover have "call_break_glass_procedure vc g None start_time end_time w =
        (if ?ps = [] then (Ok (0, 0), w) else (Raise ambiguous, w))"
      using True error by (auto simp: sess break_glass_range_def split: if_splits)
    ultimately show ?thesis
      using True dist range_applications_in_range [of start_time end_time ?d]
      by (intro exI [of _ alerts] exI [of _ ?ps]) auto
  next
    case False
    then obtain alerts where alerts: "map no_recipient_application_id alerts = map Some ?ps" and r: "break_glass_range vc g start_time end_time ?d =
      Ok ((length ?ps, if vc = Use_Column then sum_list (map (\<lambda>p. unflagged p ?d) ?ps) else 0, if vc = Use_Column then length ?ps else 0),
          ?d\<lparr>t_audit_records := on_rows au_application_id (set ?ps) (flag_record (pg_now g)) (t_audit_records ?d),
            t_notification_outbox := t_notification_outbox ?d @ alerts\<rparr>)"
      using run by blast
    show ?thesis
      using False alerts dist range_applications_in_range [of start_time end_time ?d] r
      by (intro exI [of _ alerts] exI [of _ ?ps], cases vc)
        (simp_all add: sess unflagged_sum [OF dist] on_rows_def)
  qed
qed

section \<open>Witnesses\<close>

definition breach_record :: "uuid \<Rightarrow> audit_record" where
  "breach_record u = \<lparr>au_id = u, au_is_demo = False, au_decision_id = u, au_application_id = 1, au_guideline_version_id = 1,
     au_affected_agent_tags = [], au_agent_outputs_hash = ''00'', au_record_hmac = ''00'', au_payload_s3_key = None,
     au_payload_s3_uploaded = True, au_written_at = 5, au_breach_flag = False, au_breach_flagged_at = None\<rparr>"

definition breach_db :: db where
  "breach_db = empty_db\<lparr>t_applications := [sample_application 1], t_decisions := [sample_decision 4 1 1],
     t_guideline_versions := [sample_guideline 1], t_audit_records := [breach_record 4]\<rparr>"

definition breach_example :: breach_env where
  "breach_example = \<lparr>bv_conflict = Conflict_Error, bv_pg = \<lparr>pg_now = 9, pg_timestamp = (\<lambda>_. ''t''), pg_notification_id = id\<rparr>,
     bv_queue = Ok [], bv_revoke_fails = (\<lambda>_. False), bv_detected_at = 8, bv_board_id = 7, bv_report_id = ''r''\<rparr>"

theorem breach_flags_application_witness:
  "\<exists>rep w'. breach_response breach_example (Some (uuid_str 1)) None None ''HIGH'' (sample_world plain_proc breach_db) = (Ok rep, w') \<and>
     br_records_flagged rep = unflagged 1 breach_db"
proof -
  have "find_application (w_prod (sample_world plain_proc breach_db)) 1 \<noteq> None"
    by (simp add: breach_db_def find_application_def sample_application_def)
  then show ?thesis
    using breach_flags_application [OF sample_world_ready uuid_argument_str, of plain_proc breach_db 1 breach_example None None "''HIGH''"]
    by auto
qed

theorem range_breach_fails_witness:
  "breach_response breach_example None (Some 0) (Some 10) ''HIGH'' (sample_world plain_proc breach_db) =
     (Raise ambiguous, sample_world plain_proc breach_db)"
  by (rule range_breach_fails [OF sample_world_ready, where r = "breach_record 4"])
    (simp_all add: breach_example_def breach_db_def breach_record_def)

theorem range_flags_applications_witness:
  "call_break_glass_procedure Conflict_Error (bv_pg breach_example) None 0 10 (sample_world plain_proc breach_db) =
     (Raise ambiguous, sample_world plain_proc breach_db) \<and>
   (\<exists>n m w'. call_break_glass_procedure Use_Column (bv_pg breach_example) None 0 10 (sample_world plain_proc breach_db) =
     (Ok (n, m), w') \<and> m = 1)"
proof -
  let ?w = "sample_world plain_proc breach_db"
  have ok: "audit_ledger_ok (w_prod ?w)"
    by (simp add: audit_ledger_ok_def breach_db_def breach_record_def find_decision_def find_application_def find_guideline_def
        sample_decision_def sample_application_def sample_guideline_def)
  have hit: "{p. in_range 0 10 (w_prod ?w) p} = {1}"
    by (auto simp: in_range_def breach_db_def breach_record_def)
  have one: "hits = [1]" if "set hits = {1}" "distinct hits" for hits :: "uuid list"
    using that by (cases hits; cases "tl hits") auto
  note C = range_flags_applications [OF sample_world_ready ok, of 0 10, unfolded hit]
  show ?thesis
    using C [of Conflict_Error "bv_pg breach_example"] C [of Use_Column "bv_pg breach_example"] by (auto dest: one)
qed

end
