(* ===== verification/Outbox.thy ===== *)
theory Outbox
  imports Breach
begin

text \<open>
  \<open>workers/notification_worker.py\<close>: the transactional outbox. The poll enqueues a
  delivery task per due row of the production database; a delivery task holds
  the lock of its row, calls the dispatcher of the channel and updates the row.
  The dispatchers, the commit and the metric that follows it, and the clock are
  arguments of an attempt. Ties of \<open>created_at\<close> keep the table's order.
\<close>

section \<open>One attempt\<close>

record attempt =
  at_now :: int
  at_dispatch_email :: "notification_outbox \<Rightarrow> unit result"
  at_dispatch_webhook :: "notification_outbox \<Rightarrow> unit result"
  at_commit :: "unit result"
  at_metric :: "unit result"

definition backoff_seconds :: "int \<Rightarrow> int" where
  "backoff_seconds n = (if n = 0 then 60 else if n = 1 then 120 else if n = 2 then 240 else if n = 3 then 480 else 480)"

definition deliver_channel :: "attempt \<Rightarrow> notification_outbox \<Rightarrow> unit result" where
  "deliver_channel a n =
     (case no_channel n of EMAIL \<Rightarrow> at_dispatch_email a n | WEBHOOK \<Rightarrow> at_dispatch_webhook a n)"

text \<open>An UPDATE is sent when a column changed; the row's trigger then sets \<open>updated_at\<close>.\<close>

definition touched :: "int \<Rightarrow> notification_outbox \<Rightarrow> notification_outbox \<Rightarrow> notification_outbox" where
  "touched now n n' = (if n' = n then n else n'\<lparr>no_updated_at := now\<rparr>)"

definition failure_recorded :: "int \<Rightarrow> int \<Rightarrow> exn \<Rightarrow> notification_outbox \<Rightarrow> notification_outbox" where
  "failure_recorded now due e n =
     (let n' = n\<lparr>no_retry_count := no_retry_count n + 1, no_failure_reason := Some (take 500 (exn_text e)),
                 no_next_retry_at := Some due\<rparr>
      in if no_max_retries n' \<le> no_retry_count n' then n'\<lparr>no_status := FAILED\<rparr> else n')"

text \<open>The handler of a failed attempt: record it, commit, raise again.\<close>

definition record_failure :: "attempt \<Rightarrow> exn \<Rightarrow> (notification_outbox, pyval) step" where
  "record_failure a e n =
     (case shift (at_now a) (backoff_seconds (no_retry_count n + 1) * usec_per_second) of
        Inl e' \<Rightarrow> (Raise e', n)
      | Inr due \<Rightarrow>
          (case at_commit a of
             Inl e' \<Rightarrow> (Raise e', n)
           | Inr _ \<Rightarrow> (Raise e, touched (at_now a) n (failure_recorded (at_now a) due e n))))"

definition status_dict :: "string \<Rightarrow> string \<Rightarrow> pyval" where
  "status_dict s notification_id = PDict [(''status'', PStr s), (''notification_id'', PStr notification_id)]"

fun channel_value :: "notification_channel \<Rightarrow> string" where
  "channel_value EMAIL = ''EMAIL''"
| "channel_value WEBHOOK = ''WEBHOOK''"

definition sent_row :: "int \<Rightarrow> notification_outbox \<Rightarrow> notification_outbox" where
  "sent_row now n = n\<lparr>no_status := SENT, no_sent_at := Some now, no_failure_reason := None\<rparr>"

definition exhausted_row :: "notification_outbox \<Rightarrow> notification_outbox" where
  "exhausted_row n = n\<lparr>no_status := FAILED,
     no_failure_reason := Some (''Max retries ('' @ int_str (no_max_retries n) @ '') exhausted'')\<rparr>"

text \<open>
  An attempt works on the row and hands the notification to the service behind its
  channel: the row, and the notifications that service has accepted so far.
\<close>

record delivery =
  dl_row :: notification_outbox
  dl_accepted :: "notification_outbox list"

definition on_row :: "(notification_outbox, 'a) step \<Rightarrow> (delivery, 'a) step" where
  "on_row f d = (case f (dl_row d) of (r, n) \<Rightarrow> (r, d\<lparr>dl_row := n\<rparr>))"

definition attempt_delivery :: "attempt \<Rightarrow> string \<Rightarrow> (delivery, pyval) step" where
  "attempt_delivery a notification_id d =
     (let n = dl_row d in
      if no_status n = SENT then (Ok (status_dict ''already_sent'' notification_id), d)
      else if no_status n = SUPPRESSED then (Ok (status_dict ''suppressed'' notification_id), d)
      else if no_max_retries n \<le> no_retry_count n then
        (case at_commit a of
           Inl e \<Rightarrow> (Raise e, d)
         | Inr _ \<Rightarrow>
             let d' = d\<lparr>dl_row := touched (at_now a) n (exhausted_row n)\<rparr> in
             (case at_metric a of
                Inl e \<Rightarrow> (Raise e, d')
              | Inr _ \<Rightarrow> (Ok (status_dict ''failed_max_retries'' notification_id), d')))
      else
        (case deliver_channel a n of
           Inl e \<Rightarrow> on_row (record_failure a e) d
         | Inr _ \<Rightarrow>
             let d1 = d\<lparr>dl_accepted := dl_accepted d @ [n]\<rparr> in
             (case at_commit a of
                Inl e \<Rightarrow> (Raise e, d1)
              | Inr _ \<Rightarrow>
                  let d2 = d1\<lparr>dl_row := touched (at_now a) n (sent_row (at_now a) n)\<rparr> in
                  (case at_metric a of
                     Inl e \<Rightarrow> on_row (record_failure a e) d2
                   | Inr _ \<Rightarrow>
                       (Ok (PDict [(''status'', PStr ''sent''), (''channel'', PStr (channel_value (no_channel n))),
                                   (''notification_id'', PStr notification_id)]), d2)))))"

text \<open>What an attempt does to the row alone.\<close>

definition queued :: "notification_outbox \<Rightarrow> delivery" where
  "queued n = \<lparr>dl_row = n, dl_accepted = []\<rparr>"

definition deliver_row :: "attempt \<Rightarrow> string \<Rightarrow> (notification_outbox, pyval) step" where
  "deliver_row a notification_id n = (case attempt_delivery a notification_id (queued n) of (r, d) \<Rightarrow> (r, dl_row d))"

lemma deliver_row_run:
  "deliver_row a notification_id n =
     (if no_status n = SENT then (Ok (status_dict ''already_sent'' notification_id), n)
      else if no_status n = SUPPRESSED then (Ok (status_dict ''suppressed'' notification_id), n)
      else if no_max_retries n \<le> no_retry_count n then
        (case at_commit a of
           Inl e \<Rightarrow> (Raise e, n)
         | Inr _ \<Rightarrow> (case at_metric a of
                Inl e \<Rightarrow> (Raise e, touched (at_now a) n (exhausted_row n))
              | Inr _ \<Rightarrow> (Ok (status_dict ''failed_max_retries'' notification_id), touched (at_now a) n (exhausted_row n))))
      else
        (case deliver_channel a n of
           Inl e \<Rightarrow> record_failure a e n
         | Inr _ \<Rightarrow>
             (case at_commit a of
                Inl e \<Rightarrow> (Raise e, n)
              | Inr _ \<Rightarrow>
                  let n' = touched (at_now a) n (sent_row (at_now a) n) in
                  (case at_metric a of
                     Inl e \<Rightarrow> record_failure a e n'
                   | Inr _ \<Rightarrow>
                       (Ok (PDict [(''status'', PStr ''sent''), (''channel'', PStr (channel_value (no_channel n))),
                                   (''notification_id'', PStr notification_id)]), n')))))"
  by (simp add: deliver_row_def attempt_delivery_def queued_def on_row_def Let_def split: sum.split prod.split)

section \<open>The tasks\<close>

definition find_notification :: "db \<Rightarrow> uuid \<Rightarrow> notification_outbox option" where
  "find_notification d u = find (\<lambda>n. no_id n = u) (t_notification_outbox d)"

text \<open>The row is committed before the task raises, so the session returns the outcome as a value.\<close>

definition deliver_notification_async :: "attempt \<Rightarrow> string \<Rightarrow> (world, pyval) step" where
  "deliver_notification_async a notification_id =
     sbind (in_session False (\<lambda>d. rbind (parse_uuid notification_id) (\<lambda>u.
       (case find_notification d u of
          None \<Rightarrow> Ok (Ok (status_dict ''not_found'' notification_id), d)
        | Some n \<Rightarrow>
            let (r, n') = deliver_row a notification_id n in
            Ok (r, d\<lparr>t_notification_outbox := map (\<lambda>m. if no_id m = u then n' else m) (t_notification_outbox d)\<rparr>)))))
     slift"

text \<open>What a task asks of Celery: its result is stored, or it is to run again.\<close>

datatype 'a task_outcome = Returned 'a | Retry exn int

definition deliver_notification :: "attempt \<Rightarrow> int \<Rightarrow> string \<Rightarrow> world \<Rightarrow> pyval task_outcome \<times> world" where
  "deliver_notification a request_retries notification_id w =
     (case deliver_notification_async a notification_id w of
        (Inr v, w') \<Rightarrow> (Returned v, w')
      | (Inl e, w') \<Rightarrow> (Retry e (backoff_seconds request_retries), w'))"

definition outbox_poll_batch_size :: nat where
  "outbox_poll_batch_size = 100"

definition due :: "int \<Rightarrow> notification_outbox \<Rightarrow> bool" where
  "due now n \<longleftrightarrow> no_status n = PENDING \<and> (case no_next_retry_at n of None \<Rightarrow> True | Some t \<Rightarrow> t \<le> now)"

definition due_rows :: "int \<Rightarrow> db \<Rightarrow> notification_outbox list" where
  "due_rows now d = take outbox_poll_batch_size (sort_key no_created_at (filter (due now) (t_notification_outbox d)))"

definition delivery_message :: "notification_outbox \<Rightarrow> string \<times> string \<times> pyval" where
  "delivery_message n = (''workers.notification_worker.deliver_notification'', ''notifications'',
     PDict [(''notification_id'', PStr (uuid_str (no_id n)))])"

definition apply_async :: "string \<times> string \<times> pyval \<Rightarrow> (world, unit) step" where
  "apply_async m w = (case w_broker_fault w of Some e \<Rightarrow> (Raise e, w) | None \<Rightarrow> (Ok (), w\<lparr>w_sent := w_sent w @ [m]\<rparr>))"

definition poll_outbox_async :: "int \<Rightarrow> (world, unit) step" where
  "poll_outbox_async now =
     sbind (query False (\<lambda>d. Ok (due_rows now d))) (\<lambda>notifications.
       seach (\<lambda>n. apply_async (delivery_message n)) notifications)"

definition poll_outbox :: "int \<Rightarrow> world \<Rightarrow> unit task_outcome \<times> world" where
  "poll_outbox now w =
     (case poll_outbox_async now w of
        (Inr v, w') \<Rightarrow> (Returned v, w')
      | (Inl e, w') \<Rightarrow> (Retry e 30, w'))"

text \<open>The gauge: what is set for \<open>is_demo\<close> false and true, when the query succeeds.\<close>

definition update_outbox_pending_gauge :: "world \<Rightarrow> (bool \<times> nat) list" where
  "update_outbox_pending_gauge w =
     (case query False (\<lambda>d. Ok (map (\<lambda>is_demo. (is_demo,
              length (filter (\<lambda>n. no_status n = PENDING \<and> no_is_demo n = is_demo) (t_notification_outbox d)))) [False, True])) w of
        (Inr counts, _) \<Rightarrow> counts
      | (Inl _, _) \<Rightarrow> [])"

section \<open>The outbox as a state machine\<close>

text \<open>
  The table changes when a notification is queued (the breach response is the
  writer of the shipped code) and when an attempt is made for one of its rows.
\<close>

definition attempt_on :: "attempt \<Rightarrow> uuid \<Rightarrow> notification_outbox list \<Rightarrow> notification_outbox list" where
  "attempt_on a u rows = (case find (\<lambda>n. no_id n = u) rows of
     None \<Rightarrow> rows
   | Some n \<Rightarrow> map (\<lambda>m. if no_id m = u then snd (deliver_row a (uuid_str u) n) else m) rows)"

inductive outbox_step :: "notification_outbox list \<Rightarrow> notification_outbox list \<Rightarrow> bool" where
  queue_alert: "nid \<notin> no_id ` set rows \<Longrightarrow> outbox_step rows (rows @ [new_notification nid now app email payload])"
| attempt_row: "outbox_step rows (attempt_on a u rows)"

inductive_cases outbox_stepE: "outbox_step rows rows'"

definition row_ok :: "notification_outbox \<Rightarrow> bool" where
  "row_ok n \<longleftrightarrow> 0 \<le> no_retry_count n \<and> no_retry_count n \<le> no_max_retries n \<and>
     (no_status n = FAILED \<longleftrightarrow> no_retry_count n = no_max_retries n) \<and>
     (no_status n = SENT \<longrightarrow> no_sent_at n \<noteq> None) \<and> (no_status n = PENDING \<longrightarrow> no_sent_at n = None) \<and>
     (0 < no_retry_count n \<longleftrightarrow> no_next_retry_at n \<noteq> None) \<and> (no_status n = FAILED \<longrightarrow> no_failure_reason n \<noteq> None)"

lemma touched_simps [simp]:
  "no_id (touched t n n') = (if n' = n then no_id n else no_id n')"
  "no_status (touched t n n') = no_status n'" "no_retry_count (touched t n n') = no_retry_count n'"
  "no_max_retries (touched t n n') = no_max_retries n'" "no_sent_at (touched t n n') = no_sent_at n'"
  "no_next_retry_at (touched t n n') = no_next_retry_at n'" "no_failure_reason (touched t n n') = no_failure_reason n'"
  "no_channel (touched t n n') = no_channel n'"
  by (simp_all add: touched_def)

lemma row_simps [simp]:
  "no_id (sent_row t n) = no_id n" "no_id (exhausted_row n) = no_id n" "no_id (failure_recorded t d e n) = no_id n"
  "no_max_retries (sent_row t n) = no_max_retries n" "no_max_retries (exhausted_row n) = no_max_retries n"
  "no_max_retries (failure_recorded t d e n) = no_max_retries n"
  by (simp_all add: sent_row_def exhausted_row_def failure_recorded_def Let_def)

lemma row_ok_touched [simp]: "row_ok (touched t n n') = row_ok n'"
  by (simp add: row_ok_def)

lemma id_new [simp]: "no_id (new_notification nid now app email payload) = nid"
  by (simp add: new_notification_def)

lemma row_ok_new [simp]: "row_ok (new_notification nid now app email payload)"
  by (simp add: row_ok_def new_notification_def)

lemma row_ok_failure:
  assumes "row_ok n" and "no_retry_count n < no_max_retries n"
  shows "row_ok (snd (record_failure a e n))"
  using assms by (auto simp: record_failure_def failure_recorded_def row_ok_def Let_def split: sum.splits)

lemma row_ok_sent: "row_ok n \<Longrightarrow> no_retry_count n < no_max_retries n \<Longrightarrow> row_ok (sent_row t n)"
  by (auto simp: row_ok_def sent_row_def)

lemma row_ok_exhausted: "row_ok n \<Longrightarrow> no_max_retries n \<le> no_retry_count n \<Longrightarrow> row_ok (exhausted_row n)"
  by (auto simp: row_ok_def exhausted_row_def)

lemma sent_retry [simp]: "no_retry_count (sent_row t n) = no_retry_count n"
  by (simp add: sent_row_def)

lemma row_ok_deliver: "row_ok n \<Longrightarrow> row_ok (snd (deliver_row a nid n))"
  by (auto simp: deliver_row_run Let_def row_ok_sent row_ok_exhausted split: sum.splits intro!: row_ok_failure)

lemma deliver_keeps_id [simp]: "no_id (snd (deliver_row a nid n)) = no_id n"
  by (auto simp: deliver_row_run record_failure_def Let_def split: sum.splits)

lemma attempt_on_ids: "map no_id (attempt_on a u rows) = map no_id rows"
  by (auto simp: attempt_on_def find_Some_iff split: option.splits)

definition outbox_ok :: "notification_outbox list \<Rightarrow> bool" where
  "outbox_ok rows \<longleftrightarrow> distinct (map no_id rows) \<and> list_all row_ok rows"

interpretation outbox_table: step_system "\<lambda>rows. rows = []" outbox_step outbox_ok
proof
  fix rows rows'
  assume ok: "outbox_ok rows" and "outbox_step rows rows'"
  from this(2) show "outbox_ok rows'"
  proof cases
    case (attempt_row a u)
    have "row_ok (snd (deliver_row a (uuid_str u) n))" if "find (\<lambda>n. no_id n = u) rows = Some n" for n
      using ok that by (auto simp: outbox_ok_def list_all_iff find_Some_iff intro!: row_ok_deliver)
    then show ?thesis
      using ok by (simp add: outbox_ok_def attempt_row attempt_on_ids)
        (auto simp: attempt_on_def list_all_iff split: option.splits)
  qed (use ok in \<open>auto simp: outbox_ok_def\<close>)
qed (simp add: outbox_ok_def)

section \<open>Runs of attempts\<close>

text \<open>
  The attempts on a row one after the other, with what its service has accepted.
  Whether an attempt gets a notification accepted is read off its run.
\<close>

definition dispatches :: "attempt \<Rightarrow> notification_outbox \<Rightarrow> bool" where
  "dispatches a n \<longleftrightarrow> dl_accepted (snd (attempt_delivery a [] (queued n))) \<noteq> []"

fun deliver_all :: "string \<Rightarrow> attempt list \<Rightarrow> delivery \<Rightarrow> delivery" where
  "deliver_all nid [] d = d"
| "deliver_all nid (a # as) d = deliver_all nid as (snd (attempt_delivery a nid d))"

definition run_attempts :: "string \<Rightarrow> attempt list \<Rightarrow> notification_outbox \<Rightarrow> nat \<times> notification_outbox" where
  "run_attempts nid as n = (let d = deliver_all nid as (queued n) in (length (dl_accepted d), dl_row d))"

lemma attempt_delivery_accepted:
  "dl_accepted (snd (attempt_delivery a nid d)) = dl_accepted d @
     (if no_status (dl_row d) \<notin> {SENT, SUPPRESSED} \<and> no_retry_count (dl_row d) < no_max_retries (dl_row d) \<and>
         deliver_channel a (dl_row d) = Ok () then [dl_row d] else [])"
  by (simp add: attempt_delivery_def on_row_def Let_def split: sum.split prod.split)

lemma dispatches_iff:
  "dispatches a n \<longleftrightarrow> no_status n \<notin> {SENT, SUPPRESSED} \<and> no_retry_count n < no_max_retries n \<and> deliver_channel a n = Ok ()"
  by (simp add: dispatches_def attempt_delivery_accepted queued_def)

lemma attempt_delivery_row: "dl_row (snd (attempt_delivery a nid d)) = snd (deliver_row a nid (dl_row d))"
  by (simp add: deliver_row_run attempt_delivery_def on_row_def Let_def split: sum.split prod.split)

lemma deliver_all_run:
  "dl_row (deliver_all nid as d) = snd (run_attempts nid as (dl_row d))"
  "dl_accepted (deliver_all nid as d) = dl_accepted d @ dl_accepted (deliver_all nid as (queued (dl_row d)))"
proof -
  have row: "dl_row (deliver_all nid as d) = dl_row (deliver_all nid as d')" if "dl_row d = dl_row d'" for d d'
    using that by (induction as arbitrary: d d') (simp_all add: attempt_delivery_row)
  show "dl_row (deliver_all nid as d) = snd (run_attempts nid as (dl_row d))"
    using row [of d "queued (dl_row d)"] by (simp add: run_attempts_def queued_def Let_def)
  show "dl_accepted (deliver_all nid as d) = dl_accepted d @ dl_accepted (deliver_all nid as (queued (dl_row d)))"
  proof (induction as arbitrary: d)
    case (Cons a as)
    let ?d = "snd (attempt_delivery a nid d)" and ?q = "snd (attempt_delivery a nid (queued (dl_row d)))"
    have "dl_row ?q = dl_row ?d" by (simp add: attempt_delivery_row queued_def)
    moreover have "dl_accepted ?d = dl_accepted d @ dl_accepted ?q" by (simp add: attempt_delivery_accepted queued_def)
    ultimately show ?case using Cons [of ?d] Cons [of ?q] by simp
  qed (simp add: queued_def)
qed

lemma run_cons:
  "fst (run_attempts nid (a # as) n) = (if dispatches a n then 1 else 0) + fst (run_attempts nid as (snd (deliver_row a nid n)))"
  "snd (run_attempts nid (a # as) n) = snd (run_attempts nid as (snd (deliver_row a nid n)))"
proof -
  let ?d = "snd (attempt_delivery a nid (queued n))"
  have row: "dl_row ?d = snd (deliver_row a nid n)" by (simp add: attempt_delivery_row queued_def)
  have "length (dl_accepted ?d) = (if dispatches a n then 1 else 0)"
    by (simp add: dispatches_iff attempt_delivery_accepted queued_def)
  then show "fst (run_attempts nid (a # as) n) =
      (if dispatches a n then 1 else 0) + fst (run_attempts nid as (snd (deliver_row a nid n)))"
    using deliver_all_run(2) [of nid as ?d] by (simp add: run_attempts_def Let_def row)
  show "snd (run_attempts nid (a # as) n) = snd (run_attempts nid as (snd (deliver_row a nid n)))"
    using deliver_all_run(1) [of nid as ?d] by (simp add: run_attempts_def Let_def row)
qed

lemma run_nil [simp]: "run_attempts nid [] n = (0, n)"
  by (simp add: run_attempts_def queued_def)

text \<open>The clock of an attempt leaves room for the longest delay, and its commits succeed.\<close>

definition healthy :: "attempt \<Rightarrow> bool" where
  "healthy a \<longleftrightarrow> at_commit a = Ok () \<and> (\<forall>s\<in>{60, 120, 240, 480}. valid_wall (at_now a + s * usec_per_second))"

definition closed :: "notification_outbox \<Rightarrow> bool" where
  "closed n \<longleftrightarrow> no_status n \<in> {SENT, SUPPRESSED} \<or> no_max_retries n \<le> no_retry_count n"

lemma healthy_backoff: "healthy a \<Longrightarrow> shift (at_now a) (backoff_seconds k * usec_per_second) = Ok (at_now a + backoff_seconds k * usec_per_second)"
  by (simp add: healthy_def backoff_seconds_def shift_def)

lemma record_failure_healthy:
  "healthy a \<Longrightarrow> record_failure a e n =
     (Raise e, touched (at_now a) n (failure_recorded (at_now a) (at_now a + backoff_seconds (no_retry_count n + 1) * usec_per_second) e n))"
  by (simp add: record_failure_def healthy_backoff) (simp add: healthy_def)

lemma closed_dispatch: "closed n \<Longrightarrow> \<not> dispatches a n"
  by (auto simp: closed_def dispatches_iff)

lemma closed_touched [simp]: "closed (touched t n n') = closed n'"
  by (simp add: closed_def)

lemma closed_deliver: "closed n \<Longrightarrow> closed (snd (deliver_row a nid n))"
  by (auto simp: closed_def deliver_row_run exhausted_row_def Let_def split: sum.splits)

lemma closed_failure: "closed n \<Longrightarrow> closed (snd (record_failure a e n))"
  by (auto simp: closed_def record_failure_def failure_recorded_def Let_def split: sum.splits)

lemma closed_sent: "closed (sent_row t n)"
  by (simp add: closed_def sent_row_def)

lemma dispatch_closes: "dispatches a n \<Longrightarrow> at_commit a = Ok () \<Longrightarrow> closed (snd (deliver_row a nid n))"
  by (auto simp: dispatches_iff deliver_row_run Let_def closed_sent intro!: closed_failure split: sum.splits)

lemma closed_run: "closed n \<Longrightarrow> fst (run_attempts nid as n) = 0"
  by (induction as arbitrary: n) (simp_all add: run_cons closed_dispatch closed_deliver)

lemma failed_attempt_counts:
  assumes "healthy a" and "\<not> closed n"
  shows "closed (snd (deliver_row a nid n)) \<or>
    (no_retry_count (snd (deliver_row a nid n)) = no_retry_count n + 1 \<and> no_max_retries (snd (deliver_row a nid n)) = no_max_retries n)"
proof (cases "deliver_channel a n")
  case (Inl e)
  then have "snd (deliver_row a nid n) = snd (record_failure a e n)"
    using assms(2) by (simp add: deliver_row_run closed_def)
  then show ?thesis
    using assms(1) by (simp add: record_failure_healthy) (simp add: failure_recorded_def Let_def)
next
  case (Inr u)
  then have "dispatches a n" using assms(2) by (simp add: dispatches_iff closed_def)
  then show ?thesis using dispatch_closes assms(1) by (simp add: healthy_def)
qed

lemma closed_stays: "closed n \<Longrightarrow> closed (snd (run_attempts nid as n))"
  by (induction as arbitrary: n) (simp_all add: run_cons closed_deliver)

lemma attempts_close:
  assumes "\<forall>a\<in>set as. healthy a" and "no_max_retries n - no_retry_count n \<le> int (length as)"
  shows "closed (snd (run_attempts nid as n))"
  using assms
proof (induction as arbitrary: n)
  case Nil
  then show ?case by (simp add: closed_def)
next
  case (Cons a as)
  let ?n = "snd (deliver_row a nid n)"
  have "closed (snd (run_attempts nid as ?n))"
  proof (cases "closed ?n")
    case True
    then show ?thesis by (rule closed_stays)
  next
    case False
    then have "\<not> closed n" using closed_deliver by blast
    then have "no_retry_count ?n = no_retry_count n + 1" and "no_max_retries ?n = no_max_retries n"
      using failed_attempt_counts [of a n nid] Cons.prems(1) False by auto
    then show ?thesis using Cons by simp
  qed
  then show ?case by (simp add: run_cons)
qed

lemma attempts_finish:
  assumes "\<forall>a\<in>set as. healthy a" and "no_max_retries n - no_retry_count n \<le> int (length as)" and "row_ok n"
  shows "no_status (snd (run_attempts nid as n)) \<noteq> PENDING"
proof -
  have "row_ok (snd (run_attempts nid as n))"
    using assms(3) by (induction as arbitrary: n) (simp_all add: run_cons row_ok_deliver)
  then show ?thesis
    using attempts_close [OF assms(1,2), of nid] by (auto simp: row_ok_def closed_def)
qed

section \<open>Properties\<close>

text \<open>
  C11: whatever is queued and in whatever order the attempts run, every row of the
  outbox is consistent: its retries stay between none and the maximum, it is FAILED
  exactly when they are used up and then has a reason, it is scheduled again exactly
  after a failed attempt, a SENT row has its time and a PENDING row none, and the
  keys stay distinct.
\<close>

theorem outbox_invariant:
  assumes "outbox_step\<^sup>*\<^sup>* [] rows"
  shows "distinct (map no_id rows) \<and> (\<forall>n\<in>set rows.
    0 \<le> no_retry_count n \<and> no_retry_count n \<le> no_max_retries n \<and>
    (no_status n = FAILED \<longleftrightarrow> no_retry_count n = no_max_retries n) \<and> (no_status n = FAILED \<longrightarrow> no_failure_reason n \<noteq> None) \<and>
    (0 < no_retry_count n \<longleftrightarrow> no_next_retry_at n \<noteq> None) \<and>
    (no_status n = SENT \<longrightarrow> no_sent_at n \<noteq> None) \<and> (no_status n = PENDING \<longrightarrow> no_sent_at n = None))"
  using outbox_table.inv_reachable [OF refl assms] by (auto simp: outbox_ok_def list_all_iff row_ok_def)

text \<open>
  C13: the service behind a channel accepts a notification at most once. However
  many attempts are made on a row, with any failures of the dispatchers and of the
  metrics after the commit, and whatever state the row starts in, the log of accepted
  notifications has at most one entry, as long as the commits succeed.
\<close>

theorem dispatched_at_most_once:
  assumes "\<forall>a\<in>set attempts. at_commit a = Ok ()"
  shows "length (dl_accepted (deliver_all nid attempts (queued n))) \<le> 1"
proof -
  have "fst (run_attempts nid attempts n) \<le> 1"
    using assms
  proof (induction attempts arbitrary: n)
    case (Cons a attempts)
    show ?case
    proof (cases "dispatches a n")
      case True
      then have "closed (snd (deliver_row a nid n))" using dispatch_closes Cons.prems by simp
      then show ?thesis by (simp add: run_cons closed_run)
    next
      case False
      then show ?thesis using Cons by (simp add: run_cons)
    qed
  qed simp
  then show ?thesis by (simp add: run_attempts_def Let_def)
qed

text \<open>
  a failed commit sends twice. When the commit after an accepted dispatch fails,
  the row is as it was, so the next attempt hands the same notification to the
  dispatcher again.
\<close>

theorem commit_failure_redelivers:
  assumes "dispatches a n" and "at_commit a = Raise e" and "dispatches b n"
  shows "fst (run_attempts nid [a, b] n) = 2"
proof -
  have "snd (deliver_row a nid n) = n"
    using assms(1,2) by (auto simp: dispatches_iff deliver_row_run)
  then show ?thesis using assms(1,3) by (simp add: run_cons)
qed

text \<open>
  attempts end. After as many healthy attempts as a row has retries left it is
  no longer pending, whatever the dispatchers and the metrics do.
\<close>

theorem attempts_end:
  assumes "\<forall>a\<in>set attempts. healthy a" and "no_max_retries n - no_retry_count n \<le> int (length attempts)" and "row_ok n"
  shows "no_status (snd (run_attempts nid attempts n)) \<noteq> PENDING"
  using assms by (rule attempts_finish)

text \<open>
  a delivered notification may end up FAILED. When the metric raises after the
  commit of SENT, the failure is recorded on the delivered row; on the last attempt
  that turns it into FAILED, with the time it was sent.
\<close>

theorem delivered_row_failed:
  assumes "healthy a" and "dispatches a n" and "at_metric a = Raise e" and "no_retry_count n + 1 = no_max_retries n"
  shows "fst (deliver_row a nid n) = Raise e \<and> no_status (snd (deliver_row a nid n)) = FAILED \<and>
    no_sent_at (snd (deliver_row a nid n)) = Some (at_now a)"
proof -
  have "at_commit a = Ok ()" using assms(1) by (simp add: healthy_def)
  then show ?thesis
    using assms by (auto simp: dispatches_iff deliver_row_run Let_def record_failure_healthy)
      (simp_all add: failure_recorded_def sent_row_def Let_def)
qed

text \<open>
  the delays are twice those documented. A pending row whose dispatcher fails for
  the first, second and last time is due again after 120, 240 and 480 seconds.
\<close>

theorem backoff_schedule:
  assumes "healthy a" and "no_status n = PENDING" and "deliver_channel a n = Raise e"
    and "no_max_retries n = 3" and "no_retry_count n \<in> {0, 1, 2}"
  shows "no_next_retry_at (snd (deliver_row a nid n)) = Some (at_now a + 120 * 2 ^ nat (no_retry_count n) * usec_per_second)"
proof -
  have "snd (deliver_row a nid n) = snd (record_failure a e n)"
    using assms by (auto simp: deliver_row_run)
  then have "no_next_retry_at (snd (deliver_row a nid n)) = Some (at_now a + backoff_seconds (no_retry_count n + 1) * usec_per_second)"
    using assms(1) by (simp add: record_failure_healthy) (simp add: failure_recorded_def Let_def)
  moreover have "backoff_seconds (no_retry_count n + 1) = 120 * 2 ^ nat (no_retry_count n)"
    using assms(5) by (auto simp: backoff_seconds_def)
  ultimately show ?thesis by simp
qed

text \<open>
  The shipped \<open>notifications/dispatcher.py\<close> is an empty module, so the import of
  either dispatch function in the worker raises.
\<close>

definition shipped_dispatcher :: "string \<Rightarrow> notification_outbox \<Rightarrow> unit result" where
  "shipped_dispatcher name n = Raise (OtherExn ''ImportError'' (''cannot import name '' @ name))"

definition shipped :: "attempt \<Rightarrow> bool" where
  "shipped a \<longleftrightarrow> (\<exists>f g. \<forall>n. at_dispatch_email a n = shipped_dispatcher f n \<and> at_dispatch_webhook a n = shipped_dispatcher g n)"

lemma shipped_deliver: "shipped a \<Longrightarrow> no_status n \<noteq> SENT \<Longrightarrow> no_status (snd (deliver_row a nid n)) \<noteq> SENT"
  by (auto simp: shipped_def shipped_dispatcher_def deliver_row_run deliver_channel_def record_failure_def failure_recorded_def
      exhausted_row_def Let_def split: sum.splits notification_channel.splits)

text \<open>
  the shipped code delivers nothing. With its empty dispatcher module no number of
  attempts makes a notification SENT, and once its retries are used up it is FAILED.
\<close>

theorem shipped_never_sends:
  assumes "\<forall>a\<in>set attempts. healthy a \<and> shipped a" and "int (length attempts) \<ge> 3"
  shows "no_status (snd (run_attempts nid attempts (new_notification u now app email payload))) = FAILED"
proof -
  let ?n = "new_notification u now app email payload"
  have "no_status (snd (run_attempts nid attempts n)) \<notin> {SENT, SUPPRESSED}" if "no_status n \<notin> {SENT, SUPPRESSED}" for n
    using assms(1) that
  proof (induction attempts arbitrary: n)
    case (Cons a attempts)
    have "no_status (snd (deliver_row a nid n)) \<noteq> SUPPRESSED"
      using Cons.prems(2) by (auto simp: deliver_row_run record_failure_def failure_recorded_def exhausted_row_def sent_row_def
          Let_def split: sum.splits)
    then show ?case using Cons shipped_deliver [of a n nid] by (simp add: run_cons)
  qed simp
  then have "no_status (snd (run_attempts nid attempts ?n)) \<notin> {SENT, SUPPRESSED}"
    by (simp add: new_notification_def)
  moreover have "no_status (snd (run_attempts nid attempts ?n)) \<noteq> PENDING"
    using attempts_finish [of attempts ?n nid] assms by (simp add: row_ok_new) (simp add: new_notification_def)
  ultimately show ?thesis by (cases "no_status (snd (run_attempts nid attempts ?n))") auto
qed

text \<open>
  a poll enqueues what is due, oldest first, and at most a hundred. Its messages
  name pending production rows whose time has come; a due row it leaves out is at
  least as recent as every row it enqueued; nothing else changes.
\<close>

theorem poll_enqueues_due:
  assumes "db_ready False w" and "w_broker_fault w = None"
  shows "\<exists>rows. poll_outbox now w = (Returned (), w\<lparr>w_sent := w_sent w @ map delivery_message rows\<rparr>) \<and>
    length rows = min 100 (length (filter (due now) (t_notification_outbox (w_prod w)))) \<and>
    set rows \<subseteq> {n \<in> set (t_notification_outbox (w_prod w)). due now n} \<and> sorted (map no_created_at rows) \<and>
    (\<forall>n\<in>set (t_notification_outbox (w_prod w)). due now n \<longrightarrow> n \<notin> set rows \<longrightarrow> (\<forall>m\<in>set rows. no_created_at m \<le> no_created_at n))"
proof -
  let ?due = "filter (due now) (t_notification_outbox (w_prod w))"
  let ?sorted = "sort_key no_created_at ?due" and ?rows = "due_rows now (w_prod w)"
  have send: "seach (\<lambda>n. apply_async (delivery_message n)) rows w = (Ok (), w\<lparr>w_sent := w_sent w @ map delivery_message rows\<rparr>)"
    if "w_broker_fault w = None" for rows and w :: world
    using that by (induction rows arbitrary: w) (simp_all add: apply_async_def)
  have run: "poll_outbox now w = (Returned (), w\<lparr>w_sent := w_sent w @ map delivery_message ?rows\<rparr>)"
    using assms by (simp add: poll_outbox_def poll_outbox_async_def sbind_def query_ready select_db_def send)
  have rows: "?rows = take 100 ?sorted" by (simp add: due_rows_def outbox_poll_batch_size_def)
  have "set ?rows \<subseteq> set ?due" using set_take_subset [of 100 ?sorted] by (simp add: rows)
  moreover have "sorted (map no_created_at ?rows)"
    by (simp add: rows sorted_wrt_take take_map [symmetric])
  moreover have "no_created_at m \<le> no_created_at n"
    if n: "n \<in> set (t_notification_outbox (w_prod w))" "due now n" "n \<notin> set ?rows" and m: "m \<in> set ?rows" for n m
  proof -
    have "n \<in> set (take 100 ?sorted) \<union> set (drop 100 ?sorted)"
      using n(1,2) by (simp only: set_append [symmetric] append_take_drop_id set_sort) simp
    then have "n \<in> set (drop 100 ?sorted)" using n(3) rows by auto
    moreover have "sorted (map no_created_at (take 100 ?sorted) @ map no_created_at (drop 100 ?sorted))"
      by (simp only: map_append [symmetric] append_take_drop_id sorted_sort_key)
    ultimately show ?thesis using m by (auto simp: sorted_append rows)
  qed
  ultimately show ?thesis
    using run by (intro exI [of _ ?rows]) (auto simp: rows)
qed

text \<open>
  What the outbox promises of a notification: some attempts are left, or it was
  delivered, or it was given up. An attempt uses up one of the attempts left,
  delivers or gives up; a delivered notification can only be given up on.
\<close>

datatype promise = Waiting nat | Delivered | Abandoned | Withheld

inductive promise_step :: "promise \<Rightarrow> promise \<Rightarrow> bool" where
  use_up: "promise_step (Waiting (Suc (Suc k))) (Waiting (Suc k))"
| give_up: "promise_step (Waiting (Suc 0)) Abandoned"
| deliver: "promise_step (Waiting (Suc k)) Delivered"
| lose_track: "promise_step Delivered Abandoned"

inductive_simps promise_step_simps:
  "promise_step (Waiting k) p" "promise_step Delivered p" "promise_step Abandoned p" "promise_step Withheld p"

definition promise_of :: "notification_outbox \<Rightarrow> promise" where
  "promise_of n = (case no_status n of PENDING \<Rightarrow> Waiting (nat (no_max_retries n - no_retry_count n))
     | SENT \<Rightarrow> Delivered | FAILED \<Rightarrow> Abandoned | SUPPRESSED \<Rightarrow> Withheld)"

lemma waiting_positive: "row_ok n \<Longrightarrow> no_status n = PENDING \<Longrightarrow> \<exists>k. no_max_retries n - no_retry_count n = int (Suc k)"
  by (intro exI [of _ "nat (no_max_retries n - no_retry_count n) - 1"]) (auto simp: row_ok_def nat_diff_distrib')

lemma promise_touched [simp]: "promise_of (touched t n n') = promise_of n'"
  by (cases "no_status n'") (simp_all add: promise_of_def)

lemma promise_failure:
  assumes "row_ok n" and "no_status n = PENDING"
  shows "promise_of (snd (record_failure a e n)) = promise_of n \<or> promise_step (promise_of n) (promise_of (snd (record_failure a e n)))"
proof -
  obtain k where k: "no_max_retries n - no_retry_count n = int (Suc k)" using waiting_positive [OF assms] by blast
  then have less: "no_max_retries n - (no_retry_count n + 1) = int k" by simp
  have "promise_step (Waiting (Suc k)) (promise_of (failure_recorded t d e n))" for t d
    using assms(2) k less by (cases k) (auto simp: promise_of_def failure_recorded_def Let_def promise_step_simps)
  moreover have "promise_of n = Waiting (Suc k)" using assms(2) k by (simp add: promise_of_def)
  ultimately show ?thesis by (auto simp: record_failure_def split: sum.splits)
qed

lemma promise_sent_failure:
  assumes "row_ok n" and "no_status n = PENDING"
  shows "promise_step (promise_of n) (promise_of (snd (record_failure a e (touched t n (sent_row t n)))))"
proof -
  obtain k where k: "no_max_retries n - no_retry_count n = int (Suc k)" using waiting_positive [OF assms] by blast
  have sent: "promise_of (touched t n (sent_row t n)) = Delivered" by (simp add: promise_of_def sent_row_def)
  have "promise_of (failure_recorded u d e (touched t n (sent_row t n))) = (if k = 0 then Abandoned else Delivered)" for u d
    using k by (auto simp: promise_of_def failure_recorded_def sent_row_def Let_def)
  moreover have "promise_of n = Waiting (Suc k)" using assms(2) k by (simp add: promise_of_def)
  ultimately show ?thesis
    using sent by (auto simp: record_failure_def promise_step_simps split: sum.splits)
qed

text \<open>
  C12: an attempt refines the outbox's promise. Seen as attempts left, delivered or
  given up, every attempt on a consistent row either leaves it as it is or takes one
  step of the abstract machine, under every fault of its dispatcher, its commit and
  its metric.
\<close>

theorem attempt_refines_promise:
  assumes "row_ok n"
  shows "promise_of (snd (deliver_row a nid n)) = promise_of n \<or> promise_step (promise_of n) (promise_of (snd (deliver_row a nid n)))"
proof (cases "no_status n = PENDING")
  case True
  then have less: "\<not> no_max_retries n \<le> no_retry_count n" using assms by (auto simp: row_ok_def)
  obtain k where "no_max_retries n - no_retry_count n = int (Suc k)" using waiting_positive [OF assms True] by blast
  then have "promise_of n = Waiting (Suc k)" using True by (simp add: promise_of_def)
  then have "promise_step (promise_of n) (promise_of (sent_row t n))" for t
    by (simp add: promise_step_simps) (simp add: promise_of_def sent_row_def)
  then show ?thesis
    using True less promise_failure [OF assms True] promise_sent_failure [OF assms True]
    by (simp add: deliver_row_run Let_def split: sum.splits)
next
  case False
  have "promise_of (exhausted_row n) = promise_of n" if "no_status n = FAILED"
    using that by (simp add: promise_of_def exhausted_row_def)
  moreover have "no_max_retries n \<le> no_retry_count n" if "no_status n = FAILED"
    using that assms by (simp add: row_ok_def)
  ultimately show ?thesis
    using False by (cases "no_status n") (auto simp: deliver_row_run Let_def split: sum.splits)
qed

section \<open>Witnesses\<close>

definition sample_attempt :: "unit result \<Rightarrow> unit result \<Rightarrow> unit result \<Rightarrow> attempt" where
  "sample_attempt d c m = \<lparr>at_now = 5, at_dispatch_email = (\<lambda>_. d), at_dispatch_webhook = (\<lambda>_. d), at_commit = c, at_metric = m\<rparr>"

definition alert_row :: "int \<Rightarrow> notification_outbox" where
  "alert_row k = (new_notification 4 0 None (Some ''a'') (PDict []))\<lparr>no_retry_count := k, no_next_retry_at := (if k = 0 then None else Some 3)\<rparr>"

lemma sample_healthy [simp]: "healthy (sample_attempt d (Ok ()) m)"
  by (simp add: healthy_def sample_attempt_def valid_wall_def max_wall_def)

lemma sample_dispatches [simp]: "k < 3 \<Longrightarrow> dispatches (sample_attempt (Ok ()) c m) (alert_row k)"
  by (simp add: dispatches_iff sample_attempt_def alert_row_def new_notification_def deliver_channel_def)

theorem outbox_invariant_witness:
  "distinct (map no_id (attempt_on (sample_attempt (Raise InvalidTag) (Ok ()) (Ok ())) 4 [new_notification 4 0 None None (PDict [])]))"
proof -
  let ?row = "new_notification 4 0 None None (PDict [])" and ?a = "sample_attempt (Raise InvalidTag) (Ok ()) (Ok ())"
  have "outbox_step [] [?row]" using queue_alert [of 4 "[]"] by simp
  then have "outbox_step\<^sup>*\<^sup>* [] [?row]" by (rule r_into_rtranclp)
  then have "outbox_step\<^sup>*\<^sup>* [] (attempt_on ?a 4 [?row])" by (rule rtranclp.rtrancl_into_rtrancl) (rule attempt_row)
  then show ?thesis using outbox_invariant by blast
qed

theorem dispatched_at_most_once_witness:
  "length (dl_accepted (deliver_all ''n'' [sample_attempt (Raise InvalidTag) (Ok ()) (Ok ()),
     sample_attempt (Ok ()) (Ok ()) (Raise InvalidTag), sample_attempt (Ok ()) (Ok ()) (Ok ())] (queued (alert_row 0)))) \<le> 1"
  by (rule dispatched_at_most_once) (simp add: sample_attempt_def)

theorem commit_failure_redelivers_witness:
  "fst (run_attempts ''n'' [sample_attempt (Ok ()) (Raise (RuntimeError ''connection lost'')) (Ok ()),
     sample_attempt (Ok ()) (Ok ()) (Ok ())] (alert_row 0)) = 2"
  by (rule commit_failure_redelivers [where e = "RuntimeError ''connection lost''"]) (simp_all, simp add: sample_attempt_def)

theorem attempts_end_witness:
  "no_status (snd (run_attempts ''n'' [sample_attempt (Raise InvalidTag) (Ok ()) (Ok ())] (alert_row 2))) \<noteq> PENDING"
  by (rule attempts_end) (simp_all add: alert_row_def new_notification_def row_ok_def)

theorem delivered_row_failed_witness:
  "no_status (snd (deliver_row (sample_attempt (Ok ()) (Ok ()) (Raise InvalidTag)) ''n'' (alert_row 2))) = FAILED"
proof -
  have "at_metric (sample_attempt (Ok ()) (Ok ()) (Raise InvalidTag)) = Raise InvalidTag" by (simp add: sample_attempt_def)
  moreover have "no_retry_count (alert_row 2) + 1 = no_max_retries (alert_row 2)" by (simp add: alert_row_def new_notification_def)
  ultimately show ?thesis using delivered_row_failed [OF sample_healthy sample_dispatches] by simp
qed

theorem backoff_schedule_witness:
  "no_next_retry_at (snd (deliver_row (sample_attempt (Raise InvalidTag) (Ok ()) (Ok ())) ''n'' (alert_row 1))) = Some (5 + 240 * usec_per_second)"
proof -
  have "no_status (alert_row 1) = PENDING" "no_max_retries (alert_row 1) = 3" "no_retry_count (alert_row 1) \<in> {0, 1, 2}"
    "deliver_channel (sample_attempt (Raise InvalidTag) (Ok ()) (Ok ())) (alert_row 1) = Raise InvalidTag"
    by (simp_all add: alert_row_def new_notification_def deliver_channel_def sample_attempt_def)
  then show ?thesis
    using backoff_schedule [OF sample_healthy, of "alert_row 1" "Raise InvalidTag" "Ok ()" InvalidTag "''n''"]
    by (simp add: sample_attempt_def alert_row_def)
qed

theorem shipped_never_sends_witness:
  "no_status (snd (run_attempts ''n'' (replicate 3 (sample_attempt (shipped_dispatcher ''d'' (alert_row 0)) (Ok ()) (Ok ())))
     (new_notification 4 0 None None (PDict [])))) = FAILED"
proof (rule shipped_never_sends)
  have "shipped (sample_attempt (shipped_dispatcher ''d'' (alert_row 0)) (Ok ()) (Ok ()))"
    by (auto simp: shipped_def sample_attempt_def shipped_dispatcher_def)
  then show "\<forall>a\<in>set (replicate 3 (sample_attempt (shipped_dispatcher ''d'' (alert_row 0)) (Ok ()) (Ok ()))). healthy a \<and> shipped a"
    by simp
qed simp

theorem poll_enqueues_due_witness:
  "\<exists>rows. poll_outbox 5 (sample_world plain_proc (empty_db\<lparr>t_notification_outbox := [alert_row 0]\<rparr>)) =
     (Returned (), (sample_world plain_proc (empty_db\<lparr>t_notification_outbox := [alert_row 0]\<rparr>))\<lparr>w_sent := map delivery_message rows\<rparr>) \<and>
     length rows = 1"
proof -
  have "w_broker_fault (sample_world plain_proc (empty_db\<lparr>t_notification_outbox := [alert_row 0]\<rparr>)) = None"
    "w_sent (sample_world plain_proc (empty_db\<lparr>t_notification_outbox := [alert_row 0]\<rparr>)) = []"
    "due 5 (alert_row 0)"
    by (simp_all add: sample_world_def due_def alert_row_def new_notification_def)
  then show ?thesis
    using poll_enqueues_due [OF sample_world_ready, of plain_proc "empty_db\<lparr>t_notification_outbox := [alert_row 0]\<rparr>" 5] by auto
qed

theorem attempt_refines_promise_witness:
  "promise_step (promise_of (alert_row 1)) (promise_of (snd (deliver_row (sample_attempt (Ok ()) (Ok ()) (Ok ())) ''n'' (alert_row 1))))"
proof -
  have "row_ok (alert_row 1)" "promise_of (alert_row 1) = Waiting 2"
    by (simp_all add: alert_row_def new_notification_def row_ok_def promise_of_def)
  moreover have "promise_of (snd (deliver_row (sample_attempt (Ok ()) (Ok ()) (Ok ())) ''n'' (alert_row 1))) = Delivered"
    by (simp add: deliver_row_run alert_row_def new_notification_def sample_attempt_def deliver_channel_def promise_of_def sent_row_def)
  ultimately show ?thesis
    using attempt_refines_promise [of "alert_row 1" "sample_attempt (Ok ()) (Ok ()) (Ok ())" "''n''"] by auto
qed

end
