(* ===== verification/Chunker.thy ===== *)
theory Chunker
  imports PyText
begin

text \<open>
  \<open>retrieval/chunker.py\<close>: splitting a circular into overlapping chunks. The
  tokeniser of the tiktoken package is a parameter (None when it cannot be
  imported). The regular expressions are written out as the scans they are: none
  of them needs backtracking, since what follows a repetition never starts with a
  character of it. The index of a paragraph, which the code carries along but
  never reads, is left out.
\<close>

section \<open>Text\<close>

abbreviation newline :: char where
  "newline \<equiv> CHR 0x0A"

fun replace_str :: "string \<Rightarrow> string \<Rightarrow> nat \<Rightarrow> string \<Rightarrow> string" where
  "replace_str old new skip [] = []"
| "replace_str old new (Suc skip) (c # s) = replace_str old new skip s"
| "replace_str old new 0 (c # s) =
     (if starts_with old (c # s) then new @ replace_str old new (length old - 1) s else c # replace_str old new 0 s)"

text \<open>Runs of at least \<open>n\<close> characters are replaced.\<close>

function collapse :: "(char \<Rightarrow> bool) \<Rightarrow> nat \<Rightarrow> string \<Rightarrow> string \<Rightarrow> string" where
  "collapse P n r [] = []"
| "collapse P n r (c # s) =
     (if P c
      then (let run = c # takeWhile P s in (if n \<le> length run then r else run) @ collapse P n r (dropWhile P s))
      else c # collapse P n r s)"
  by pat_completeness auto
termination
  by (relation "measure (\<lambda>(_, _, _, s). length s)") (auto simp: less_Suc_eq_le length_dropWhile_le)

definition normalise_whitespace :: "string \<Rightarrow> string" where
  "normalise_whitespace text =
     (let t1 = replace_str [CHR 0x0D] [newline] 0 (replace_str [CHR 0x0D, newline] [newline] 0 text);
          t2 = collapse (\<lambda>c. c = newline) 3 [newline, newline] t1
      in strip (collapse (\<lambda>c. c = CHR '' '' \<or> c = CHR 0x09) 2 '' '' t2))"

text \<open>\<open>re.split\<close> at runs of two or more newlines.\<close>

function paragraph_pieces :: "string \<Rightarrow> string \<Rightarrow> string list" where
  "paragraph_pieces acc [] = [rev acc]"
| "paragraph_pieces acc (c # s) =
     (if c = newline \<and> s \<noteq> [] \<and> hd s = newline then rev acc # paragraph_pieces [] (dropWhile (\<lambda>x. x = newline) s)
      else paragraph_pieces (c # acc) s)"
  by pat_completeness auto
termination
  by (relation "measure (\<lambda>(_, s). length s)") (auto simp: less_Suc_eq_le length_dropWhile_le)

definition split_into_paragraphs :: "string \<Rightarrow> string list" where
  "split_into_paragraphs text = filter (\<lambda>p. p \<noteq> [] \<and> 20 < length p) (map strip (paragraph_pieces [] text))"

definition abbreviations :: "string list" where
  "abbreviations = [''e.g.'', ''i.e.'', ''viz.'', ''etc.'', ''No.'', ''Rs.'', ''RBI.'', ''NBFC.'',
     ''KYC.'', ''AML.'', ''PAN.'', ''Sec.'', ''Art.'', ''Fig.'', ''Vol.'', ''para.'']"

definition placeholders :: "(string \<times> string) list" where
  "placeholders = map (\<lambda>(i, abbr). (''__ABBR'' @ nat_str i @ ''__'', abbr)) (enumerate 0 abbreviations)"

text \<open>The split after \<open>.\<close>, \<open>!\<close> or \<open>?\<close> at white space before a capital, a digit or a parenthesis.\<close>

definition starts_sentence :: "string \<Rightarrow> bool" where
  "starts_sentence s = (case s of [] \<Rightarrow> False
     | c # _ \<Rightarrow> (65 \<le> code_point c \<and> code_point c \<le> 90) \<or> is_digit c \<or> c = CHR ''('')"

function sentence_pieces :: "bool \<Rightarrow> string \<Rightarrow> string \<Rightarrow> string list" where
  "sentence_pieces ended acc [] = [rev acc]"
| "sentence_pieces ended acc (c # s) =
     (if ended \<and> is_space c \<and> starts_sentence (dropWhile is_space s)
      then rev acc # sentence_pieces False [] (dropWhile is_space s)
      else sentence_pieces (c \<in> {CHR ''.'', CHR ''!'', CHR ''?''}) (c # acc) s)"
  by pat_completeness auto
termination
  by (relation "measure (\<lambda>(_, _, s). length s)") (auto simp: less_Suc_eq_le length_dropWhile_le)

definition split_into_sentences :: "string \<Rightarrow> string list" where
  "split_into_sentences text =
     (let protected = foldl (\<lambda>t (placeholder, abbr). replace_str abbr placeholder 0 t) text placeholders;
          restore = (\<lambda>sent. strip (foldl (\<lambda>t (placeholder, abbr). replace_str placeholder abbr 0 t) sent placeholders));
          sentences = filter (\<lambda>s. s \<noteq> []) (map restore (sentence_pieces False [] protected))
      in if sentences \<noteq> [] then sentences else [text])"

section \<open>Section headings\<close>

definition capital :: "char \<Rightarrow> bool" where
  "capital c \<longleftrightarrow> 65 \<le> code_point c \<and> code_point c \<le> 90"

text \<open>How much of a text that starts a line a heading pattern takes.\<close>

definition numbered_heading :: "string \<Rightarrow> nat option" where
  "numbered_heading s =
     (let a = dropWhile is_space s; b = dropWhile is_digit a;
          c = dropWhile (\<lambda>x. is_digit x \<or> x = CHR ''.'') (tl b); e = dropWhile is_space c
      in if a = [] \<or> \<not> is_digit (hd a) \<or> b = [] \<or> hd b \<noteq> CHR ''.'' \<or> c = [] \<or> \<not> is_space (hd c) \<or> e = [] \<or> \<not> capital (hd e)
         then None else Some (length s - length (tl e)))"

definition worded_heading :: "string \<Rightarrow> string \<Rightarrow> (char \<Rightarrow> bool) \<Rightarrow> string \<Rightarrow> nat option" where
  "worded_heading word ending label s =
     (let a = dropWhile is_space s; b = drop (length word) a;
          c = (if ending \<noteq> [] \<and> lower (take (length ending) b) = ending then drop (length ending) b else b);
          e = dropWhile is_space c
      in if lower (take (length word) a) \<noteq> word \<or> c = [] \<or> \<not> is_space (hd c) \<or> e = [] \<or> \<not> label (lower_char (hd e))
         then None else Some (length s - length (dropWhile (label \<circ> lower_char) e)))"

definition heading_patterns :: "(string \<Rightarrow> nat option) list" where
  "heading_patterns =
     [numbered_heading,
      worded_heading ''part'' [] (\<lambda>c. c \<in> set ''ivx''),
      worded_heading ''annex'' ''ure'' (\<lambda>c. (97 \<le> code_point c \<and> code_point c \<le> 122) \<or> is_digit c),
      worded_heading ''schedule'' [] (\<lambda>c. c \<in> set ''ivx'')]"

function heading_matches :: "(string \<Rightarrow> nat option) \<Rightarrow> bool \<Rightarrow> nat \<Rightarrow> string \<Rightarrow> (nat \<times> string) list" where
  "heading_matches pat line_start pos [] = []"
| "heading_matches pat line_start pos (c # s) =
     (case (if line_start then pat (c # s) else None) of
        Some n \<Rightarrow> (pos, take n (c # s)) # heading_matches pat False (pos + n) (drop (n - 1) s)
      | None \<Rightarrow> heading_matches pat (c = newline) (pos + 1) s)"
  by pat_completeness auto
termination
  by (relation "measure (\<lambda>(_, _, _, s). length s)") auto

definition extract_nearest_section :: "string \<Rightarrow> nat \<Rightarrow> string" where
  "extract_nearest_section text char_pos =
     (let found = concat (map (\<lambda>pat. heading_matches pat True 0 (take char_pos text)) heading_patterns)
      in snd (foldl (\<lambda>(best_pos, best) (pos, h). if best_pos < int pos then (int pos, take 100 (strip h)) else (best_pos, best))
           (- 1, ''Introduction'') found))"

section \<open>Chunks\<close>

record text_chunk =
  tc_text :: string
  tc_chunk_index :: nat
  tc_source_document_id :: string
  tc_source_url :: string
  tc_section_hint :: string
  tc_char_start :: nat
  tc_char_end :: nat
  tc_token_count :: nat

definition default_chunk_size_tokens :: nat where
  "default_chunk_size_tokens = 512"

definition default_overlap_tokens :: nat where
  "default_overlap_tokens = 128"

definition min_chunk_size_tokens :: nat where
  "min_chunk_size_tokens = 50"

definition fallback_tokens :: "string \<Rightarrow> nat" where
  "fallback_tokens text = max 1 (length text div 4)"

definition count_tokens :: "(string \<Rightarrow> nat) option \<Rightarrow> string \<Rightarrow> nat" where
  "count_tokens tiktoken text = (case tiktoken of Some f \<Rightarrow> f text | None \<Rightarrow> fallback_tokens text)"

text \<open>\<open>str.find\<close>, None for -1.\<close>

fun find_str :: "string \<Rightarrow> string \<Rightarrow> nat option" where
  "find_str p [] = (if p = [] then Some 0 else None)"
| "find_str p (c # s) = (if starts_with p (c # s) then Some 0 else map_option Suc (find_str p s))"

record source_doc =
  sd_tiktoken :: "(string \<Rightarrow> nat) option"
  sd_text :: string
  sd_document_id :: string
  sd_url :: string

abbreviation tokens :: "source_doc \<Rightarrow> string \<Rightarrow> nat" where
  "tokens d \<equiv> count_tokens (sd_tiktoken d)"

definition new_chunk :: "source_doc \<Rightarrow> nat \<Rightarrow> string \<Rightarrow> nat \<Rightarrow> nat \<Rightarrow> text_chunk" where
  "new_chunk d idx content char_start char_end =
     \<lparr>tc_text = content, tc_chunk_index = idx, tc_source_document_id = sd_document_id d, tc_source_url = sd_url d,
      tc_section_hint = extract_nearest_section (sd_text d) char_start, tc_char_start = char_start, tc_char_end = char_end,
      tc_token_count = tokens d content\<rparr>"

text \<open>A text that is not found counts as position -1: the start is 0, the end one less.\<close>

definition make_chunk :: "source_doc \<Rightarrow> nat \<Rightarrow> string list \<Rightarrow> text_chunk option" where
  "make_chunk d idx paras =
     (if paras = [] then None
      else
        let content = join [newline, newline] paras;
            start = find_str (hd paras) (sd_text d)
        in if tokens d content < min_chunk_size_tokens then None
           else Some (new_chunk d idx content (case start of Some n \<Rightarrow> n | None \<Rightarrow> 0)
             (case find_str (last paras) (sd_text d) of
                Some n \<Rightarrow> n + length (last paras)
              | None \<Rightarrow> (case start of Some n \<Rightarrow> n + length content | None \<Rightarrow> length content - 1))))"

definition make_sentence_chunk :: "source_doc \<Rightarrow> nat \<Rightarrow> string list \<Rightarrow> text_chunk option" where
  "make_sentence_chunk d idx sents =
     (let content = join '' '' sents;
          start = (case find_str (hd sents) (sd_text d) of Some n \<Rightarrow> n | None \<Rightarrow> 0)
      in if min_chunk_size_tokens \<le> tokens d content then Some (new_chunk d idx content start (start + length content)) else None)"

text \<open>The last pieces, from the end, until the budget is used up.\<close>

fun keep_overlap :: "(string \<Rightarrow> nat) \<Rightarrow> int \<Rightarrow> string list \<Rightarrow> string list \<Rightarrow> string list" where
  "keep_overlap tok budget [] kept = kept"
| "keep_overlap tok budget (p # ps) kept =
     (if budget \<le> 0 then kept else keep_overlap tok (budget - int (tok p)) ps (p # kept))"

definition overlap :: "(string \<Rightarrow> nat) \<Rightarrow> nat \<Rightarrow> string list \<Rightarrow> string list" where
  "overlap tok overlap_tokens current = keep_overlap tok (int overlap_tokens) (rev current) []"

definition token_sum :: "(string \<Rightarrow> nat) \<Rightarrow> string list \<Rightarrow> nat" where
  "token_sum tok ps = sum_list (map tok ps)"

text \<open>The loops carry the chunks so far, the next index, the current pieces and their tokens.\<close>

type_synonym window = "text_chunk list \<times> nat \<times> string list \<times> nat"

definition emit :: "text_chunk option \<Rightarrow> text_chunk list \<Rightarrow> nat \<Rightarrow> text_chunk list \<times> nat" where
  "emit c chunks idx = (case c of Some x \<Rightarrow> (chunks @ [x], idx + 1) | None \<Rightarrow> (chunks, idx))"

definition sentence_step :: "source_doc \<Rightarrow> nat \<Rightarrow> nat \<Rightarrow> window \<Rightarrow> string \<Rightarrow> window" where
  "sentence_step d chunk_size overlap_tokens = (\<lambda>(chunks, idx, current, current_tokens) sent.
     let current' = current @ [sent]; n = current_tokens + tokens d sent in
     if chunk_size \<le> n
     then (let (chunks', idx') = emit (make_sentence_chunk d idx current') chunks idx;
               kept = overlap (tokens d) overlap_tokens current'
           in (chunks', idx', kept, token_sum (tokens d) kept))
     else (chunks, idx, current', n))"

definition chunk_large_paragraph :: "source_doc \<Rightarrow> nat \<Rightarrow> nat \<Rightarrow> string \<Rightarrow> nat \<Rightarrow> text_chunk list" where
  "chunk_large_paragraph d chunk_size overlap_tokens para chunk_index =
     (let (chunks, idx, current, _) =
        foldl (sentence_step d chunk_size overlap_tokens) ([], chunk_index, [], 0) (split_into_sentences para)
      in if current \<noteq> [] then fst (emit (make_sentence_chunk d idx current) chunks idx) else chunks)"

definition paragraph_step :: "source_doc \<Rightarrow> nat \<Rightarrow> nat \<Rightarrow> window \<Rightarrow> string \<Rightarrow> window" where
  "paragraph_step d chunk_size overlap_tokens = (\<lambda>(chunks, idx, current, current_tokens) para.
     if chunk_size < tokens d para
     then (let (chunks', idx') = emit (make_chunk d idx current) chunks idx;
               sub_chunks = chunk_large_paragraph d chunk_size overlap_tokens para idx'
           in (chunks' @ sub_chunks, idx' + length sub_chunks, [], if current \<noteq> [] then 0 else current_tokens))
     else (let current' = current @ [para]; n = current_tokens + tokens d para in
           if chunk_size \<le> n
           then (let (chunks', idx') = emit (make_chunk d idx current') chunks idx;
                     kept = overlap (tokens d) overlap_tokens current'
                 in (chunks', idx', kept, token_sum (tokens d) kept))
           else (chunks, idx, current', n)))"

definition chunk_text ::
  "(string \<Rightarrow> nat) option \<Rightarrow> string \<Rightarrow> string \<Rightarrow> string \<Rightarrow> nat \<Rightarrow> nat \<Rightarrow> text_chunk list" where
  "chunk_text tiktoken text source_document_id source_url chunk_size overlap_tokens =
     (if strip text = [] then []
      else
        let text' = normalise_whitespace text;
            d = \<lparr>sd_tiktoken = tiktoken, sd_text = text', sd_document_id = source_document_id, sd_url = source_url\<rparr>;
            (chunks, idx, current, _) = foldl (paragraph_step d chunk_size overlap_tokens) ([], 0, [], 0) (split_into_paragraphs text')
        in if current \<noteq> [] then fst (emit (make_chunk d idx current) chunks idx) else chunks)"

section \<open>The windows of a text\<close>

text \<open>
  A reference for the loops: the windows of pieces they go through. A piece is
  appended; a window that is full is closed and the next one starts with the
  overlap; the chunks are the windows that are long enough, numbered.
\<close>

fun windows :: "(string \<Rightarrow> nat) \<Rightarrow> nat \<Rightarrow> nat \<Rightarrow> string list \<Rightarrow> string list \<Rightarrow> string list list" where
  "windows tok lim ov cur [] = (if cur = [] then [] else [cur])"
| "windows tok lim ov cur (p # ps) =
     (let w = cur @ [p] in
      if lim \<le> token_sum tok w then w # windows tok lim ov (overlap tok ov w) ps else windows tok lim ov w ps)"

datatype piece_window = Paragraphs "string list" | Sentences "string list"

fun text_windows :: "(string \<Rightarrow> nat) \<Rightarrow> nat \<Rightarrow> nat \<Rightarrow> string list \<Rightarrow> string list \<Rightarrow> piece_window list" where
  "text_windows tok lim ov cur [] = (if cur = [] then [] else [Paragraphs cur])"
| "text_windows tok lim ov cur (p # ps) =
     (if lim < tok p
      then (if cur = [] then [] else [Paragraphs cur]) @
        map Sentences (windows tok lim ov [] (split_into_sentences p)) @ text_windows tok lim ov [] ps
      else let w = cur @ [p] in
        if lim \<le> token_sum tok w then Paragraphs w # text_windows tok lim ov (overlap tok ov w) ps
        else text_windows tok lim ov w ps)"

definition window_chunk :: "source_doc \<Rightarrow> nat \<Rightarrow> piece_window \<Rightarrow> text_chunk option" where
  "window_chunk d idx w = (case w of Paragraphs ps \<Rightarrow> make_chunk d idx ps | Sentences ss \<Rightarrow> make_sentence_chunk d idx ss)"

text \<open>The chunk of a window, as a list of none or one.\<close>

definition numbered :: "source_doc \<Rightarrow> nat \<Rightarrow> piece_window \<Rightarrow> text_chunk list" where
  "numbered d idx w = (case window_chunk d idx w of Some c \<Rightarrow> [c] | None \<Rightarrow> [])"

fun number_chunks :: "source_doc \<Rightarrow> nat \<Rightarrow> piece_window list \<Rightarrow> text_chunk list" where
  "number_chunks d idx [] = []"
| "number_chunks d idx (w # ws) = numbered d idx w @ number_chunks d (idx + length (numbered d idx w)) ws"

lemma token_sum_simps [simp]: "token_sum tok [] = 0" "token_sum tok (p # ps) = tok p + token_sum tok ps"
  "token_sum tok (ps @ qs) = token_sum tok ps + token_sum tok qs"
  by (simp_all add: token_sum_def)

lemma number_append:
  "number_chunks d idx (vs @ ws) = number_chunks d idx vs @ number_chunks d (idx + length (number_chunks d idx vs)) ws"
  by (induction vs arbitrary: idx) (simp_all add: add.assoc)

lemma emit_numbered:
  "emit (make_chunk d idx ps) chunks idx =
     (chunks @ numbered d idx (Paragraphs ps), idx + length (numbered d idx (Paragraphs ps)))"
  "emit (make_sentence_chunk d idx ss) chunks idx =
     (chunks @ numbered d idx (Sentences ss), idx + length (numbered d idx (Sentences ss)))"
  by (simp_all add: emit_def numbered_def window_chunk_def split: option.splits)

lemma sentences_run:
  "(case foldl (sentence_step d lim ov) (chunks, idx, cur, token_sum (tokens d) cur) ss of (chunks', idx', cur', n) \<Rightarrow>
      if cur' \<noteq> [] then fst (emit (make_sentence_chunk d idx' cur') chunks' idx') else chunks') =
   chunks @ number_chunks d idx (map Sentences (windows (tokens d) lim ov cur ss))"
proof (induction ss arbitrary: chunks idx cur)
  case Nil
  then show ?case by (simp add: emit_numbered)
next
  case (Cons s ss)
  let ?w = "cur @ [s]"
  show ?case
  proof (cases "lim \<le> token_sum (tokens d) ?w")
    case True
    let ?new = "numbered d idx (Sentences ?w)" and ?kept = "overlap (tokens d) ov ?w"
    have "sentence_step d lim ov (chunks, idx, cur, token_sum (tokens d) cur) s =
        (chunks @ ?new, idx + length ?new, ?kept, token_sum (tokens d) ?kept)"
      using True by (simp add: sentence_step_def emit_numbered Let_def)
    moreover have "number_chunks d idx (map Sentences (windows (tokens d) lim ov cur (s # ss))) =
        ?new @ number_chunks d (idx + length ?new) (map Sentences (windows (tokens d) lim ov ?kept ss))"
      using True by (simp add: Let_def)
    ultimately show ?thesis
      using Cons.IH [of "chunks @ ?new" "idx + length ?new" ?kept] by simp
  next
    case False
    then have "sentence_step d lim ov (chunks, idx, cur, token_sum (tokens d) cur) s = (chunks, idx, ?w, token_sum (tokens d) ?w)"
      by (simp add: sentence_step_def Let_def)
    then show ?thesis using False Cons.IH [of chunks idx ?w] by (simp add: Let_def)
  qed
qed

lemma large_paragraph_windows:
  "chunk_large_paragraph d lim ov para idx =
     number_chunks d idx (map Sentences (windows (tokens d) lim ov [] (split_into_sentences para)))"
  using sentences_run [of d lim ov "[]" idx "[]" "split_into_sentences para"]
  by (simp add: chunk_large_paragraph_def Let_def split: prod.splits)

lemma no_paragraphs [simp]: "numbered d idx (Paragraphs []) = []"
  by (simp add: numbered_def window_chunk_def make_chunk_def)

lemma paragraphs_run:
  "(case foldl (paragraph_step d lim ov) (chunks, idx, cur, token_sum (tokens d) cur) ps of (chunks', idx', cur', n) \<Rightarrow>
      if cur' \<noteq> [] then fst (emit (make_chunk d idx' cur') chunks' idx') else chunks') =
   chunks @ number_chunks d idx (text_windows (tokens d) lim ov cur ps)"
proof (induction ps arbitrary: chunks idx cur)
  case Nil
  then show ?case by (simp add: emit_numbered)
next
  case (Cons p ps)
  let ?w = "cur @ [p]" and ?kept = "overlap (tokens d) ov (cur @ [p])"
  show ?case
  proof (cases "lim < tokens d p")
    case True
    let ?new = "numbered d idx (Paragraphs cur)"
    let ?sub = "number_chunks d (idx + length ?new) (map Sentences (windows (tokens d) lim ov [] (split_into_sentences p)))"
    have "paragraph_step d lim ov (chunks, idx, cur, token_sum (tokens d) cur) p =
        (chunks @ ?new @ ?sub, idx + length ?new + length ?sub, [], token_sum (tokens d) [])"
      using True by (simp add: paragraph_step_def emit_numbered large_paragraph_windows Let_def)
    moreover have "number_chunks d idx (text_windows (tokens d) lim ov cur (p # ps)) =
        ?new @ ?sub @ number_chunks d (idx + length ?new + length ?sub) (text_windows (tokens d) lim ov [] ps)"
      using True by (cases "cur = []") (simp_all add: number_append)
    ultimately show ?thesis
      using Cons.IH [of "chunks @ ?new @ ?sub" "idx + length ?new + length ?sub" "[]"]
      by simp
  next
    case small: False
    show ?thesis
    proof (cases "lim \<le> token_sum (tokens d) ?w")
      case True
      let ?new = "numbered d idx (Paragraphs ?w)"
      have "paragraph_step d lim ov (chunks, idx, cur, token_sum (tokens d) cur) p =
          (chunks @ ?new, idx + length ?new, ?kept, token_sum (tokens d) ?kept)"
        using small True by (simp add: paragraph_step_def emit_numbered Let_def)
      moreover have "number_chunks d idx (text_windows (tokens d) lim ov cur (p # ps)) =
          ?new @ number_chunks d (idx + length ?new) (text_windows (tokens d) lim ov ?kept ps)"
        using small True by (simp add: Let_def)
      ultimately show ?thesis
        using Cons.IH [of "chunks @ ?new" "idx + length ?new" ?kept] by simp
    next
      case False
      then have "paragraph_step d lim ov (chunks, idx, cur, token_sum (tokens d) cur) p = (chunks, idx, ?w, token_sum (tokens d) ?w)"
        using small by (simp add: paragraph_step_def Let_def)
      then show ?thesis using small False Cons.IH [of chunks idx ?w] by (simp add: Let_def)
    qed
  qed
qed

definition doc_of :: "(string \<Rightarrow> nat) option \<Rightarrow> string \<Rightarrow> string \<Rightarrow> string \<Rightarrow> source_doc" where
  "doc_of tiktoken text document_id url =
     \<lparr>sd_tiktoken = tiktoken, sd_text = normalise_whitespace text, sd_document_id = document_id, sd_url = url\<rparr>"

definition document_windows :: "(string \<Rightarrow> nat) option \<Rightarrow> string \<Rightarrow> nat \<Rightarrow> nat \<Rightarrow> piece_window list" where
  "document_windows tiktoken text lim ov =
     (if strip text = [] then []
      else text_windows (count_tokens tiktoken) lim ov [] (split_into_paragraphs (normalise_whitespace text)))"

lemma chunk_text_windows:
  "chunk_text tk text did url lim ov = number_chunks (doc_of tk text did url) 0 (document_windows tk text lim ov)"
proof (cases "strip text = []")
  case False
  have "chunk_text tk text did url lim ov =
      (case foldl (paragraph_step (doc_of tk text did url) lim ov) ([], 0, [], token_sum (tokens (doc_of tk text did url)) [])
          (split_into_paragraphs (normalise_whitespace text)) of
        (chunks', idx', cur', n) \<Rightarrow>
          if cur' \<noteq> [] then fst (emit (make_chunk (doc_of tk text did url) idx' cur') chunks' idx') else chunks')"
    using False unfolding chunk_text_def doc_of_def Let_def by (simp only: if_False token_sum_simps)
  then show ?thesis
    using False unfolding paragraphs_run by (simp add: document_windows_def) (simp add: doc_of_def)
qed (simp add: chunk_text_def document_windows_def)

section \<open>What the windows hold\<close>

fun window_text :: "piece_window \<Rightarrow> string" where
  "window_text (Paragraphs ps) = join [newline, newline] ps"
| "window_text (Sentences ss) = join '' '' ss"

lemma keep_overlap_subset: "set (keep_overlap tok b ps kept) \<subseteq> set ps \<union> set kept"
proof (induction ps arbitrary: b kept)
  case (Cons q ps)
  have "set (keep_overlap tok (b - int (tok q)) ps (q # kept)) \<subseteq> set ps \<union> set (q # kept)" by (rule Cons.IH)
  then show ?case by auto
qed simp

lemma overlap_subset: "set (overlap tok ov cur) \<subseteq> set cur"
  using keep_overlap_subset [of tok "int ov" "rev cur" "[]"] by (simp add: overlap_def)

lemma keep_overlap_bound:
  assumes "\<forall>p\<in>set ps. tok p \<le> lim" and "int (token_sum tok kept) + max 0 b < int ov + int lim" and "0 < lim"
    and "b + int (token_sum tok kept) \<le> int ov"
  shows "int (token_sum tok (keep_overlap tok b ps kept)) < int ov + int lim"
  using assms
proof (induction ps arbitrary: b kept)
  case (Cons p ps)
  then show ?case by (auto simp: max_def split: if_splits)
qed auto

lemma overlap_bound: "\<forall>p\<in>set cur. tok p \<le> lim \<Longrightarrow> 0 < lim \<Longrightarrow> token_sum tok (overlap tok ov cur) < ov + lim"
  using keep_overlap_bound [of "rev cur" tok lim "[]" "int ov" ov] by (simp add: overlap_def)

text \<open>
  A passage around position \<open>i\<close> of a list of pieces: a run of consecutive pieces
  that starts at the beginning, after a piece that stops it, or at least \<open>ov\<close>
  tokens before \<open>i\<close>, and ends at the end, before a piece that stops it, or with
  at least \<open>lim\<close> tokens.
\<close>

definition slice :: "nat \<Rightarrow> nat \<Rightarrow> string list \<Rightarrow> string list" where
  "slice a b ps = take (b - a) (drop a ps)"

definition passage ::
  "(string \<Rightarrow> nat) \<Rightarrow> nat \<Rightarrow> nat \<Rightarrow> (string \<Rightarrow> bool) \<Rightarrow> string list \<Rightarrow> nat \<Rightarrow> nat \<Rightarrow> nat \<Rightarrow> bool" where
  "passage tok lim ov stop ps i a b \<longleftrightarrow> a \<le> i \<and> i < b \<and> b \<le> length ps \<and> list_all (\<lambda>p. \<not> stop p) (slice a b ps) \<and>
     (a = 0 \<or> stop (ps ! (a - 1)) \<or> ov \<le> token_sum tok (slice a i ps)) \<and>
     (b = length ps \<or> stop (ps ! b) \<or> lim \<le> token_sum tok (slice a b ps))"

lemma slice_mid: "slice (length xs) (length xs + length ys) (xs @ ys @ zs) = ys"
  by (simp add: slice_def)

lemma token_sum_take_mono: "m \<le> n \<Longrightarrow> token_sum tok (take m ps) \<le> token_sum tok (take n ps)"
  using take_add [of m "n - m" ps] by simp

text \<open>The window \<open>cur\<close> after \<open>pre\<close> is a passage around what it holds beyond its first \<open>m\<close> pieces.\<close>

lemma passage_window:
  assumes start: "pre = [] \<or> stop (last pre) \<or> ov \<le> token_sum tok (take m cur)"
    and i: "length pre + m \<le> i" "i < length pre + length cur"
    and cur: "list_all (\<lambda>p. \<not> stop p) cur"
    and finish: "ps = [] \<or> stop (hd ps) \<or> lim \<le> token_sum tok cur"
  shows "passage tok lim ov stop (pre @ cur @ ps) i (length pre) (length pre + length cur)"
proof -
  have "slice (length pre) i (pre @ cur @ ps) = take (i - length pre) cur"
    using i(2) by (simp add: slice_def)
  moreover have "token_sum tok (take m cur) \<le> token_sum tok (take (i - length pre) cur)"
    using i(1) by (intro token_sum_take_mono) simp
  moreover have "(pre @ cur @ ps) ! (length pre - 1) = last pre" if "pre \<noteq> []"
    using that by (simp add: nth_append last_conv_nth)
  moreover have "(pre @ cur @ ps) ! (length pre + length cur) = hd ps" if "ps \<noteq> []"
    using that by (simp add: nth_append hd_conv_nth)
  ultimately show ?thesis
    using assms by (auto simp: passage_def slice_mid)
qed

lemma keep_overlap_take:
  "\<exists>n. keep_overlap tok b ps kept = rev (take n ps) @ kept \<and> (length ps \<le> n \<or> b \<le> int (token_sum tok (take n ps)))"
proof (induction ps arbitrary: b kept)
  case (Cons p ps)
  show ?case
  proof (cases "b \<le> 0")
    case False
    obtain n where "keep_overlap tok (b - int (tok p)) ps (p # kept) = rev (take n ps) @ p # kept"
      and "length ps \<le> n \<or> b - int (tok p) \<le> int (token_sum tok (take n ps))"
      using Cons.IH by blast
    then show ?thesis using False by (intro exI [of _ "Suc n"]) auto
  qed (auto intro: exI [of _ 0])
qed simp

text \<open>The overlap is the end of the window, all of it or at least \<open>ov\<close> tokens.\<close>

lemma overlap_suffix:
  obtains x where "w = x @ overlap tok ov w" and "x = [] \<or> ov \<le> token_sum tok (overlap tok ov w)"
proof -
  obtain n where n: "overlap tok ov w = rev (take n (rev w))"
    and fits: "length w \<le> n \<or> int ov \<le> int (token_sum tok (take n (rev w)))"
    using keep_overlap_take [of tok "int ov" "rev w" "[]"] by (auto simp: overlap_def)
  have "w = rev (drop n (rev w)) @ overlap tok ov w"
    unfolding n by (simp flip: rev_append)
  moreover have "rev (drop n (rev w)) = [] \<or> ov \<le> token_sum tok (overlap tok ov w)"
    using fits unfolding n by (auto simp: token_sum_def rev_map [symmetric])
  ultimately show thesis using that by blast
qed

lemma windows_passage:
  assumes "pre = [] \<or> ov \<le> token_sum tok (take m cur)" and "m \<le> length cur"
    and "length pre + m \<le> i" and "i < length (pre @ cur @ ps)"
  shows "\<exists>a b. passage tok lim ov (\<lambda>_. False) (pre @ cur @ ps) i a b \<and>
    slice a b (pre @ cur @ ps) \<in> set (windows tok lim ov cur ps)"
  using assms
proof (induction ps arbitrary: pre cur m)
  case Nil
  then show ?case
    using passage_window [of pre "\<lambda>_. False" ov tok m cur i "[]" lim] slice_mid [of pre cur "[]"]
    by (intro exI [of _ "length pre"] exI [of _ "length pre + length cur"]) (auto simp: list_all_iff)
next
  case (Cons p ps)
  let ?w = "cur @ [p]"
  show ?case
  proof (cases "lim \<le> token_sum tok ?w")
    case True
    show ?thesis
    proof (cases "i < length pre + length ?w")
      case inside: True
      have "pre = [] \<or> ov \<le> token_sum tok (take m ?w)" using Cons.prems(1,2) by simp
      then show ?thesis
        using passage_window [of pre "\<lambda>_. False" ov tok m ?w i ps lim] slice_mid [of pre ?w ps] Cons.prems(3) inside True
        by (intro exI [of _ "length pre"] exI [of _ "length pre + length ?w"]) (auto simp: list_all_iff Let_def)
    next
      case False
      obtain x where x: "?w = x @ overlap tok ov ?w" "x = [] \<or> ov \<le> token_sum tok (overlap tok ov ?w)"
        by (rule overlap_suffix)
      let ?kept = "overlap tok ov ?w"
      have "pre @ x = [] \<or> ov \<le> token_sum tok (take (length ?kept) ?kept)"
      proof (cases "x = []")
        case True
        then have "?kept = ?w" using x(1) by simp
        then show ?thesis using Cons.prems(1) token_sum_take_mono [of m "length ?w" tok ?w] Cons.prems(2) True by auto
      qed (use x(2) in simp)
      moreover have all: "pre @ cur @ p # ps = (pre @ x) @ ?kept @ ps" using x(1) by simp
      moreover have "length (pre @ x) + length ?kept \<le> i"
        using False arg_cong [OF x(1), of length] by simp
      moreover have "i < length ((pre @ x) @ ?kept @ ps)" using Cons.prems(4) all by simp
      ultimately obtain a b where "passage tok lim ov (\<lambda>_. False) ((pre @ x) @ ?kept @ ps) i a b"
        and "slice a b ((pre @ x) @ ?kept @ ps) \<in> set (windows tok lim ov ?kept ps)"
        using Cons.IH [of "pre @ x" "length ?kept" ?kept] by blast
      then show ?thesis using True unfolding all [symmetric] by (auto simp: Let_def)
    qed
  next
    case False
    have "pre = [] \<or> ov \<le> token_sum tok (take m ?w)" using Cons.prems(1,2) by simp
    then show ?thesis
      using Cons.IH [of pre m ?w] Cons.prems False by (auto simp: Let_def)
  qed
qed

lemma text_windows_passage:
  assumes "pre = [] \<or> lim < tok (last pre) \<or> ov \<le> token_sum tok (take m cur)" and "m \<le> length cur"
    and "list_all (\<lambda>p. \<not> lim < tok p) cur"
    and "length pre + m \<le> i" and "i < length (pre @ cur @ ps)" and "tok ((pre @ cur @ ps) ! i) \<le> lim"
  shows "\<exists>a b. passage tok lim ov (\<lambda>p. lim < tok p) (pre @ cur @ ps) i a b \<and>
    Paragraphs (slice a b (pre @ cur @ ps)) \<in> set (text_windows tok lim ov cur ps)"
  using assms
proof (induction ps arbitrary: pre cur m)
  case Nil
  then show ?case
    using passage_window [of pre "\<lambda>p. lim < tok p" ov tok m cur i "[]" lim] slice_mid [of pre cur "[]"]
    by (intro exI [of _ "length pre"] exI [of _ "length pre + length cur"]) auto
next
  case (Cons p ps)
  let ?w = "cur @ [p]"
  consider (large) "lim < tok p" | (full) "\<not> lim < tok p" "lim \<le> token_sum tok ?w"
    | (room) "\<not> lim < tok p" "\<not> lim \<le> token_sum tok ?w" by blast
  then show ?case
  proof cases
    case large
    show ?thesis
    proof (cases "i < length pre + length cur")
      case True
      moreover have "cur \<noteq> []" using True Cons.prems(4) by auto
      ultimately show ?thesis
        using passage_window [of pre "\<lambda>p. lim < tok p" ov tok m cur i "p # ps" lim] slice_mid [of pre cur "p # ps"]
          Cons.prems large
        by (intro exI [of _ "length pre"] exI [of _ "length pre + length cur"]) auto
    next
      case False
      moreover have "i \<noteq> length pre + length cur" using Cons.prems(6) large by (auto simp: nth_append)
      ultimately have "length ((pre @ cur @ [p]) @ [] @ ps) > i" "length (pre @ cur @ [p]) + 0 \<le> i"
        using Cons.prems(5) by simp_all
      then obtain a b where "passage tok lim ov (\<lambda>p. lim < tok p) (pre @ cur @ p # ps) i a b"
        and "Paragraphs (slice a b (pre @ cur @ p # ps)) \<in> set (text_windows tok lim ov [] ps)"
        using Cons.IH [of "pre @ cur @ [p]" 0 "[]"] Cons.prems(6) large by auto
      then show ?thesis using large by (intro exI [of _ a] exI [of _ b]) simp
    qed
  next
    case full
    have small: "list_all (\<lambda>p. \<not> lim < tok p) ?w" using Cons.prems(3) full(1) by simp
    show ?thesis
    proof (cases "i < length pre + length ?w")
      case inside: True
      have "pre = [] \<or> lim < tok (last pre) \<or> ov \<le> token_sum tok (take m ?w)" using Cons.prems(1,2) by simp
      then show ?thesis
        using passage_window [of pre "\<lambda>p. lim < tok p" ov tok m ?w i ps lim] slice_mid [of pre ?w ps] Cons.prems(4)
          inside small full
        by (intro exI [of _ "length pre"] exI [of _ "length pre + length ?w"]) (auto simp: Let_def)
    next
      case False
      obtain x where x: "?w = x @ overlap tok ov ?w" "x = [] \<or> ov \<le> token_sum tok (overlap tok ov ?w)"
        by (rule overlap_suffix)
      let ?kept = "overlap tok ov ?w"
      have "pre @ x = [] \<or> lim < tok (last (pre @ x)) \<or> ov \<le> token_sum tok (take (length ?kept) ?kept)"
      proof (cases "x = []")
        case True
        then have "?kept = ?w" using x(1) by simp
        then show ?thesis using Cons.prems(1) token_sum_take_mono [of m "length ?w" tok ?w] Cons.prems(2) True by auto
      qed (use x(2) in simp)
      moreover have all: "pre @ cur @ p # ps = (pre @ x) @ ?kept @ ps" using x(1) by simp
      moreover have "length (pre @ x) + length ?kept \<le> i"
        using False arg_cong [OF x(1), of length] by simp
      moreover have "i < length ((pre @ x) @ ?kept @ ps)" using Cons.prems(5) all by simp
      moreover have "list_all (\<lambda>p. \<not> lim < tok p) ?kept" using small overlap_subset [of tok ov ?w] by (auto simp: list_all_iff)
      moreover have "tok (((pre @ x) @ ?kept @ ps) ! i) \<le> lim" using Cons.prems(6) all by simp
      ultimately obtain a b where "passage tok lim ov (\<lambda>p. lim < tok p) ((pre @ x) @ ?kept @ ps) i a b"
        and "Paragraphs (slice a b ((pre @ x) @ ?kept @ ps)) \<in> set (text_windows tok lim ov ?kept ps)"
        using Cons.IH [of "pre @ x" "length ?kept" ?kept] by blast
      then show ?thesis using full unfolding all [symmetric] by (auto simp: Let_def)
    qed
  next
    case room
    have "pre = [] \<or> lim < tok (last pre) \<or> ov \<le> token_sum tok (take m ?w)" using Cons.prems(1,2) by simp
    then show ?thesis
      using Cons.IH [of pre m ?w] Cons.prems room by (auto simp: Let_def)
  qed
qed

lemma large_windows:
  "p \<in> set ps \<Longrightarrow> lim < tok p \<Longrightarrow> x \<in> set (windows tok lim ov [] (split_into_sentences p)) \<Longrightarrow>
     Sentences x \<in> set (text_windows tok lim ov cur ps)"
proof (induction ps arbitrary: cur)
  case (Cons q ps)
  then show ?case by (cases "p = q") (auto simp: Let_def)
qed simp

lemma windows_pieces: "w \<in> set (windows tok lim ov cur ps) \<Longrightarrow> set w \<subseteq> set cur \<union> set ps"
proof (induction ps arbitrary: cur)
  case (Cons q ps)
  then show ?case
    using Cons.IH [of "cur @ [q]"] Cons.IH [of "overlap tok ov (cur @ [q])"] overlap_subset [of tok ov "cur @ [q]"]
    by (fastforce simp: Let_def split: if_splits)
qed (auto split: if_splits)

text \<open>Where a window comes from.\<close>

definition window_of :: "(string \<Rightarrow> nat) \<Rightarrow> nat \<Rightarrow> nat \<Rightarrow> string set \<Rightarrow> piece_window \<Rightarrow> bool" where
  "window_of tok lim ov ps w \<longleftrightarrow> (case w of
     Paragraphs x \<Rightarrow> set x \<subseteq> ps \<and> (\<forall>p\<in>set x. tok p \<le> lim) \<and> token_sum tok x < ov + 2 * lim
   | Sentences x \<Rightarrow> \<exists>p\<in>ps. lim < tok p \<and> set x \<subseteq> set (split_into_sentences p))"

lemma windows_of_text:
  assumes "0 < lim" and "\<forall>p\<in>set cur. tok p \<le> lim" and "token_sum tok cur < ov + lim" and "w \<in> set (text_windows tok lim ov cur ps)"
  shows "window_of tok lim ov (set cur \<union> set ps) w"
  using assms(2-4)
proof (induction ps arbitrary: cur)
  case Nil
  then show ?case using assms(1) by (auto simp: window_of_def split: if_splits)
next
  case (Cons q ps)
  have mono: "window_of tok lim ov A w \<Longrightarrow> A \<subseteq> B \<Longrightarrow> window_of tok lim ov B w" for A B
    by (auto simp: window_of_def split: piece_window.splits)
  show ?case
  proof (cases "lim < tok q")
    case True
    then consider "cur \<noteq> []" "w = Paragraphs cur" | x where "w = Sentences x" "x \<in> set (windows tok lim ov [] (split_into_sentences q))"
      | "w \<in> set (text_windows tok lim ov [] ps)"
      using Cons.prems(3) by (auto split: if_splits)
    then show ?thesis
    proof cases
      case 1
      then show ?thesis using Cons.prems(1,2) assms(1) by (auto simp: window_of_def)
    next
      case (2 x)
      then show ?thesis using True windows_pieces [OF 2(2)] by (auto simp: window_of_def)
    next
      case 3
      then show ?thesis using Cons.IH [of "[]"] assms(1) by (auto intro: mono)
    qed
  next
    case small: False
    let ?w = "cur @ [q]" and ?kept = "overlap tok ov (cur @ [q])"
    have all: "\<forall>p\<in>set ?w. tok p \<le> lim" using Cons.prems(1) small by auto
    then have kept: "\<forall>p\<in>set ?kept. tok p \<le> lim" "token_sum tok ?kept < ov + lim"
      using overlap_subset [of tok ov ?w] overlap_bound [OF all assms(1)] by auto
    show ?thesis
    proof (cases "lim \<le> token_sum tok ?w")
      case True
      then consider "w = Paragraphs ?w" | "w \<in> set (text_windows tok lim ov ?kept ps)"
        using Cons.prems(3) small by (auto simp: Let_def)
      then show ?thesis
      proof cases
        case 1
        then show ?thesis using all Cons.prems(2) small by (auto simp: window_of_def)
      next
        case 2
        then show ?thesis
          using Cons.IH [OF kept] overlap_subset [of tok ov ?w] by (auto elim!: mono)
      qed
    next
      case False
      then show ?thesis
        using Cons.IH [OF all] Cons.prems(3) small by (auto simp: Let_def intro: mono)
    qed
  qed
qed

lemma numbered_chunk:
  "c \<in> set (numbered d idx w) \<Longrightarrow> tc_chunk_index c = idx \<and> tc_text c = window_text w \<and>
     tc_source_document_id c = sd_document_id d \<and> tc_source_url c = sd_url d \<and>
     tc_token_count c = tokens d (tc_text c) \<and> min_chunk_size_tokens \<le> tc_token_count c"
  by (cases w) (auto simp: numbered_def window_chunk_def make_chunk_def make_sentence_chunk_def new_chunk_def Let_def
      split: option.splits if_splits)

lemma numbered_length: "length (numbered d idx w) \<le> 1"
  by (simp add: numbered_def split: option.splits)

lemma number_indices: "map tc_chunk_index (number_chunks d idx ws) = [idx..<idx + length (number_chunks d idx ws)]"
proof (induction ws arbitrary: idx)
  case (Cons w ws)
  show ?case
  proof (cases "numbered d idx w")
    case Nil
    then show ?thesis using Cons by simp
  next
    case (Cons c cs)
    then have "cs = []" and "tc_chunk_index c = idx"
      using numbered_length [of d idx w] numbered_chunk [of c d idx w] by auto
    then show ?thesis using Cons Cons.IH [of "idx + 1"] by (simp add: upt_rec)
  qed
qed simp

lemma number_chunk_window:
  "c \<in> set (number_chunks d idx ws) \<Longrightarrow> \<exists>w\<in>set ws. tc_text c = window_text w \<and>
     tc_source_document_id c = sd_document_id d \<and> tc_source_url c = sd_url d \<and>
     tc_token_count c = tokens d (tc_text c) \<and> min_chunk_size_tokens \<le> tc_token_count c"
  by (induction ws arbitrary: idx) (auto dest: numbered_chunk)

lemma number_window_chunk:
  assumes "w \<in> set ws" and "w \<noteq> Paragraphs []" and "min_chunk_size_tokens \<le> tokens d (window_text w)"
  shows "\<exists>c\<in>set (number_chunks d idx ws). tc_text c = window_text w"
  using assms(1)
proof (induction ws arbitrary: idx)
  case (Cons v ws)
  have "\<exists>c. numbered d idx w = [c] \<and> tc_text c = window_text w"
    using assms(2,3) by (cases w) (auto simp: numbered_def window_chunk_def make_chunk_def make_sentence_chunk_def new_chunk_def Let_def)
  then show ?case using Cons by auto
qed simp

section \<open>Properties\<close>

text \<open>
  C32: chunking is windowing. The two nested loops of the code give the same chunks
  as the reference: the windows of the text, in order, without those that are too
  short, numbered from 0.
\<close>

theorem chunk_text_reference:
  "chunk_text tiktoken text document_id url lim ov =
     number_chunks (doc_of tiktoken text document_id url) 0 (document_windows tiktoken text lim ov)"
  by (rule chunk_text_windows)

text \<open>
  chunks are well formed. They are numbered 0, 1, 2 and so on in the order of
  the list, carry the document's id and address and the token count of their text,
  and none has fewer than fifty tokens.
\<close>

theorem chunks_well_formed:
  assumes "chunk_text tiktoken text document_id url lim ov = chunks"
  shows "map tc_chunk_index chunks = [0..<length chunks] \<and>
    (\<forall>c\<in>set chunks. tc_source_document_id c = document_id \<and> tc_source_url c = url \<and>
       tc_token_count c = count_tokens tiktoken (tc_text c) \<and> 50 \<le> tc_token_count c)"
proof -
  let ?d = "doc_of tiktoken text document_id url"
  have chunks: "chunks = number_chunks ?d 0 (document_windows tiktoken text lim ov)"
    using assms by (simp add: chunk_text_windows)
  have "tc_source_document_id c = document_id \<and> tc_source_url c = url \<and>
       tc_token_count c = count_tokens tiktoken (tc_text c) \<and> 50 \<le> tc_token_count c" if "c \<in> set chunks" for c
  proof -
    have "c \<in> set (number_chunks ?d 0 (document_windows tiktoken text lim ov))" using that chunks by simp
    then obtain w where "tc_source_document_id c = sd_document_id ?d \<and> tc_source_url c = sd_url ?d \<and>
        tc_token_count c = tokens ?d (tc_text c) \<and> min_chunk_size_tokens \<le> tc_token_count c"
      using number_chunk_window by blast
    then show ?thesis by (simp add: doc_of_def min_chunk_size_tokens_def)
  qed
  moreover have "map tc_chunk_index chunks = [0..<length chunks]"
    using number_indices [of ?d 0] by (simp add: chunks)
  ultimately show ?thesis by blast
qed

text \<open>
  C19: no long passage is lost. Every paragraph of the text that fits a chunk lies
  in a run of consecutive paragraphs that fit, which starts at the beginning of the
  text, after a paragraph that does not fit or at least the overlap before it, and
  ends at the end of the text, before a paragraph that does not fit or with enough
  tokens to fill a chunk; that run, joined, is the text of a chunk unless it has
  fewer than fifty tokens. The same holds of every sentence of a paragraph that does
  not fit, within its paragraph.
\<close>

theorem chunks_cover:
  assumes "strip text \<noteq> []" and "ps = split_into_paragraphs (normalise_whitespace text)" and "i < length ps"
    and "tok = count_tokens tiktoken"
    and "chunked = (\<lambda>content. content \<in> tc_text ` set (chunk_text tiktoken text document_id url lim ov) \<or> tok content < 50)"
  shows "if tok (ps ! i) \<le> lim
    then \<exists>a b. passage tok lim ov (\<lambda>p. lim < tok p) ps i a b \<and> chunked (join [newline, newline] (slice a b ps))
    else (let ss = split_into_sentences (ps ! i) in \<forall>j<length ss.
      \<exists>a b. passage tok lim ov (\<lambda>_. False) ss j a b \<and> chunked (join '' '' (slice a b ss)))"
proof -
  let ?d = "doc_of tiktoken text document_id url" and ?ws = "text_windows tok lim ov [] ps"
  have ws: "document_windows tiktoken text lim ov = ?ws" using assms(1,2,4) by (simp add: document_windows_def)
  have found: "chunked (window_text w)" if "w \<in> set ?ws" and "w \<noteq> Paragraphs []" for w
    using number_window_chunk [of w ?ws ?d 0] that assms(4)
    by (force simp: chunk_text_windows ws assms(5) min_chunk_size_tokens_def doc_of_def)
  show ?thesis
  proof (cases "tok (ps ! i) \<le> lim")
    case True
    then obtain a b where p: "passage tok lim ov (\<lambda>p. lim < tok p) ps i a b" and w: "Paragraphs (slice a b ps) \<in> set ?ws"
      using text_windows_passage [of "[]" lim tok ov 0 "[]" i ps] assms(3) by auto
    have "slice a b ps \<noteq> []" using p by (simp add: passage_def slice_def)
    then show ?thesis using True p found [OF w] by auto
  next
    case False
    have "\<exists>a b. passage tok lim ov (\<lambda>_. False) ss j a b \<and> chunked (join '' '' (slice a b ss))"
      if ss: "ss = split_into_sentences (ps ! i)" and j: "j < length ss" for ss j
    proof -
      obtain a b where p: "passage tok lim ov (\<lambda>_. False) ss j a b" and w: "slice a b ss \<in> set (windows tok lim ov [] ss)"
        using windows_passage [of "[]" ov tok 0 "[]" j ss lim] j by auto
      have "Sentences (slice a b ss) \<in> set ?ws"
        using large_windows [of "ps ! i" ps lim tok "slice a b ss" ov "[]"] w False assms(3) ss by simp
      then show ?thesis using p found [of "Sentences (slice a b ss)"] by auto
    qed
    then show ?thesis using False by (simp add: Let_def)
  qed
qed

text \<open>
  C37: chunks are bounded and made of the text only. A chunk joins paragraphs of the
  text that fit and have together fewer tokens than the overlap and twice the chunk
  size, or sentences of one paragraph that does not fit.
\<close>

theorem chunks_bounded:
  assumes "0 < lim" and "c \<in> set (chunk_text tiktoken text document_id url lim ov)"
  shows "(\<exists>w. tc_text c = join [newline, newline] w \<and> set w \<subseteq> set (split_into_paragraphs (normalise_whitespace text)) \<and>
      token_sum (count_tokens tiktoken) w < ov + 2 * lim) \<or>
    (\<exists>w. \<exists>p\<in>set (split_into_paragraphs (normalise_whitespace text)). lim < count_tokens tiktoken p \<and>
      tc_text c = join '' '' w \<and> set w \<subseteq> set (split_into_sentences p))"
proof -
  let ?ps = "split_into_paragraphs (normalise_whitespace text)"
  obtain w where w: "w \<in> set (document_windows tiktoken text lim ov)" and c: "tc_text c = window_text w"
    using assms(2) number_chunk_window by (fastforce simp: chunk_text_windows)
  then have "window_of (count_tokens tiktoken) lim ov (set ?ps) w"
    using windows_of_text [OF assms(1), of "[]" "count_tokens tiktoken" ov w ?ps] assms(1)
    by (auto simp: document_windows_def split: if_splits)
  then show ?thesis using c by (cases w) (auto simp: window_of_def)
qed

text \<open>
  The chunk size is not the maximum the documentation calls it: of two paragraphs
  that fill a chunk each, the second window holds both, and a last window repeats
  the second one.
\<close>

lemma chunk_size_exceeded:
  assumes "tok p = lim" and "tok q = lim" and "0 < ov" and "ov \<le> lim"
  shows "text_windows tok lim ov [] [p, q] = [Paragraphs [p], Paragraphs [p, q], Paragraphs [q]]"
  using assms by (simp add: Let_def overlap_def)

section \<open>Witnesses\<close>

text \<open>A tokeniser that counts characters, and a text of two paragraphs.\<close>

definition sample_text :: string where
  "sample_text = replicate 30 (CHR ''a'') @ [newline, newline] @ replicate 30 (CHR ''b'')"

lemma sample_paragraphs:
  "split_into_paragraphs (normalise_whitespace sample_text) = [replicate 30 (CHR ''a''), replicate 30 (CHR ''b'')]"
  "strip sample_text \<noteq> []"
  by code_simp+

theorem chunks_well_formed_witness:
  "map tc_chunk_index (chunk_text (Some length) sample_text ''RBI'' ''u'' 512 128) = [0] \<and>
   (\<forall>c\<in>set (chunk_text (Some length) sample_text ''RBI'' ''u'' 512 128). tc_source_url c = ''u'')"
proof -
  have "length (chunk_text (Some length) sample_text ''RBI'' ''u'' 512 128) = 1" by code_simp
  then show ?thesis using chunks_well_formed [OF refl, of "Some length" sample_text "''RBI''" "''u''" 512 128] by simp
qed

theorem chunks_cover_witness:
  "\<exists>a b. a \<le> 1 \<and> 1 < b \<and> (join [newline, newline] (slice a b [replicate 30 (CHR ''a''), replicate 30 (CHR ''b'')])
       \<in> tc_text ` set (chunk_text (Some length) sample_text ''RBI'' ''u'' 512 128) \<or>
     length (join [newline, newline] (slice a b [replicate 30 (CHR ''a''), replicate 30 (CHR ''b'')])) < 50)"
  using chunks_cover [OF sample_paragraphs(2) sample_paragraphs(1) [symmetric], of 1 "count_tokens (Some length)" "Some length" _ "''RBI''" "''u''" 512 128]
  by (auto simp: count_tokens_def passage_def)

theorem chunks_bounded_witness:
  "\<exists>c w. c \<in> set (chunk_text (Some length) sample_text ''RBI'' ''u'' 512 128) \<and> tc_text c = join [newline, newline] w \<and>
     set w \<subseteq> {replicate 30 (CHR ''a''), replicate 30 (CHR ''b'')} \<and> token_sum length w < 1152"
proof -
  have "chunk_text (Some length) sample_text ''RBI'' ''u'' 512 128 \<noteq> []" by code_simp
  then obtain c where c: "c \<in> set (chunk_text (Some length) sample_text ''RBI'' ''u'' 512 128)" by (meson last_in_set)
  have "count_tokens (Some length) = length" by (rule ext) (simp add: count_tokens_def)
  then show ?thesis
    using chunks_bounded [OF _ c] c by (auto simp: sample_paragraphs(1))
qed

end
