(* ===== verification/Retrieval.thy ===== *)
theory Retrieval
  imports Chunker Json "HOL-Library.AList" Complex_Main
begin

text \<open>
  \<open>retrieval/embedder.py\<close>, \<open>retrieval/index_manager.py\<close> and
  \<open>retrieval/retriever.py\<close>: the index of chunks, its directories and their swap, and
  queries. The embedding model and the FAISS search are parameters; an index is
  the list of its vectors, a score a rational. What is kept of a directory is its
  two files, the ID map as the JSON value written to it; a build writes them one
  after the other, and can be stopped before, in and between the two writes. Timing
  and log lines are left out.
\<close>

section \<open>Embedding\<close>

record 'v faiss =
  fx_available :: bool
  fx_embed :: "string \<Rightarrow> 'v"
  fx_zero :: 'v
  fx_search :: "'v list \<Rightarrow> 'v \<Rightarrow> nat \<Rightarrow> (rat \<times> int) list"

definition embed :: "'v faiss \<Rightarrow> string \<Rightarrow> 'v result" where
  "embed fx text =
     (if strip text = [] then Raise (ValueError ''Cannot embed empty text.'') else Ok (fx_embed fx text))"

text \<open>The vectors of the texts that are not blank, with zero vectors put in at the others.\<close>

definition batch_embed :: "'v faiss \<Rightarrow> string list \<Rightarrow> 'v list result" where
  "batch_embed fx texts =
     (if texts = [] then Raise (ValueError ''Cannot embed empty text list.'')
      else if filter (\<lambda>t. strip t \<noteq> []) texts = [] then Raise (ValueError ''All texts in the list are empty.'')
      else Ok (map (\<lambda>t. if strip t = [] then fx_zero fx else fx_embed fx t) texts))"

section \<open>Index directories\<close>

datatype index_name = Active | Staging | Backup

text \<open>A file whose writing was stopped is cut off; reading it raises.\<close>

datatype 'a disk_file = Torn | Written 'a

record 'v index_dir =
  ix_index :: "'v list disk_file option"
  ix_id_map :: "pyval disk_file option"

record 'v manager =
  im_index :: "'v list option"
  im_id_map :: "(int \<times> pyval) list"
  im_loaded_from :: "index_name option"

record 'v index_state =
  xs_dirs :: "index_name \<Rightarrow> 'v index_dir option"
  xs_manager :: "'v manager"
  xs_signals :: nat

definition import_error :: exn where
  "import_error = OtherExn ''ImportError'' ''faiss-cpu is required.''"

definition file_not_found :: "string \<Rightarrow> exn" where
  "file_not_found m = OtherExn ''FileNotFoundError'' m"

fun int_keys :: "(string \<times> pyval) list \<Rightarrow> (int \<times> pyval) list \<Rightarrow> (int \<times> pyval) list result" where
  "int_keys [] m = Ok m"
| "int_keys ((k, v) # kvs) m = rbind (py_int k) (\<lambda>i. int_keys kvs (AList.update i v m))"

definition read_id_map :: "pyval \<Rightarrow> (int \<times> pyval) list result" where
  "read_id_map j = (case j of PDict kvs \<Rightarrow> int_keys kvs [] | _ \<Rightarrow> Raise (AttributeError ''object has no attribute items''))"

text \<open>What \<open>load\<close> reads; the manager is changed only when all of it succeeded.\<close>

definition read_dir :: "'v faiss \<Rightarrow> 'v index_dir option \<Rightarrow> ('v list \<times> (int \<times> pyval) list) result" where
  "read_dir fx dir =
     (if \<not> fx_available fx then Raise import_error
      else case (case dir of None \<Rightarrow> None | Some d \<Rightarrow> ix_index d) of
        None \<Rightarrow> Raise (file_not_found ''FAISS index not found'')
      | Some index_file \<Rightarrow>
          (case (case dir of None \<Rightarrow> None | Some d \<Rightarrow> ix_id_map d) of
             None \<Rightarrow> Raise (file_not_found ''ID map not found'')
           | Some map_file \<Rightarrow>
               (case index_file of
                  Torn \<Rightarrow> Raise (RuntimeError ''read error'')
                | Written index \<Rightarrow>
                    (case map_file of
                       Torn \<Rightarrow> Raise json_error
                     | Written j \<Rightarrow> rbind (read_id_map j) (\<lambda>m. Ok (index, m))))))"

definition load :: "'v faiss \<Rightarrow> index_name \<Rightarrow> ('v index_state, unit) step" where
  "load fx n s =
     (case read_dir fx (xs_dirs s n) of
        Inl e \<Rightarrow> (Raise e, s)
      | Inr (index, m) \<Rightarrow>
          (Ok (), s\<lparr>xs_manager := \<lparr>im_index = Some index, im_id_map = m, im_loaded_from = Some n\<rparr>\<rparr>))"

definition is_loaded :: "'v manager \<Rightarrow> bool" where
  "is_loaded m \<longleftrightarrow> im_index m \<noteq> None"

section \<open>Building\<close>

definition to_metadata_dict :: "text_chunk \<Rightarrow> pyval" where
  "to_metadata_dict c = PDict
     [(''chunk_index'', PInt (int (tc_chunk_index c))), (''source_document_id'', PStr (tc_source_document_id c)),
      (''source_url'', PStr (tc_source_url c)), (''section_hint'', PStr (tc_section_hint c)),
      (''char_start'', PInt (int (tc_char_start c))), (''char_end'', PInt (int (tc_char_end c))),
      (''token_count'', PInt (int (tc_token_count c)))]"

text \<open>The keys of the ID map are the positions 0, 1, 2 and so on, so each entry is new.\<close>

function add_batches :: "'v faiss \<Rightarrow> nat \<Rightarrow> text_chunk list \<Rightarrow> 'v list \<times> (nat \<times> pyval) list \<Rightarrow> ('v list \<times> (nat \<times> pyval) list) result" where
  "add_batches fx batch_start chunks (index, id_map) =
     (if chunks = [] then Ok (index, id_map)
      else
        let batch = take 256 chunks in
        rbind (batch_embed fx (map tc_text batch)) (\<lambda>vectors.
          add_batches fx (batch_start + 256) (drop 256 chunks)
            (index @ vectors, id_map @ enumerate batch_start (map to_metadata_dict batch))))"
  by pat_completeness auto
termination
  by (relation "measure (\<lambda>(_, _, chunks, _). length chunks)") auto

declare add_batches.simps [simp del]

definition new_dir :: "'v index_dir" where
  "new_dir = \<lparr>ix_index = None, ix_id_map = None\<rparr>"

text \<open>
  What can fail in a build besides the embedding: making the directory, and for each
  of the two files opening it (which empties it) and writing it.
\<close>

datatype build_op = Make_Dir | Open_Index | Write_Index | Open_Map | Write_Map

definition write_file ::
  "(build_op \<Rightarrow> exn option) \<Rightarrow> build_op \<Rightarrow> build_op \<Rightarrow> index_name \<Rightarrow>
     ('v index_dir \<Rightarrow> 'v index_dir) \<Rightarrow> ('v index_dir \<Rightarrow> 'v index_dir) \<Rightarrow> ('v index_state, unit) step" where
  "write_file fault opening writing target cut_off written s =
     (let change = (\<lambda>f. s\<lparr>xs_dirs := (xs_dirs s)(target := map_option f (xs_dirs s target))\<rparr>) in
      case fault opening of
        Some e \<Rightarrow> (Raise e, s)
      | None \<Rightarrow> (case fault writing of
          Some e \<Rightarrow> (Raise e, change cut_off)
        | None \<Rightarrow> (Ok (), change written)))"

definition make_dir :: "(build_op \<Rightarrow> exn option) \<Rightarrow> index_name \<Rightarrow> ('v index_state, unit) step" where
  "make_dir fault target s =
     (case fault Make_Dir of
        Some e \<Rightarrow> (Raise e, s)
      | None \<Rightarrow> (Ok (), s\<lparr>xs_dirs := (xs_dirs s)(target :=
          Some (case xs_dirs s target of None \<Rightarrow> new_dir | Some d \<Rightarrow> d))\<rparr>))"

definition id_map_json :: "(nat \<times> pyval) list \<Rightarrow> pyval" where
  "id_map_json id_map = PDict (map (\<lambda>(k, v). (nat_str k, v)) id_map)"

definition build ::
  "'v faiss \<Rightarrow> (build_op \<Rightarrow> exn option) \<Rightarrow> text_chunk list \<Rightarrow> index_name \<Rightarrow> ('v index_state, nat) step" where
  "build fx fault chunks target =
     (if \<not> fx_available fx then sraise import_error
      else if chunks = [] then sraise (ValueError ''Cannot build index from empty chunk list.'')
      else
        sbind (make_dir fault target) (\<lambda>_.
        sbind (slift (add_batches fx 0 chunks ([], []))) (\<lambda>(index, id_map).
        sbind (write_file fault Open_Index Write_Index target
          (\<lambda>d. d\<lparr>ix_index := Some Torn\<rparr>) (\<lambda>d. d\<lparr>ix_index := Some (Written index)\<rparr>)) (\<lambda>_.
        sbind (write_file fault Open_Map Write_Map target
          (\<lambda>d. d\<lparr>ix_id_map := Some Torn\<rparr>) (\<lambda>d. d\<lparr>ix_id_map := Some (Written (id_map_json id_map))\<rparr>)) (\<lambda>_.
        sret (length index))))))"

section \<open>Queries\<close>

record retrieved_chunk =
  rc_text :: pyval
  rc_score :: rat
  rc_source_document_id :: pyval
  rc_source_url :: pyval
  rc_section_hint :: pyval
  rc_chunk_index :: int
  rc_token_count :: int
  rc_faiss_id :: int

text \<open>\<open>int(v)\<close>, of a float without an exponent.\<close>

fun to_int :: "pyval \<Rightarrow> int result" where
  "to_int (PInt i) = Ok i"
| "to_int (PBool b) = Ok (if b then 1 else 0)"
| "to_int (PFloat t) = py_int (takeWhile (\<lambda>c. c \<noteq> CHR ''.'') t)"
| "to_int (PStr s) = py_int s"
| "to_int v = Raise (TypeError ''int() argument must be a string, a bytes-like object or a real number'')"

definition meta_get :: "string \<Rightarrow> pyval \<Rightarrow> pyval \<Rightarrow> pyval result" where
  "meta_get k dflt md = (case md of
     PDict kvs \<Rightarrow> Ok (case dict_get k kvs of Some v \<Rightarrow> v | None \<Rightarrow> dflt)
   | _ \<Rightarrow> Raise (AttributeError ''object has no attribute get''))"

definition retrieved :: "(int \<times> pyval) list \<Rightarrow> rat \<Rightarrow> int \<Rightarrow> retrieved_chunk result" where
  "retrieved id_map score fid =
     (let md = (case map_of id_map fid of Some v \<Rightarrow> v | None \<Rightarrow> PDict []) in
      rbind (meta_get ''text'' (PStr []) md) (\<lambda>text.
      rbind (meta_get ''source_document_id'' (PStr ''unknown'') md) (\<lambda>doc.
      rbind (meta_get ''source_url'' (PStr []) md) (\<lambda>url.
      rbind (meta_get ''section_hint'' (PStr []) md) (\<lambda>hint.
      rbind (rbind (meta_get ''chunk_index'' (PInt 0) md) to_int) (\<lambda>chunk_index.
      rbind (rbind (meta_get ''token_count'' (PInt 0) md) to_int) (\<lambda>token_count.
      Ok \<lparr>rc_text = text, rc_score = score, rc_source_document_id = doc, rc_source_url = url, rc_section_hint = hint,
          rc_chunk_index = chunk_index, rc_token_count = token_count, rc_faiss_id = fid\<rparr>)))))))"

fun collect_results :: "(int \<times> pyval) list \<Rightarrow> rat \<Rightarrow> (rat \<times> int) list \<Rightarrow> retrieved_chunk list result" where
  "collect_results id_map min_score [] = Ok []"
| "collect_results id_map min_score ((score, fid) # hits) =
     (if fid = - 1 \<or> score < min_score then collect_results id_map min_score hits
      else rbind (retrieved id_map score fid) (\<lambda>c. rbind (collect_results id_map min_score hits) (\<lambda>cs. Ok (c # cs))))"

definition query_index :: "'v faiss \<Rightarrow> rat \<Rightarrow> string \<Rightarrow> nat \<Rightarrow> 'v manager \<Rightarrow> retrieved_chunk list result" where
  "query_index fx min_score_threshold query_text top_k m =
     (if strip query_text = [] then Raise (ValueError ''Query text cannot be empty.'')
      else case im_index m of
        None \<Rightarrow> Raise (RuntimeError ''FAISS index is not loaded. Call IndexManager.load() before querying.'')
      | Some index \<Rightarrow>
          rbind (embed fx query_text) (\<lambda>v. collect_results (im_id_map m) min_score_threshold (fx_search fx index v top_k)))"

section \<open>Queries from findings\<close>

text \<open>A finding of an agent; a missing key is the empty text its \<open>get\<close> gives.\<close>

record finding =
  fi_severity :: string
  fi_finding_code :: string
  fi_message :: string

definition purpose_map :: "(string \<times> string) list" where
  "purpose_map = [(''PERSONAL_UNSECURED'', ''unsecured personal loan''), (''HOME_SECURED'', ''housing loan secured''),
     (''VEHICLE_SECURED'', ''vehicle loan secured''), (''BUSINESS_UNSECURED'', ''business loan unsecured''),
     (''MICROFINANCE'', ''microfinance loan'')]"

definition purpose_text :: "string \<Rightarrow> string" where
  "purpose_text loan_purpose = (case map_of purpose_map loan_purpose of
     Some t \<Rightarrow> t | None \<Rightarrow> replace_str ''_'' '' '' 0 (lower loan_purpose))"

definition finding_concept :: "finding \<Rightarrow> string" where
  "finding_concept f =
     (let code = fi_finding_code f; message = fi_message f in
      if contains ''FOIR'' code \<or> contains ''FOIR'' message then ''FOIR fixed obligation income ratio limit''
      else if contains ''KYC'' code \<or> contains ''DOCUMENT'' code then ''KYC documentation requirements OVD validity''
      else if contains ''SANCTIONS'' code \<or> contains ''WATCHLIST'' code
      then ''sanctions screening watchlist PMLA requirements''
      else if contains ''TEMPORAL'' code \<or> contains ''EXPIRY'' code
      then ''KYC validity period update interval requirements''
      else if contains ''LTV'' code then ''loan to value ratio secured loans''
      else if contains ''NTH'' code then ''net take home income repayment capacity''
      else if message \<noteq> [] then take 100 message else code)"

definition build_query_from_findings :: "finding list \<Rightarrow> string \<Rightarrow> string" where
  "build_query_from_findings findings loan_purpose =
     (let relevant = filter (\<lambda>f. fi_severity f \<in> {''FAIL'', ''WARN''}) findings in
      if relevant = []
      then ''RBI NBFC '' @ purpose_text loan_purpose @ '' compliance requirements '' @
        ''KYC documentation income proof approval criteria''
      else ''RBI NBFC '' @ purpose_text loan_purpose @ '' regulations: '' @
        join ''. '' (map finding_concept (take 3 relevant)) @ ''. What do the RBI guidelines require?'')"

definition query_with_context :: "'v faiss \<Rightarrow> rat \<Rightarrow> finding list \<Rightarrow> string \<Rightarrow> nat \<Rightarrow> 'v manager \<Rightarrow> retrieved_chunk list result" where
  "query_with_context fx min_score findings loan_purpose top_k m =
     query_index fx min_score (build_query_from_findings findings loan_purpose) top_k m"

section \<open>Health check\<close>

text \<open>
  The golden test set: the query and the expected document of each item, or None
  when there is no file. Nine tenths have to pass; no items count as none passed.
\<close>

definition item_passes :: "'v faiss \<Rightarrow> 'v manager \<Rightarrow> string \<times> string \<Rightarrow> bool" where
  "item_passes fx m = (\<lambda>(q, expected). case query_index fx 0 q 1 m of
     Inr (r # _) \<Rightarrow> rc_source_document_id r = PStr expected
   | _ \<Rightarrow> False)"

definition healthy_rate :: "nat \<Rightarrow> nat \<Rightarrow> bool" where
  "healthy_rate passed n \<longleftrightarrow> 0 < n \<and> 9 * n \<le> 10 * passed"

definition health_check :: "'v faiss \<Rightarrow> (string \<times> string) list option \<Rightarrow> 'v index_dir option \<Rightarrow> bool result" where
  "health_check fx test_set check_dir =
     (case test_set of
        None \<Rightarrow> Ok True
      | Some items \<Rightarrow>
          (case read_dir fx check_dir of
             Inl (OtherExn cls m) \<Rightarrow> if cls = ''FileNotFoundError'' then Ok False else Raise (OtherExn cls m)
           | Inl e \<Rightarrow> Raise e
           | Inr (index, id_map) \<Rightarrow>
               let m = \<lparr>im_index = Some index, im_id_map = id_map, im_loaded_from = Some Staging\<rparr> in
               Ok (healthy_rate (length (filter (item_passes fx m) items)) (length items))))"

section \<open>Swapping\<close>

text \<open>What can fail in a swap: the removal, the two renames, and (without effect) the signal.\<close>

datatype swap_op = Remove_Backup | Rename_Active | Rename_Staging | Publish

definition swap_dir :: "(swap_op \<Rightarrow> exn option) \<Rightarrow> swap_op \<Rightarrow> ((index_name \<Rightarrow> 'v index_dir option) \<Rightarrow> (index_name \<Rightarrow> 'v index_dir option)) \<Rightarrow>
    ('v index_state, unit) step" where
  "swap_dir fault oper f s = (case fault oper of Some e \<Rightarrow> (Raise e, s) | None \<Rightarrow> (Ok (), s\<lparr>xs_dirs := f (xs_dirs s)\<rparr>))"

definition publish_reload_signal :: "(swap_op \<Rightarrow> exn option) \<Rightarrow> ('v index_state, unit) step" where
  "publish_reload_signal fault s =
     (case fault Publish of Some _ \<Rightarrow> (Ok (), s) | None \<Rightarrow> (Ok (), s\<lparr>xs_signals := xs_signals s + 1\<rparr>))"

definition backup_active :: "(swap_op \<Rightarrow> exn option) \<Rightarrow> ('v index_state, unit) step" where
  "backup_active fault =
     sbind (\<lambda>s. if xs_dirs s Backup \<noteq> None then swap_dir fault Remove_Backup (\<lambda>ds. ds(Backup := None)) s else (Ok (), s)) (\<lambda>_ s.
       if xs_dirs s Active \<noteq> None
       then swap_dir fault Rename_Active (\<lambda>ds. ds(Backup := ds Active, Active := None)) s else (Ok (), s))"

definition promote_staging :: "'v faiss \<Rightarrow> (swap_op \<Rightarrow> exn option) \<Rightarrow> ('v index_state, unit) step" where
  "promote_staging fx fault =
     sbind (swap_dir fault Rename_Staging (\<lambda>ds. ds(Active := ds Staging, Staging := None))) (\<lambda>_.
     sbind (load fx Active) (\<lambda>_.
     publish_reload_signal fault))"

definition swap_steps :: "'v faiss \<Rightarrow> (swap_op \<Rightarrow> exn option) \<Rightarrow> ('v index_state, unit) step" where
  "swap_steps fx fault = sbind (backup_active fault) (\<lambda>_. promote_staging fx fault)"

definition safe_swap ::
  "'v faiss \<Rightarrow> (string \<times> string) list option \<Rightarrow> (swap_op \<Rightarrow> exn option) \<Rightarrow> bool \<Rightarrow> ('v index_state, bool) step" where
  "safe_swap fx test_set fault skip_health_check s =
     (if (case xs_dirs s Staging of None \<Rightarrow> True | Some d \<Rightarrow> ix_index d = None) then (Ok False, s)
      else
        sbind (slift (if skip_health_check then Ok True else health_check fx test_set (xs_dirs s Staging))) (\<lambda>healthy.
          if \<not> healthy then sret False
          else sbind (swap_steps fx fault) (\<lambda>_. sret True)) s)"

definition get_index_stats :: "'v index_state \<Rightarrow> (nat \<times> nat \<times> index_name option \<times> bool \<times> bool \<times> bool) option" where
  "get_index_stats s = (case im_index (xs_manager s) of
     None \<Rightarrow> None
   | Some index \<Rightarrow> Some (length index, length (im_id_map (xs_manager s)), im_loaded_from (xs_manager s),
       xs_dirs s Active \<noteq> None, xs_dirs s Staging \<noteq> None, xs_dirs s Backup \<noteq> None))"

section \<open>Reading back what was built\<close>

lemma update_fresh: "k \<notin> fst ` set m \<Longrightarrow> AList.update k v m = m @ [(k, v)]"
  by (induction m) auto

lemma int_keys_enumerate:
  "fst ` set m \<subseteq> {..<int n} \<Longrightarrow>
     int_keys (map (\<lambda>(k, v). (nat_str k, v)) (enumerate n vs)) m = Ok (m @ map (\<lambda>(k, v). (int k, v)) (enumerate n vs))"
proof (induction vs arbitrary: m n)
  case (Cons v vs)
  have "int n \<notin> fst ` set m" using Cons.prems by auto
  then have "AList.update (int n) v m = m @ [(int n, v)]" by (rule update_fresh)
  moreover have "fst ` set (m @ [(int n, v)]) \<subseteq> {..<int (Suc n)}" using Cons.prems by auto
  ultimately show ?case using Cons.IH [of "m @ [(int n, v)]" "Suc n"] by simp
qed simp

text \<open>The metadata of chunks, as the ID map in memory and as the JSON value of its file.\<close>

definition cites :: "text_chunk list \<Rightarrow> (int \<times> pyval) list" where
  "cites chunks = map (\<lambda>(k, v). (int k, v)) (enumerate 0 (map to_metadata_dict chunks))"

definition cites_json :: "text_chunk list \<Rightarrow> pyval" where
  "cites_json chunks = id_map_json (enumerate 0 (map to_metadata_dict chunks))"

lemma read_cites_json: "read_id_map (cites_json chunks) = Ok (cites chunks)"
  using int_keys_enumerate [of "[]" 0 "map to_metadata_dict chunks"]
  by (simp add: cites_json_def id_map_json_def read_id_map_def cites_def)

lemma map_of_enumerate: "i < length mds \<Longrightarrow> map_of (map (\<lambda>(k, v). (int k, v)) (enumerate n mds)) (int (n + i)) = Some (mds ! i)"
proof (induction mds arbitrary: n i)
  case (Cons m mds)
  show ?case
  proof (cases i)
    case (Suc j)
    then show ?thesis using Cons.IH [of j "Suc n"] Cons.prems by simp
  qed simp
qed simp

definition vectors_of :: "'v faiss \<Rightarrow> text_chunk list \<Rightarrow> 'v list" where
  "vectors_of fx chunks = map (\<lambda>c. if strip (tc_text c) = [] then fx_zero fx else fx_embed fx (tc_text c)) chunks"

lemma add_batches_run:
  assumes "add_batches fx n chunks (index, m) = Ok r"
  shows "r = (index @ vectors_of fx chunks, m @ enumerate n (map to_metadata_dict chunks))"
  using assms
proof (induction "length chunks" arbitrary: n chunks index m rule: less_induct)
  case less
  show ?case
  proof (cases "chunks = []")
    case True
    then show ?thesis using less.prems by (simp add: add_batches.simps vectors_of_def)
  next
    case False
    let ?batch = "take 256 chunks"
    obtain vs where vs: "batch_embed fx (map tc_text ?batch) = Ok vs"
      and rest: "add_batches fx (n + 256) (drop 256 chunks) (index @ vs, m @ enumerate n (map to_metadata_dict ?batch)) = Ok r"
      using less.prems False by (subst (asm) add_batches.simps) (auto simp: Let_def rbind_Inr_iff)
    have "vs = vectors_of fx ?batch"
      using vs by (auto simp: batch_embed_def vectors_of_def split: if_splits)
    moreover have "vectors_of fx ?batch @ vectors_of fx (drop 256 chunks) = vectors_of fx chunks"
      by (simp add: vectors_of_def map_append [symmetric] del: map_append)
    moreover have "enumerate n (map to_metadata_dict ?batch) @ enumerate (n + 256) (map to_metadata_dict (drop 256 chunks)) =
        enumerate n (map to_metadata_dict chunks)"
    proof (cases "256 \<le> length chunks")
      case True
      then have "enumerate n (map to_metadata_dict ?batch @ map to_metadata_dict (drop 256 chunks)) =
          enumerate n (map to_metadata_dict ?batch) @ enumerate (n + 256) (map to_metadata_dict (drop 256 chunks))"
        by (simp add: enumerate_append_eq)
      then show ?thesis by (simp only: map_append [symmetric] append_take_drop_id)
    qed simp
    ultimately show ?thesis
      using less.hyps [OF _ rest] False by simp
  qed
qed

lemma map_of_cites:
  "map_of (cites chunks) i = (if 0 \<le> i \<and> i < int (length chunks) then Some (to_metadata_dict (chunks ! nat i)) else None)"
proof (cases "0 \<le> i \<and> i < int (length chunks)")
  case True
  then have i: "nat i < length (map to_metadata_dict chunks)" by (simp add: nat_less_iff)
  show ?thesis
    using map_of_enumerate [OF i, of 0] i True unfolding cites_def by simp
next
  case False
  have "fst ` set (cites chunks) \<subseteq> {0..<int (length chunks)}"
    by (auto simp: cites_def in_set_enumerate_eq)
  then have "map_of (cites chunks) i = None" using False by (auto simp: map_of_eq_None_iff)
  then show ?thesis using False by auto
qed

text \<open>The directory a build works on, and what the build can leave of it.\<close>

definition made_dir :: "'v index_dir option \<Rightarrow> 'v index_dir" where
  "made_dir d = (case d of None \<Rightarrow> new_dir | Some d \<Rightarrow> d)"

lemma build_cases:
  assumes "build fx fault chunks target s = (r, s')" and "made = made_dir (xs_dirs s target)"
  obtains (idle) e where "r = Raise e" and "s' = s"
  | (empty) e where "r = Raise e" and "s' = s\<lparr>xs_dirs := (xs_dirs s)(target := Some made)\<rparr>"
  | (index_torn) e where "r = Raise e" and "s' = s\<lparr>xs_dirs := (xs_dirs s)(target := Some (made\<lparr>ix_index := Some Torn\<rparr>))\<rparr>"
  | (map_old) e where "r = Raise e" and "fault Open_Map = Some e"
      and "s' = s\<lparr>xs_dirs := (xs_dirs s)(target := Some (made\<lparr>ix_index := Some (Written (vectors_of fx chunks))\<rparr>))\<rparr>"
  | (map_torn) e where "r = Raise e"
      and "s' = s\<lparr>xs_dirs := (xs_dirs s)(target := Some \<lparr>ix_index = Some (Written (vectors_of fx chunks)), ix_id_map = Some Torn\<rparr>)\<rparr>"
  | (built) "r = Ok (length chunks)" and "fx_available fx"
      and "s' = s\<lparr>xs_dirs := (xs_dirs s)(target := Some \<lparr>ix_index = Some (Written (vectors_of fx chunks)),
        ix_id_map = Some (Written (cites_json chunks))\<rparr>)\<rparr>"
proof (cases "fx_available fx \<and> chunks \<noteq> [] \<and> fault Make_Dir = None")
  case False
  then obtain e where "r = Raise e" and "s' = s"
    using assms by (auto simp: build_def sraise_def sbind_def make_dir_def split: if_splits option.splits)
  then show ?thesis by (rule idle)
next
  case True
  let ?s = "\<lambda>d. s\<lparr>xs_dirs := (xs_dirs s)(target := Some d)\<rparr>"
  have run: "(r, s') = sbind (slift (add_batches fx 0 chunks ([], []))) (\<lambda>(index, id_map).
      sbind (write_file fault Open_Index Write_Index target
        (\<lambda>d. d\<lparr>ix_index := Some Torn\<rparr>) (\<lambda>d. d\<lparr>ix_index := Some (Written index)\<rparr>)) (\<lambda>_.
      sbind (write_file fault Open_Map Write_Map target
        (\<lambda>d. d\<lparr>ix_id_map := Some Torn\<rparr>) (\<lambda>d. d\<lparr>ix_id_map := Some (Written (id_map_json id_map))\<rparr>)) (\<lambda>_.
      sret (length index)))) (?s made)"
    using True assms by (simp add: build_def sbind_def [of "make_dir fault target"] make_dir_def made_dir_def)
  show ?thesis
  proof (cases "add_batches fx 0 chunks ([], [])")
    case (Inl e)
    then show ?thesis using run by (intro empty) (simp_all add: sbind_def slift_def)
  next
    case (Inr im)
    have im: "im = (vectors_of fx chunks, enumerate 0 (map to_metadata_dict chunks))"
      using add_batches_run [OF Inr] by simp
    have len: "length (vectors_of fx chunks) = length chunks" by (simp add: vectors_of_def)
    show ?thesis
    proof -
      have whole: "made\<lparr>ix_index := i, ix_id_map := m\<rparr> = \<lparr>ix_index = i, ix_id_map = m\<rparr>" for i m
        by (cases made) simp
      note simps = Inr im len whole sbind_def slift_def sret_def write_file_def cites_json_def
      consider e where "fault Open_Index = Some e"
        | e where "fault Open_Index = None" "fault Write_Index = Some e"
        | e where "fault Open_Index = None" "fault Write_Index = None" "fault Open_Map = Some e"
        | e where "fault Open_Index = None" "fault Write_Index = None" "fault Open_Map = None" "fault Write_Map = Some e"
        | "fault Open_Index = None" "fault Write_Index = None" "fault Open_Map = None" "fault Write_Map = None"
        by blast
      then show ?thesis
      proof cases
        case 1
        then show ?thesis using run by (intro empty) (simp_all add: simps)
      next
        case 2
        then show ?thesis using run by (intro index_torn) (simp_all add: simps)
      next
        case 3
        then show ?thesis using run by (intro map_old) (simp_all add: simps)
      next
        case 4
        then show ?thesis using run by (intro map_torn) (simp_all add: simps)
      next
        case 5
        then show ?thesis using run True by (intro built) (simp_all add: simps)
      qed
    qed
  qed
qed

section \<open>The invariant\<close>

text \<open>
  Whole files hold what a build wrote, of some chunks. They are of the same chunks
  unless builds may stop between the two files (\<open>stops\<close>).
\<close>

definition dir_ok :: "'v faiss \<Rightarrow> bool \<Rightarrow> 'v index_dir \<Rightarrow> bool" where
  "dir_ok fx stops d \<longleftrightarrow>
     (\<forall>vs. ix_index d = Some (Written vs) \<longrightarrow> vs \<in> range (vectors_of fx)) \<and>
     (\<forall>j. ix_id_map d = Some (Written j) \<longrightarrow> j \<in> range cites_json) \<and>
     (stops \<or> (\<forall>vs j. ix_index d = Some (Written vs) \<and> ix_id_map d = Some (Written j) \<longrightarrow>
        (vs, j) \<in> range (\<lambda>chunks. (vectors_of fx chunks, cites_json chunks))))"

definition manager_ok :: "'v faiss \<Rightarrow> bool \<Rightarrow> 'v manager \<Rightarrow> bool" where
  "manager_ok fx stops m \<longleftrightarrow> (\<forall>vs. im_index m = Some vs \<longrightarrow>
     (\<exists>chunks cited. vs = vectors_of fx chunks \<and> im_id_map m = cites cited \<and> (stops \<or> cited = chunks)))"

definition index_ok :: "'v faiss \<Rightarrow> bool \<Rightarrow> 'v index_state \<Rightarrow> bool" where
  "index_ok fx stops s \<longleftrightarrow> (\<forall>n d. xs_dirs s n = Some d \<longrightarrow> dir_ok fx stops d) \<and> manager_ok fx stops (xs_manager s)"

text \<open>What the processes do with the index: build a staging index, swap, and load.\<close>

inductive index_step :: "'v faiss \<Rightarrow> bool \<Rightarrow> 'v index_state \<Rightarrow> 'v index_state \<Rightarrow> bool" for fx stops where
  build_staging: "build fx fault chunks Staging s = (r, s') \<Longrightarrow> stops \<or> fault Open_Map = None \<Longrightarrow> index_step fx stops s s'"
| swap: "safe_swap fx test_set fault skip s = (r, s') \<Longrightarrow> index_step fx stops s s'"
| reload: "load fx n s = (r, s') \<Longrightarrow> index_step fx stops s s'"

lemma load_run:
  assumes "load fx n s = (r, s')"
  shows "xs_dirs s' = xs_dirs s"
    and "(case r of Inl _ \<Rightarrow> s' = s
      | Inr _ \<Rightarrow> \<exists>d vs j m. xs_dirs s n = Some d \<and> ix_index d = Some (Written vs) \<and> ix_id_map d = Some (Written j) \<and>
          read_id_map j = Ok m \<and> xs_manager s' = \<lparr>im_index = Some vs, im_id_map = m, im_loaded_from = Some n\<rparr>)"
  using assms
  by (auto simp: load_def read_dir_def rbind_Inr_iff split: sum.splits prod.splits if_splits option.splits disk_file.splits)

lemma load_ok:
  assumes "index_ok fx stops s" and "load fx n s = (r, s')"
  shows "index_ok fx stops s'"
proof (cases r)
  case (Inl e)
  then show ?thesis using load_run(2) [OF assms(2)] assms(1) by simp
next
  case (Inr u)
  then obtain d vs j m where d: "xs_dirs s n = Some d" "ix_index d = Some (Written vs)" "ix_id_map d = Some (Written j)"
    and m: "read_id_map j = Ok m" "xs_manager s' = \<lparr>im_index = Some vs, im_id_map = m, im_loaded_from = Some n\<rparr>"
    using load_run(2) [OF assms(2)] by auto
  have "dir_ok fx stops d" using assms(1) d(1) by (simp add: index_ok_def)
  then obtain chunks cited where "vs = vectors_of fx chunks" "j = cites_json cited" "stops \<or> cited = chunks"
    using d(2,3) unfolding dir_ok_def by blast
  then have "manager_ok fx stops (xs_manager s')"
    using m by (auto simp: manager_ok_def read_cites_json)
  then show ?thesis using assms(1) load_run(1) [OF assms(2)] by (simp add: index_ok_def)
qed

definition keeps :: "('s \<Rightarrow> bool) \<Rightarrow> ('s, 'a) step \<Rightarrow> bool" where
  "keeps P m \<longleftrightarrow> (\<forall>s. P s \<longrightarrow> P (snd (m s)))"

lemma keeps_sbind: "keeps P m \<Longrightarrow> (\<And>v. keeps P (k v)) \<Longrightarrow> keeps P (sbind m k)"
  unfolding keeps_def sbind_def by (auto split: prod.splits sum.splits)

lemma keeps_load: "keeps (index_ok fx stops) (load fx n)"
  unfolding keeps_def using load_ok by (metis prod.collapse)

lemma keeps_swap_steps: "keeps (index_ok fx stops) (swap_steps fx fault)"
  unfolding swap_steps_def backup_active_def promote_staging_def
  by (intro keeps_sbind keeps_load)
    (auto simp: keeps_def swap_dir_def publish_reload_signal_def index_ok_def split: option.splits if_splits)

lemma swap_cases:
  assumes "safe_swap fx test_set fault skip s = (r, s')"
  obtains (idle) "s' = s" and "r \<noteq> Ok True"
  | (steps) d file0 where "xs_dirs s Staging = Some d" and "ix_index d = Some file0"
      and "skip \<or> health_check fx test_set (Some d) = Ok True"
      and "swap_steps fx fault s = ((case r of Inl e \<Rightarrow> Inl e | Inr _ \<Rightarrow> Inr ()), s')" and "r \<noteq> Ok False"
proof (cases "case xs_dirs s Staging of None \<Rightarrow> True | Some d \<Rightarrow> ix_index d = None")
  case False
  then obtain d file0 where d: "xs_dirs s Staging = Some d" "ix_index d = Some file0" by (auto split: option.splits)
  let ?h = "if skip then Ok True else health_check fx test_set (Some d)"
  show ?thesis
  proof (cases "?h = Ok True")
    case True
    then show ?thesis
      using assms d by (intro steps [of d file0]) (auto simp: safe_swap_def sbind_def slift_def sret_def split: sum.splits prod.splits if_splits)
  next
    case False
    then show ?thesis
      using assms d by (intro idle) (auto simp: safe_swap_def sbind_def slift_def sret_def split: sum.splits prod.splits if_splits)
  qed
qed (use assms in \<open>auto simp: safe_swap_def intro: idle\<close>)

lemma build_ok:
  assumes "index_ok fx stops s" and "build fx fault chunks Staging s = (r, s')" and "stops \<or> fault Open_Map = None"
  shows "index_ok fx stops s'"
proof -
  have put: "index_ok fx stops (s\<lparr>xs_dirs := (xs_dirs s)(Staging := Some d)\<rparr>)" if "dir_ok fx stops d" for d
    using that assms(1) by (simp add: index_ok_def)
  define made where "made = made_dir (xs_dirs s Staging)"
  have ok: "dir_ok fx stops made"
    using assms(1) by (auto simp: made_def made_dir_def index_ok_def dir_ok_def new_dir_def split: option.splits)
  from assms(2) made_def show ?thesis
  proof (cases rule: build_cases)
    case (map_old e)
    then have "dir_ok fx stops (made\<lparr>ix_index := Some (Written (vectors_of fx chunks))\<rparr>)"
      using ok assms(3) by (simp add: dir_ok_def)
    then show ?thesis using put map_old(3) by simp
  qed (use ok put assms(1) in \<open>auto simp: dir_ok_def\<close>)
qed

interpretation index: step_system "\<lambda>s. xs_dirs s = (\<lambda>_. None) \<and> im_index (xs_manager s) = None"
  "index_step fx stops" "index_ok fx stops" for fx stops
proof
  fix s s' :: "'a index_state"
  assume ok: "index_ok fx stops s" and "index_step fx stops s s'"
  from this(2) show "index_ok fx stops s'"
  proof cases
    case (build_staging fault chunks r)
    then show ?thesis using build_ok [OF ok] by blast
  next
    case (swap test_set fault skip r)
    then show ?thesis
    proof (cases rule: swap_cases [of fx test_set fault skip s r s'])
      case (steps d vs)
      then show ?thesis using keeps_swap_steps ok by (metis keeps_def snd_conv)
    qed (use ok in simp)
  next
    case (reload n r)
    then show ?thesis using load_ok ok by blast
  qed
qed (auto simp: index_ok_def manager_ok_def)

lemma load_both:
  assumes "fx_available fx" and "xs_dirs s n = Some \<lparr>ix_index = Some (Written vs), ix_id_map = Some (Written (cites_json chunks))\<rparr>"
  shows "load fx n s = (Ok (), s\<lparr>xs_manager := \<lparr>im_index = Some vs, im_id_map = cites chunks, im_loaded_from = Some n\<rparr>\<rparr>)"
  using assms by (simp add: load_def read_dir_def read_cites_json)

lemma build_load_run:
  assumes "build fx fault chunks Staging s = (Ok n, s')"
  shows "n = length chunks \<and> load fx Staging s' = (Ok (), s'\<lparr>xs_manager := \<lparr>im_index = Some (vectors_of fx chunks),
      im_id_map = cites chunks, im_loaded_from = Some Staging\<rparr>\<rparr>)"
  using assms refl
proof (cases rule: build_cases)
  case built
  then show ?thesis by (simp add: load_both)
qed simp_all

section \<open>Properties\<close>


text \<open>
  A build that is stopped between its two files mixes them: over an earlier build of
  other chunks it leaves the new index with the old ID map, and this loads.
\<close>

lemma stopped_build_mixes:
  assumes "build fx f old Staging s = (Ok n, s1)" and "build fx g chunks Staging s1 = (r, s2)"
    and "g = (\<lambda>oper. if oper = Open_Map then Some e else None)"
    and "add_batches fx 0 chunks ([], []) = Ok im" and "chunks \<noteq> []"
  shows "r = Raise e \<and> load fx Staging s2 = (Ok (), s2\<lparr>xs_manager :=
    \<lparr>im_index = Some (vectors_of fx chunks), im_id_map = cites old, im_loaded_from = Some Staging\<rparr>\<rparr>)"
proof -
  have "fx_available fx \<and> xs_dirs s1 Staging =
      Some \<lparr>ix_index = Some (Written (vectors_of fx old)), ix_id_map = Some (Written (cites_json old))\<rparr>"
    using assms(1) refl by (cases rule: build_cases) simp_all
  then have av: "fx_available fx" and s1: "xs_dirs s1 Staging =
      Some \<lparr>ix_index = Some (Written (vectors_of fx old)), ix_id_map = Some (Written (cites_json old))\<rparr>"
    by simp_all
  have "im = (vectors_of fx chunks, enumerate 0 (map to_metadata_dict chunks))"
    using add_batches_run [OF assms(4)] by simp
  then have "build fx g chunks Staging s1 = (Raise e, s1\<lparr>xs_dirs := (xs_dirs s1)(Staging :=
      Some \<lparr>ix_index = Some (Written (vectors_of fx chunks)), ix_id_map = Some (Written (cites_json old))\<rparr>)\<rparr>)"
    using assms(3-5) av s1
    by (simp add: build_def sbind_def slift_def make_dir_def write_file_def)
  then show ?thesis using assms(2) load_both [OF av] by simp
qed

text \<open>
  a build loads back. Building an index from chunks and loading its directory
  gives the vectors of the chunks, in order, and for each position the metadata of
  the chunk at it.
\<close>

theorem build_load_roundtrip:
  assumes "build fx fault chunks Staging s = (Ok n, s')"
  shows "\<exists>s''. load fx Staging s' = (Ok (), s'') \<and> n = length chunks \<and> im_index (xs_manager s'') = Some (vectors_of fx chunks) \<and>
    (\<forall>i<length chunks. map_of (im_id_map (xs_manager s'')) (int i) = Some (to_metadata_dict (chunks ! i)))"
  using build_load_run [OF assms] by (auto simp: map_of_cites)

text \<open>What FAISS documents of a search: at most \<open>k\<close> hits, best first, each a position or the padding -1.\<close>

definition search_law :: "'v faiss \<Rightarrow> bool" where
  "search_law fx \<longleftrightarrow> (\<forall>vs v k. length (fx_search fx vs v k) \<le> k \<and> sorted_wrt (\<ge>) (map fst (fx_search fx vs v k)) \<and>
     (\<forall>h\<in>set (fx_search fx vs v k). snd h = - 1 \<or> 0 \<le> snd h \<and> snd h < int (length vs)))"

lemma collect_hits:
  "collect_results m mn hits = Ok rs \<Longrightarrow>
     length rs \<le> length hits \<and> (\<forall>r\<in>set rs. \<exists>h\<in>set hits. rc_score r = fst h \<and> rc_faiss_id r = snd h \<and> snd h \<noteq> - 1 \<and> mn \<le> fst h \<and>
       retrieved m (fst h) (snd h) = Ok r)"
proof (induction m mn hits arbitrary: rs rule: collect_results.induct)
  case (2 m mn score fid hits)
  show ?case
  proof (cases "fid = - 1 \<or> score < mn")
    case True
    then show ?thesis using 2 by (fastforce simp: le_SucI)
  next
    case False
    then obtain c cs where "retrieved m score fid = Ok c" "collect_results m mn hits = Ok cs" "rs = c # cs"
      using 2(3) by (auto simp: rbind_Inr_iff)
    moreover from this(1) have "rc_score c = score" "rc_faiss_id c = fid"
      by (auto simp: retrieved_def Let_def rbind_Inr_iff)
    ultimately show ?thesis using 2(2) False by fastforce
  qed
qed simp

lemma collect_sorted:
  "collect_results m mn hits = Ok rs \<Longrightarrow> sorted_wrt (\<ge>) (map fst hits) \<Longrightarrow> sorted_wrt (\<ge>) (map rc_score rs)"
proof (induction m mn hits arbitrary: rs rule: collect_results.induct)
  case (2 m mn score fid hits)
  show ?case
  proof (cases "fid = - 1 \<or> score < mn")
    case True
    then show ?thesis using 2 by auto
  next
    case False
    then obtain c cs where run: "retrieved m score fid = Ok c" "collect_results m mn hits = Ok cs" "rs = c # cs"
      using 2(3) by (auto simp: rbind_Inr_iff)
    moreover from run(1) have "rc_score c = score" by (auto simp: retrieved_def Let_def rbind_Inr_iff)
    ultimately show ?thesis using 2(2) 2(4) False collect_hits [OF run(2)] by fastforce
  qed
qed simp

lemma retrieved_metadata:
  "map_of m fid = Some (to_metadata_dict c) \<Longrightarrow> retrieved m score fid =
     Ok \<lparr>rc_text = PStr [], rc_score = score, rc_source_document_id = PStr (tc_source_document_id c),
         rc_source_url = PStr (tc_source_url c), rc_section_hint = PStr (tc_section_hint c),
         rc_chunk_index = int (tc_chunk_index c), rc_token_count = int (tc_token_count c), rc_faiss_id = fid\<rparr>"
  by (simp add: retrieved_def to_metadata_dict_def meta_get_def dict_get_def Let_def)

text \<open>
  C36: a query cites the chunks it found. On an index built from chunks and loaded, a
  query with a text returns at most \<open>top_k\<close> results, best score first and none below
  the threshold; each names the document, address, section and index of the chunk at
  the position the search returned. Its text, though, is empty: the metadata written
  by the build has no text.
\<close>

theorem query_cites_chunks:
  assumes "build fx fault chunks Staging s = (Ok n, s')" and "load fx Staging s' = (Ok (), s'')" and "search_law fx" and "strip q \<noteq> []"
  shows "\<exists>rs. query_index fx mn q top_k (xs_manager s'') = Ok rs \<and> length rs \<le> top_k \<and> sorted_wrt (\<ge>) (map rc_score rs) \<and>
    (\<forall>r\<in>set rs. mn \<le> rc_score r \<and> (\<exists>i<length chunks. rc_faiss_id r = int i \<and>
       rc_source_document_id r = PStr (tc_source_document_id (chunks ! i)) \<and> rc_source_url r = PStr (tc_source_url (chunks ! i)) \<and>
       rc_section_hint r = PStr (tc_section_hint (chunks ! i)) \<and> rc_chunk_index r = int (tc_chunk_index (chunks ! i)) \<and>
       rc_text r = PStr []))"
proof -
  obtain m where idx: "im_index (xs_manager s'') = Some (vectors_of fx chunks)" and m: "m = im_id_map (xs_manager s'')"
    and meta: "\<forall>i<length chunks. map_of m (int i) = Some (to_metadata_dict (chunks ! i))"
    using build_load_run [OF assms(1)] assms(2) by (auto simp: map_of_cites)
  let ?hits = "fx_search fx (vectors_of fx chunks) (fx_embed fx q) top_k"
  have len: "length (vectors_of fx chunks) = length chunks" by (simp add: vectors_of_def)
  have hits: "length ?hits \<le> top_k" "sorted_wrt (\<ge>) (map fst ?hits)"
    "\<forall>h\<in>set ?hits. snd h = - 1 \<or> (0 \<le> snd h \<and> snd h < int (length chunks))"
    using assms(3) len unfolding search_law_def by metis+
  have "\<exists>rs. collect_results m mn hs = Ok rs" if "set hs \<subseteq> set ?hits" for hs
    using that
  proof (induction hs)
    case (Cons h hs)
    obtain score fid where h: "h = (score, fid)" by (cases h)
    obtain rs where rs: "collect_results m mn hs = Ok rs" using Cons by auto
    show ?case
    proof (cases "fid = - 1")
      case False
      then have "0 \<le> fid" "fid < int (length chunks)" using hits(3) Cons.prems h by auto
      then have "map_of m fid = Some (to_metadata_dict (chunks ! nat fid))" using meta [rule_format, of "nat fid"] by simp
      then show ?thesis using h rs by (simp add: retrieved_metadata)
    qed (use h rs in simp)
  qed simp
  then obtain rs where rs: "collect_results m mn ?hits = Ok rs" by blast
  have "query_index fx mn q top_k (xs_manager s'') = Ok rs"
    using rs assms(4) idx m by (simp add: query_index_def embed_def)
  moreover have "length rs \<le> top_k" using collect_hits [OF rs] hits(1) by simp
  moreover have "sorted_wrt (\<ge>) (map rc_score rs)" by (rule collect_sorted [OF rs hits(2)])
  moreover have "mn \<le> rc_score r \<and> (\<exists>i<length chunks. rc_faiss_id r = int i \<and>
       rc_source_document_id r = PStr (tc_source_document_id (chunks ! i)) \<and> rc_source_url r = PStr (tc_source_url (chunks ! i)) \<and>
       rc_section_hint r = PStr (tc_section_hint (chunks ! i)) \<and> rc_chunk_index r = int (tc_chunk_index (chunks ! i)) \<and>
       rc_text r = PStr [])" if "r \<in> set rs" for r
  proof -
    obtain h where h: "h \<in> set ?hits" "rc_faiss_id r = snd h" "snd h \<noteq> - 1" "mn \<le> fst h" "rc_score r = fst h"
      "retrieved m (fst h) (snd h) = Ok r"
      using collect_hits [OF rs] \<open>r \<in> set rs\<close> by blast
    then have range: "0 \<le> snd h" "snd h < int (length chunks)" using hits(3) by auto
    then have "map_of m (snd h) = Some (to_metadata_dict (chunks ! nat (snd h)))" using meta [rule_format, of "nat (snd h)"] by simp
    then show ?thesis
      using h range by (intro conjI exI [of _ "nat (snd h)"]) (auto simp: retrieved_metadata)
  qed
  ultimately show ?thesis by blast
qed





text \<open>
  A staged index that fails its health check is not swapped in; it stays where it is,
  although the documentation says that it is cleared. A missing test set passes, an
  empty one fails.
\<close>

lemma unhealthy_not_swapped:
  "xs_dirs s Staging = Some d \<Longrightarrow> health_check fx test_set (Some d) = Ok False \<Longrightarrow> safe_swap fx test_set fault False s = (Ok False, s)"
  by (simp add: safe_swap_def sbind_def slift_def sret_def)

lemma missing_test_set_passes: "health_check fx None d = Ok True"
  by (simp add: health_check_def)

lemma empty_test_set_fails: "read_dir fx d = Ok im \<Longrightarrow> health_check fx (Some []) d = Ok False"
  by (cases im) (simp add: health_check_def healthy_rate_def)

text \<open>
  When the second rename of a swap fails there is no active directory any more: the
  old index is in the backup, and a process that starts then cannot load.
\<close>

lemma failed_promotion_no_active:
  assumes "fault Rename_Staging = Some e" and "fault Rename_Active = None" and "fault Remove_Backup = None" and "fx_available fx"
    and "xs_dirs s Active = Some old" and "xs_dirs s Staging = Some d" and "ix_index d = Some file0"
  shows "\<exists>s'. safe_swap fx test_set fault True s = (Raise e, s') \<and> xs_dirs s' Active = None \<and> xs_dirs s' Backup = Some old \<and>
    load fx Active s' = (Raise (file_not_found ''FAISS index not found''), s')"
  using assms
  by (simp add: safe_swap_def swap_steps_def backup_active_def promote_staging_def swap_dir_def sbind_def slift_def load_def read_dir_def)

section \<open>Witnesses\<close>

definition sample_faiss :: "nat faiss" where
  "sample_faiss = \<lparr>fx_available = True, fx_embed = length, fx_zero = 0,
     fx_search = (\<lambda>vs v k. if vs = [] then [] else take k [(1, 0)])\<rparr>"

definition sample_chunk :: text_chunk where
  "sample_chunk = \<lparr>tc_text = ''kyc'', tc_chunk_index = 0, tc_source_document_id = ''RBI'', tc_source_url = ''u'',
     tc_section_hint = ''Introduction'', tc_char_start = 0, tc_char_end = 3, tc_token_count = 60\<rparr>"

definition no_index :: "nat index_state" where
  "no_index = \<lparr>xs_dirs = (\<lambda>_. None), xs_manager = \<lparr>im_index = None, im_id_map = [], im_loaded_from = None\<rparr>, xs_signals = 0\<rparr>"

lemma sample_search: "search_law sample_faiss"
proof -
  have "length (take k [(1 :: rat, 0 :: int)]) \<le> k" "sorted_wrt (\<ge>) (map fst (take k [(1 :: rat, 0 :: int)]))"
    "\<forall>h\<in>set (take k [(1 :: rat, 0 :: int)]). snd h = 0" for k
    by (cases k; simp)+
  then show ?thesis by (force simp: search_law_def sample_faiss_def)
qed

lemma sample_build: "\<exists>s'. build sample_faiss (\<lambda>_. None) [sample_chunk] Staging no_index = (Ok 1, s')"
proof -
  have kyc: "strip ''kyc'' = ''kyc''" by code_simp
  have none: "add_batches sample_faiss n [] im = Ok im" for n im
    by (cases im) (simp add: add_batches.simps)
  have "batch_embed sample_faiss [''kyc''] = Ok [3]"
    by (simp add: batch_embed_def sample_faiss_def kyc)
  then have "add_batches sample_faiss 0 [sample_chunk] ([], []) = Ok ([3], [(0, to_metadata_dict sample_chunk)])"
    by (subst add_batches.simps) (simp add: none sample_chunk_def)
  moreover have "fx_available sample_faiss" by (simp add: sample_faiss_def)
  ultimately show ?thesis
    by (simp add: build_def sbind_def slift_def sret_def make_dir_def write_file_def)
qed

theorem build_load_roundtrip_witness:
  "\<exists>s' s''. build sample_faiss (\<lambda>_. None) [sample_chunk] Staging no_index = (Ok 1, s') \<and>
     load sample_faiss Staging s' = (Ok (), s'') \<and>
     map_of (im_id_map (xs_manager s'')) 0 = Some (to_metadata_dict sample_chunk)"
proof -
  obtain s' where b: "build sample_faiss (\<lambda>_. None) [sample_chunk] Staging no_index = (Ok 1, s')" using sample_build by blast
  show ?thesis using build_load_roundtrip [OF b] b by auto
qed

theorem query_cites_chunks_witness:
  "\<exists>s' s'' rs. build sample_faiss (\<lambda>_. None) [sample_chunk] Staging no_index = (Ok 1, s') \<and>
     load sample_faiss Staging s' = (Ok (), s'') \<and>
     query_index sample_faiss 0 ''kyc'' 5 (xs_manager s'') = Ok rs \<and> length rs \<le> 5"
proof -
  obtain s' where b: "build sample_faiss (\<lambda>_. None) [sample_chunk] Staging no_index = (Ok 1, s')" using sample_build by blast
  obtain s'' where l: "load sample_faiss Staging s' = (Ok (), s'')" using build_load_run [OF b] by blast
  have "strip ''kyc'' \<noteq> []" by code_simp
  then show ?thesis using query_cites_chunks [OF b l sample_search, of "''kyc''" 0 5] b l by blast
qed



end
