(* ===== verification/Embedder.thy ===== *)
theory Embedder
  imports Retrieval Process
begin

text \<open>
  \<open>retrieval/embedder.py\<close> in full: the model that is loaded once, the embedding of a text
  and of a batch, the dimension and the similarity. The sentence-transformers package is
  a parameter; vectors are lists of reals, so the rounding of float32 is left out. The
  last sections show that a batch is the row-wise embedding the index manager builds on.
\<close>

section \<open>The model\<close>

text \<open>
  \<open>st_load\<close> is the import and the constructor, given name and device; \<open>st_encode\<close> takes
  the texts, the batch size and whether to normalise.
\<close>

record 'm transformers =
  st_load :: "string \<Rightarrow> string \<Rightarrow> 'm result"
  st_encode :: "'m \<Rightarrow> string list \<Rightarrow> int \<Rightarrow> bool \<Rightarrow> real list list result"

record 'm embedder =
  em_environ :: env_items
  em_model :: "'m option"
  em_model_name :: "string option"

definition default_model_name :: string where
  "default_model_name = ''all-MiniLM-L6-v2''"

definition embedding_dimension :: int where
  "embedding_dimension = 384"

definition load_model :: "'m transformers \<Rightarrow> string \<Rightarrow> ('m embedder, 'm) step" where
  "load_model lib model_name p = (st_load lib model_name (get_or ''EMBEDDING_DEVICE'' (em_environ p) ''cpu''), p)"

definition get_model :: "'m transformers \<Rightarrow> ('m embedder, 'm) step" where
  "get_model lib p =
     (let model_name = get_or ''EMBEDDING_MODEL'' (em_environ p) default_model_name in
      case em_model p of
        Some m \<Rightarrow>
          if em_model_name p = Some model_name then (Ok m, p)
          else (case load_model lib model_name p of
                  (Inl e, p1) \<Rightarrow> (Inl e, p1)
                | (Inr m', p1) \<Rightarrow> (Ok m', p1\<lparr>em_model := Some m', em_model_name := Some model_name\<rparr>))
      | None \<Rightarrow>
          (case load_model lib model_name p of
             (Inl e, p1) \<Rightarrow> (Inl e, p1)
           | (Inr m', p1) \<Rightarrow> (Ok m', p1\<lparr>em_model := Some m', em_model_name := Some model_name\<rparr>)))"

definition invalidate_model_cache :: "'m embedder \<Rightarrow> 'm embedder" where
  "invalidate_model_cache p = p\<lparr>em_model := None, em_model_name := None\<rparr>"

section \<open>Embedding\<close>

text \<open>The one row that \<open>encode\<close> gives for one text.\<close>

definition the_row :: "real list list \<Rightarrow> real list result" where
  "the_row rows = (case rows of [] \<Rightarrow> Raise (OtherExn ''IndexError'' ''index 0 is out of bounds'') | v # _ \<Rightarrow> Ok v)"

definition embed_text :: "'m transformers \<Rightarrow> string \<Rightarrow> bool \<Rightarrow> ('m embedder, real list) step" where
  "embed_text lib text normalise =
     (if strip text = [] then sraise (ValueError ''Cannot embed empty text.'')
      else sbind (get_model lib) (\<lambda>m. slift (rbind (st_encode lib m [text] 32 normalise) the_row)))"

text \<open>\<open>batch_size or int(...)\<close>: a size of zero counts as none.\<close>

definition effective_batch_size :: "env_items \<Rightarrow> int option \<Rightarrow> int result" where
  "effective_batch_size env batch_size =
     (case batch_size of
        Some b \<Rightarrow> if b \<noteq> 0 then Ok b else py_int (get_or ''EMBEDDING_BATCH_SIZE'' env ''32'')
      | None \<Rightarrow> py_int (get_or ''EMBEDDING_BATCH_SIZE'' env ''32''))"

definition non_empty_texts :: "string list \<Rightarrow> (nat \<times> string) list" where
  "non_empty_texts texts = filter (\<lambda>(i, t). strip t \<noteq> []) (enumerate 0 texts)"

text \<open>The loop that puts the vectors at the places of their texts.\<close>

fun fill_rows :: "real list list \<Rightarrow> (nat \<times> string) list \<Rightarrow> real list list \<Rightarrow> real list list result" where
  "fill_rows result [] vectors = Ok result"
| "fill_rows result (x # xs) [] = Raise (OtherExn ''IndexError'' ''index is out of bounds'')"
| "fill_rows result ((i, t) # xs) (v # vs) = fill_rows (result[i := v]) xs vs"

definition zero_rows :: "nat \<Rightarrow> real list list \<Rightarrow> real list list" where
  "zero_rows n vectors =
     replicate n (replicate (case vectors of [] \<Rightarrow> nat embedding_dimension | v # _ \<Rightarrow> length v) 0)"

definition batch_embed_texts :: "'m transformers \<Rightarrow> string list \<Rightarrow> int option \<Rightarrow> bool \<Rightarrow> ('m embedder, real list list) step" where
  "batch_embed_texts lib texts batch_size normalise = (\<lambda>p.
     if texts = [] then (Raise (ValueError ''Cannot embed empty text list.''), p)
     else case effective_batch_size (em_environ p) batch_size of
       Inl e \<Rightarrow> (Raise e, p)
     | Inr batch \<Rightarrow>
         let non_empty = non_empty_texts texts in
         if non_empty = [] then (Raise (ValueError ''All texts in the list are empty.''), p)
         else sbind (get_model lib) (\<lambda>m. slift (
           rbind (st_encode lib m (map snd non_empty) batch normalise) (\<lambda>vectors.
             if length non_empty < length texts then fill_rows (zero_rows (length texts) vectors) non_empty vectors
             else Ok vectors))) p)"

section \<open>Dimension and similarity\<close>

definition get_embedding_dimension :: "env_items \<Rightarrow> int result" where
  "get_embedding_dimension env =
     (let env_dim = get_or ''FAISS_INDEX_DIMENSION'' env [] in if env_dim \<noteq> [] then py_int env_dim else Ok embedding_dimension)"

fun dot :: "real list \<Rightarrow> real list \<Rightarrow> real" where
  "dot (a # as) (b # bs) = a * b + dot as bs"
| "dot _ _ = 0"

definition compute_similarity :: "real list \<Rightarrow> real list \<Rightarrow> real result" where
  "compute_similarity vec_a vec_b =
     (if length vec_a = length vec_b then Ok (dot vec_a vec_b) else Raise (ValueError ''shapes not aligned''))"

section \<open>The model is loaded once\<close>

lemma get_model_cached:
  assumes "get_model lib p = (Ok m, p')"
  shows "get_model lib' p' = (Ok m, p')" and "em_environ p' = em_environ p"
  using assms by (auto simp: get_model_def load_model_def Let_def split: option.splits if_splits prod.splits sum.splits)

text \<open>An embedding after an embedding with the same environment loads nothing.\<close>

lemma embed_after_load:
  assumes "get_model lib p = (Ok m, p')" and "strip text \<noteq> []"
  shows "embed_text (lib\<lparr>st_load := load'\<rparr>) text normalise p' = (rbind (st_encode lib m [text] 32 normalise) the_row, p')"
  using assms(2) get_model_cached(1) [OF assms(1), of "lib\<lparr>st_load := load'\<rparr>"]
  by (simp add: embed_text_def sbind_Inr slift_def)

lemma dimension_ignores_model:
  "get_or ''FAISS_INDEX_DIMENSION'' (em_environ p) [] = [] \<Longrightarrow> get_embedding_dimension (em_environ p) = Ok 384"
  by (simp add: get_embedding_dimension_def embedding_dimension_def)

section \<open>A batch is the embedding of its rows\<close>

text \<open>
  What the package documents of \<open>encode\<close>: with a positive batch size one row for each
  text, the same as for the text alone, and all rows of the model's dimension.
\<close>

definition encodes_rows :: "'m transformers \<Rightarrow> ('m \<Rightarrow> bool \<Rightarrow> string \<Rightarrow> real list) \<Rightarrow> bool" where
  "encodes_rows lib enc \<longleftrightarrow> (\<forall>m ts batch n. 0 < batch \<longrightarrow> st_encode lib m ts batch n = Ok (map (enc m n) ts))"

lemma fill_rows_enumerate:
  assumes "length pre = k"
  shows "fill_rows (pre @ replicate (length ts) z) (filter (\<lambda>(i, t). P t) (enumerate k ts)) (map f (filter P ts)) =
    Ok (pre @ map (\<lambda>t. if P t then f t else z) ts)"
  using assms
proof (induction ts arbitrary: pre k)
  case (Cons t ts)
  have "fill_rows ((pre @ [y]) @ replicate (length ts) z) (filter (\<lambda>(i, t). P t) (enumerate (Suc k) ts)) (map f (filter P ts)) =
      Ok ((pre @ [y]) @ map (\<lambda>t. if P t then f t else z) ts)" for y
    using Cons.IH [of "pre @ [y]" "Suc k"] Cons.prems by simp
  from this [of "f t"] this [of z] show ?case using Cons.prems by (auto simp: list_update_append)
qed simp

lemma snd_non_empty: "map snd (filter (\<lambda>(i, t). P t) (enumerate k ts)) = filter P ts"
  by (induction ts arbitrary: k) auto

lemma length_non_empty: "length (non_empty_texts texts) = length (filter (\<lambda>t. strip t \<noteq> []) texts)"
  using snd_non_empty [of "\<lambda>t. strip t \<noteq> []" 0 texts] unfolding non_empty_texts_def by (metis length_map)

lemma zero_rows_width:
  assumes "\<forall>t. length (f t) = d" and "ts \<noteq> []"
  shows "zero_rows n (map f ts) = replicate n (replicate d 0)"
  using assms by (cases ts) (simp_all add: zero_rows_def)

text \<open>
  C40: Embedding a batch gives one vector for each text, in order, and a zero vector for a
  blank one: with a package that encodes row by row, it is the batch embedding the index
  manager's model uses, errors included, on the vectors of the loaded model.
\<close>

theorem batch_embed_rows:
  assumes lib: "encodes_rows lib enc" and m: "get_model lib p = (Ok m, p')" and len: "\<forall>t. length (enc m normalise t) = d"
    and batch: "effective_batch_size (em_environ p) batch_size = Ok batch" "0 < batch"
    and fx: "fx_embed fx = enc m normalise" "fx_zero fx = replicate d 0"
  shows "fst (batch_embed_texts lib texts batch_size normalise p) = batch_embed fx texts"
proof -
  let ?P = "\<lambda>t. strip t \<noteq> []" and ?f = "enc m normalise"
  have texts: "map snd (non_empty_texts texts) = filter ?P texts"
    by (simp add: non_empty_texts_def snd_non_empty)
  have enc: "st_encode lib m (filter ?P texts) batch normalise = Ok (map ?f (filter ?P texts))"
    using lib batch(2) by (simp add: encodes_rows_def)
  have rows: "fill_rows (zero_rows (length texts) (map ?f (filter ?P texts))) (non_empty_texts texts) (map ?f (filter ?P texts)) =
      Ok (map (\<lambda>t. if ?P t then ?f t else replicate d 0) texts)" if "filter ?P texts \<noteq> []"
    using fill_rows_enumerate [of "[]" 0 texts "replicate d 0" ?P ?f] zero_rows_width [OF len that]
    by (simp add: non_empty_texts_def)
  have all: "map ?f (filter ?P texts) = map (\<lambda>t. if ?P t then ?f t else replicate d 0) texts"
    if "\<not> length (non_empty_texts texts) < length texts"
  proof -
    have "filter ?P texts = texts" using that by (metis length_non_empty filter_True length_filter_less linorder_not_less)
    then show ?thesis by (auto simp: filter_id_conv)
  qed
  have none: "non_empty_texts texts = [] \<longleftrightarrow> filter ?P texts = []" using texts by (metis map_is_Nil_conv)
  have step: "sbind (get_model lib) k p = k m p'" for k :: "_ \<Rightarrow> (_, real list list) step"
    by (rule sbind_Inr) (rule m)
  show ?thesis
    using rows all none by (simp add: batch_embed_texts_def batch_embed_def batch(1) Let_def step slift_def texts enc fx)
qed

section \<open>Similarity\<close>

definition unit_vector :: "real list \<Rightarrow> bool" where
  "unit_vector v \<longleftrightarrow> dot v v = 1"

lemma dot_commute: "dot a b = dot b a"
  by (induction a b rule: dot.induct) auto

lemma dot_sums:
  assumes "length a = length b"
  shows "0 \<le> dot a a + dot b b - 2 * dot a b" and "0 \<le> dot a a + dot b b + 2 * dot a b"
    and "dot a a + dot b b - 2 * dot a b = 0 \<Longrightarrow> a = b"
  using assms
proof (induction a b rule: list_induct2)
  case (Cons x a y b)
  have square: "x * x + y * y - 2 * (x * y) = (x - y) * (x - y)" "x * x + y * y + 2 * (x * y) = (x + y) * (x + y)"
    by (simp_all add: algebra_simps)
  then have pos: "0 \<le> x * x + y * y - 2 * (x * y)" "0 \<le> x * x + y * y + 2 * (x * y)" by simp_all
  { case 1 show ?case using Cons.IH(1) pos(1) by (simp add: algebra_simps) }
  { case 2 show ?case using Cons.IH(2) pos(2) by (simp add: algebra_simps) }
  { case 3
    then have "x * x + y * y - 2 * (x * y) = 0 \<and> dot a a + dot b b - 2 * dot a b = 0"
      using Cons.IH(1) pos(1) by (simp add: algebra_simps)
    then show ?case using Cons.IH(3) square(1) by simp }
qed simp_all

text \<open>
  The similarity of two unit vectors of one dimension is between -1 and 1, and it is 1
  only when they are equal.
\<close>

lemma similarity_bounds:
  assumes "unit_vector a" and "unit_vector b" and "compute_similarity a b = Ok s"
  shows "-1 \<le> s \<and> s \<le> 1 \<and> (s = 1 \<longleftrightarrow> a = b) \<and> compute_similarity b a = Ok s"
proof -
  have len: "length a = length b" and s: "s = dot a b"
    using assms(3) by (auto simp: compute_similarity_def split: if_splits)
  have "s = 1 \<longleftrightarrow> a = b" using dot_sums(3) [OF len] assms(1,2) s by (auto simp: unit_vector_def)
  moreover have "compute_similarity b a = Ok s" using len s by (simp add: compute_similarity_def dot_commute)
  ultimately show ?thesis using dot_sums(1,2) [OF len] assms(1,2) s by (simp add: unit_vector_def)
qed

text \<open>Two texts with a model: one is embedded as its length, the blank one as zero.\<close>

definition sample_transformers :: "unit transformers" where
  "sample_transformers = \<lparr>st_load = (\<lambda>name device. Ok ()),
     st_encode = (\<lambda>m ts batch n. if 0 < batch then Ok (map (\<lambda>t. [real (length t), 1]) ts) else Raise (ValueError ''step''))\<rparr>"

definition sample_vectors :: "real list faiss" where
  "sample_vectors = \<lparr>fx_available = True, fx_embed = (\<lambda>t. [real (length t), 1]), fx_zero = [0, 0], fx_search = (\<lambda>_ _ _. [])\<rparr>"

lemma batch_embed_rows_witness:
  "fst (batch_embed_texts sample_transformers [''kyc'', [], ''pan no''] (Some 2) True \<lparr>em_environ = [], em_model = None, em_model_name = None\<rparr>)
     = batch_embed sample_vectors [''kyc'', [], ''pan no'']"
proof (rule batch_embed_rows [where d = "Suc (Suc 0)"])
  show "encodes_rows sample_transformers (\<lambda>m n t. [real (length t), 1])"
    by (simp add: encodes_rows_def sample_transformers_def)
  show "get_model sample_transformers \<lparr>em_environ = [], em_model = None, em_model_name = None\<rparr> =
      (Ok (), \<lparr>em_environ = [], em_model = Some (), em_model_name = Some default_model_name\<rparr>)"
    by (simp add: get_model_def load_model_def sample_transformers_def get_or_def)
  show "effective_batch_size (em_environ \<lparr>em_environ = [], em_model = None, em_model_name = None\<rparr>) (Some 2) = Ok 2"
    by (simp add: effective_batch_size_def)
qed (simp_all add: sample_vectors_def)

end
