(* ===== verification/Regex.thy ===== *)
theory Regex
  imports PyText
begin

text \<open>
  The part of Python's module \<open>re\<close> the program uses: patterns, their matches in the
  order of preference in which the backtracking matcher tries them, \<open>search\<close> and
  \<open>sub\<close>. Characters are below 256, so the classes \<open>\w\<close>, \<open>\d\<close> and \<open>\s\<close> are those of this
  range.
\<close>

section \<open>Character classes\<close>

definition is_word :: "char \<Rightarrow> bool" where
  "is_word c =
     (let n = code_point c in
      (48 \<le> n \<and> n \<le> 57) \<or> (65 \<le> n \<and> n \<le> 90) \<or> (97 \<le> n \<and> n \<le> 122) \<or> n = 95 \<or>
      n \<in> {170, 178, 179, 181, 185, 186, 188, 189, 190} \<or> (192 \<le> n \<and> n \<noteq> 215 \<and> n \<noteq> 247))"

definition same_letter :: "char \<Rightarrow> char \<Rightarrow> bool" where
  "same_letter c d \<longleftrightarrow> lower_char c = lower_char d"

section \<open>Patterns and their matches\<close>

text \<open>
  A place in a text is what lies before it, reversed, and what lies after it. \<open>Look\<close>
  is an assertion on the two characters beside a place.
\<close>

type_synonym place = "string \<times> string"

datatype regex =
    Empty
  | One "char \<Rightarrow> bool"
  | Look "char option \<Rightarrow> char option \<Rightarrow> bool"
  | Seq regex regex
  | Alt regex regex
  | Many bool regex

definition head :: "string \<Rightarrow> char option" where
  "head s = (case s of [] \<Rightarrow> None | c # _ \<Rightarrow> Some c)"

text \<open>
  A repetition, greedy or lazy. Each round has to consume a character, so as many
  rounds as there are characters left are enough.
\<close>

fun rounds :: "nat \<Rightarrow> bool \<Rightarrow> (place \<Rightarrow> place list) \<Rightarrow> place \<Rightarrow> place list" where
  "rounds 0 greedy f p = [p]"
| "rounds (Suc n) greedy f p =
     (let more = concat (map (rounds n greedy f) (filter (\<lambda>q. length (snd q) < length (snd p)) (f p)))
      in if greedy then more @ [p] else p # more)"

primrec matches :: "regex \<Rightarrow> place \<Rightarrow> place list" where
  "matches Empty = (\<lambda>p. [p])"
| "matches (One P) = (\<lambda>(l, s). case s of [] \<Rightarrow> [] | c # s' \<Rightarrow> if P c then [(c # l, s')] else [])"
| "matches (Look P) = (\<lambda>(l, s). if P (head l) (head s) then [(l, s)] else [])"
| "matches (Seq r1 r2) = (\<lambda>p. concat (map (matches r2) (matches r1 p)))"
| "matches (Alt r1 r2) = (\<lambda>p. matches r1 p @ matches r2 p)"
| "matches (Many greedy r) = (\<lambda>p. rounds (length (snd p)) greedy (matches r) p)"

definition plus :: "bool \<Rightarrow> regex \<Rightarrow> regex" where
  "plus greedy r = Seq r (Many greedy r)"

definition opt :: "regex \<Rightarrow> regex" where
  "opt r = Alt r Empty"

fun times :: "nat \<Rightarrow> regex \<Rightarrow> regex" where
  "times 0 r = Empty"
| "times (Suc n) r = Seq r (times n r)"

fun up_to :: "nat \<Rightarrow> regex \<Rightarrow> regex" where
  "up_to 0 r = Empty"
| "up_to (Suc n) r = opt (Seq r (up_to n r))"

definition at_least :: "nat \<Rightarrow> regex \<Rightarrow> regex" where
  "at_least n r = Seq (times n r) (Many True r)"

fun seqs :: "regex list \<Rightarrow> regex" where
  "seqs [] = Empty"
| "seqs [r] = r"
| "seqs (r # r' # rs) = Seq r (seqs (r' # rs))"

fun alts :: "regex list \<Rightarrow> regex" where
  "alts [] = Alt Empty Empty"
| "alts [r] = r"
| "alts (r # r' # rs) = Alt r (alts (r' # rs))"

definition lit :: "string \<Rightarrow> regex" where
  "lit s = seqs (map (\<lambda>c. One (\<lambda>d. d = c)) s)"

text \<open>With the flag \<open>IGNORECASE\<close>.\<close>

definition lit_i :: "string \<Rightarrow> regex" where
  "lit_i s = seqs (map (\<lambda>c. One (same_letter c)) s)"

definition word_side :: "char option \<Rightarrow> bool" where
  "word_side c = (case c of None \<Rightarrow> False | Some d \<Rightarrow> is_word d)"

definition word_boundary :: regex where
  "word_boundary = Look (\<lambda>a b. word_side a \<noteq> word_side b)"

text \<open>\<open>^\<close> and \<open>$\<close> with the flag \<open>MULTILINE\<close>.\<close>

definition line_start :: regex where
  "line_start = Look (\<lambda>a b. a = None \<or> a = Some (CHR 0x0A))"

definition line_end :: regex where
  "line_end = Look (\<lambda>a b. b = None \<or> b = Some (CHR 0x0A))"

definition any :: regex where
  "any = One (\<lambda>_. True)"

definition spaces :: regex where
  "spaces = Many True (One is_space)"

definition some_spaces :: regex where
  "some_spaces = plus True (One is_space)"

section \<open>Searching and replacing\<close>

text \<open>
  The preferred match at a place. Matches of the empty text are left out: no pattern
  of the program has one.
\<close>

definition first_match :: "regex \<Rightarrow> place \<Rightarrow> place option" where
  "first_match r p = (case matches r p of
     [] \<Rightarrow> None | q # _ \<Rightarrow> if length (snd q) < length (snd p) then Some q else None)"

text \<open>\<open>search\<close>: the texts before, in and after the first match.\<close>

fun search :: "regex \<Rightarrow> string \<Rightarrow> string \<Rightarrow> (string \<times> string \<times> string) option" where
  "search r l [] = None"
| "search r l (c # s) =
     (case first_match r (l, c # s) of
        Some (_, s') \<Rightarrow> Some (rev l, take (length (c # s) - length s') (c # s), s')
      | None \<Rightarrow> search r (c # l) s)"

text \<open>\<open>sub\<close> with a function of the matched text; \<open>l\<close> is the text before, reversed.\<close>

function sub :: "regex \<Rightarrow> (string \<Rightarrow> string) \<Rightarrow> string \<Rightarrow> string \<Rightarrow> string" where
  "sub r f l [] = []"
| "sub r f l (c # s) =
     (case first_match r (l, c # s) of
        Some (l', s') \<Rightarrow> f (take (length (c # s) - length s') (c # s)) @ sub r f l' s'
      | None \<Rightarrow> c # sub r f (c # l) s)"
  by pat_completeness auto
termination
  by (relation "measure (\<lambda>(_, _, _, s). length s)") (auto simp: first_match_def split: list.splits if_splits)

section \<open>Facts\<close>

lemma rounds_fuel: "length (snd p) \<le> n \<Longrightarrow> rounds n g f p = rounds (length (snd p)) g f p"
proof (induction "length (snd p)" arbitrary: n p rule: less_induct)
  case less
  have eq: "rounds a g f q = rounds b g f q" if "length (snd q) < length (snd p)" "length (snd q) \<le> a" "length (snd q) \<le> b" for q a b
    using less(1) [of q] that by metis
  show ?case
  proof (cases n)
    case (Suc m)
    show ?thesis
    proof (cases "length (snd p)")
      case 0
      then have "filter (\<lambda>q. length (snd q) < length (snd p)) (f p) = []" by simp
      then show ?thesis using Suc 0 by (simp del: length_0_conv)
    next
      case (Suc k)
      have "map (rounds m g f) (filter (\<lambda>q. length (snd q) < length (snd p)) (f p)) =
          map (rounds k g f) (filter (\<lambda>q. length (snd q) < length (snd p)) (f p))"
        using \<open>n = Suc m\<close> Suc less(2) by (auto intro!: map_cong eq)
      then show ?thesis unfolding \<open>n = Suc m\<close> \<open>length (snd p) = Suc k\<close> rounds.simps Let_def
        using \<open>length (snd p) = Suc k\<close> by metis
    qed
  qed (use less(2) in simp)
qed

text \<open>A match moves from its place to one further in the same text.\<close>

definition further :: "place \<Rightarrow> place \<Rightarrow> bool" where
  "further p q \<longleftrightarrow> (\<exists>w. snd p = w @ snd q \<and> fst q = rev w @ fst p)"

lemma further_refl [simp]: "further p p"
  by (simp add: further_def)

lemma further_trans: "further p q \<Longrightarrow> further q r \<Longrightarrow> further p r"
  by (auto simp: further_def)

lemma rounds_further:
  assumes "\<And>p q. q \<in> set (f p) \<Longrightarrow> further p q"
  shows "q \<in> set (rounds n g f p) \<Longrightarrow> further p q"
proof (induction n arbitrary: p)
  case (Suc n)
  then consider "q = p" | x where "x \<in> set (f p)" and "q \<in> set (rounds n g f x)"
    by (auto simp: Let_def split: if_splits)
  then show ?case using Suc.IH assms further_trans by cases (simp, blast)
qed simp

lemma matches_further: "q \<in> set (matches r p) \<Longrightarrow> further p q"
proof (induction r arbitrary: p q)
  case (One P)
  then show ?case by (cases p) (auto simp: further_def split: list.splits if_splits)
next
  case (Look P)
  then show ?case by (cases p) (auto split: if_splits)
next
  case (Seq r1 r2)
  then obtain x where "x \<in> set (matches r1 p)" and "q \<in> set (matches r2 x)" by auto
  then show ?case using Seq.IH further_trans by blast
next
  case (Many g r)
  have "q \<in> set (rounds (length (snd p)) g (matches r) p)" using Many.prems by simp
  then show ?case by (rule rounds_further [rotated]) (rule Many.IH)
qed auto

lemma first_match_Some:
  assumes "first_match r (l, s) = Some (l', s')"
  shows "\<exists>w. w \<noteq> [] \<and> s = w @ s' \<and> l' = rev w @ l \<and> take (length s - length s') s = w \<and> (l', s') \<in> set (matches r (l, s))"
proof -
  have m: "(l', s') \<in> set (matches r (l, s))" "length s' < length s"
    using assms by (auto simp: first_match_def split: list.splits if_splits)
  then obtain w where "s = w @ s'" and "l' = rev w @ l" using matches_further [OF m(1)] by (auto simp: further_def)
  then show ?thesis using m by (intro exI [of _ w]) auto
qed

text \<open>What a replacement leaves alone: a text without a match.\<close>

fun no_match :: "regex \<Rightarrow> string \<Rightarrow> string \<Rightarrow> bool" where
  "no_match r l [] = True"
| "no_match r l (c # s) = (first_match r (l, c # s) = None \<and> no_match r (c # l) s)"

lemma sub_no_match: "no_match r l s \<Longrightarrow> sub r f l s = s"
  by (induction r l s rule: no_match.induct) auto

section \<open>Patterns that read words\<close>

text \<open>A pattern without assertions reads the texts of a set, wherever it is tried.\<close>

definition reads :: "regex \<Rightarrow> (string \<Rightarrow> bool) \<Rightarrow> bool" where
  "reads r form \<longleftrightarrow> (\<forall>l s q. q \<in> set (matches r (l, s)) \<longleftrightarrow> (\<exists>w s'. form w \<and> s = w @ s' \<and> q = (rev w @ l, s')))"

lemma reads_mono: "reads r A \<Longrightarrow> (\<And>w. A w \<longleftrightarrow> B w) \<Longrightarrow> reads r B"
  by (simp add: reads_def)

lemma reads_Empty: "reads Empty (\<lambda>w. w = [])"
  by (auto simp: reads_def)

lemma reads_One: "reads (One P) (\<lambda>w. \<exists>c. w = [c] \<and> P c)"
  by (auto simp: reads_def split: list.splits)

lemma reads_Alt: "reads r A \<Longrightarrow> reads r' B \<Longrightarrow> reads (Alt r r') (\<lambda>w. A w \<or> B w)"
  unfolding reads_def matches.simps set_append by (metis (no_types, lifting) Un_iff)

lemma reads_Seq:
  assumes "reads r A" and "reads r' B"
  shows "reads (Seq r r') (\<lambda>w. \<exists>a b. w = a @ b \<and> A a \<and> B b)"
  unfolding reads_def
proof (intro allI iffI)
  fix l s q
  assume "q \<in> set (matches (Seq r r') (l, s))"
  then obtain p where "p \<in> set (matches r (l, s))" and q: "q \<in> set (matches r' p)" by auto
  then obtain a s1 where "A a" "s = a @ s1" and p: "p = (rev a @ l, s1)" using assms(1) unfolding reads_def by blast
  moreover obtain b s2 where "B b" "s1 = b @ s2" "q = (rev b @ rev a @ l, s2)"
    using q assms(2) unfolding reads_def p by blast
  ultimately show "\<exists>w s'. (\<exists>a b. w = a @ b \<and> A a \<and> B b) \<and> s = w @ s' \<and> q = (rev w @ l, s')"
    by (intro exI [of _ "a @ b"] exI [of _ s2]) auto
next
  fix l s q
  assume "\<exists>w s'. (\<exists>a b. w = a @ b \<and> A a \<and> B b) \<and> s = w @ s' \<and> q = (rev w @ l, s')"
  then obtain a b s' where "A a" "B b" and s: "s = a @ b @ s'" and q: "q = (rev b @ rev a @ l, s')" by auto
  then have "(rev a @ l, b @ s') \<in> set (matches r (l, s))" and "q \<in> set (matches r' (rev a @ l, b @ s'))"
    using assms unfolding reads_def by blast+
  then show "q \<in> set (matches (Seq r r') (l, s))" by auto
qed

lemma reads_times: "reads (times n (One P)) (\<lambda>w. length w = n \<and> list_all P w)"
proof (induction n)
  case 0
  then show ?case using reads_Empty by (simp add: reads_def)
next
  case (Suc n)
  have "(\<exists>a b. w = a @ b \<and> (\<exists>c. a = [c] \<and> P c) \<and> length b = n \<and> list_all P b) \<longleftrightarrow>
      length w = Suc n \<and> list_all P w" for w
  proof
    assume w: "length w = Suc n \<and> list_all P w"
    then obtain c b where "w = [c] @ b" by (cases w) auto
    then show "\<exists>a b. w = a @ b \<and> (\<exists>c. a = [c] \<and> P c) \<and> length b = n \<and> list_all P b"
      using w by (intro exI [of _ "[c]"] exI [of _ b]) auto
  qed auto
  then show ?case using reads_mono [OF reads_Seq [OF reads_One Suc]] by simp
qed

definition as_word :: "regex \<Rightarrow> regex" where
  "as_word r = seqs [word_boundary, r, word_boundary]"

text \<open>
  An occurrence of a text of a form as a word, that is with a character on either side
  that is no word character; \<open>pw\<close> tells whether a word character comes before the text.
\<close>

definition side_before :: "bool \<Rightarrow> string \<Rightarrow> bool" where
  "side_before pw a = (if a = [] then pw else is_word (last a))"

lemma side_before_False: "side_before False a \<longleftrightarrow> word_side (head (rev a))"
  by (cases a rule: rev_cases) (simp_all add: side_before_def word_side_def head_def)

definition occurs :: "(string \<Rightarrow> bool) \<Rightarrow> bool \<Rightarrow> string \<Rightarrow> bool" where
  "occurs form pw s \<longleftrightarrow> (\<exists>a w b. s = a @ w @ b \<and> form w \<and> \<not> side_before pw a \<and> \<not> word_side (head b))"

definition occurs_here :: "(string \<Rightarrow> bool) \<Rightarrow> bool \<Rightarrow> string \<Rightarrow> bool" where
  "occurs_here form pw s \<longleftrightarrow> \<not> pw \<and> (\<exists>w b. s = w @ b \<and> form w \<and> \<not> word_side (head b))"

text \<open>The forms of interest start and end with a word character and have no bracket or underscore.\<close>

definition word_form :: "(string \<Rightarrow> bool) \<Rightarrow> bool" where
  "word_form form \<longleftrightarrow> (\<forall>w. form w \<longrightarrow> w \<noteq> [] \<and> is_word (hd w) \<and> is_word (last w) \<and>
     CHR ''['' \<notin> set w \<and> CHR '']'' \<notin> set w \<and> CHR ''_'' \<notin> set w)"

lemma word_formD: "word_form form \<Longrightarrow> form w \<Longrightarrow> w \<noteq> [] \<and> is_word (hd w) \<and> is_word (last w) \<and>
     CHR ''['' \<notin> set w \<and> CHR '']'' \<notin> set w \<and> CHR ''_'' \<notin> set w"
  by (simp add: word_form_def)

lemma head_simps [simp]: "head [] = None" "head (c # s) = Some c"
  by (simp_all add: head_def)

lemma word_side_simps [simp]: "\<not> word_side None" "word_side (Some c) = is_word c"
  by (simp_all add: word_side_def)

lemma occurs_Nil: "word_form form \<Longrightarrow> \<not> occurs form pw []"
  by (auto simp: occurs_def dest: word_formD)

lemma occurs_Cons: "occurs form pw (c # s) \<longleftrightarrow> occurs_here form pw (c # s) \<or> occurs form (is_word c) s"
proof
  assume "occurs form pw (c # s)"
  then obtain a w b where o: "c # s = a @ w @ b" "form w" "\<not> side_before pw a" "\<not> word_side (head b)" by (auto simp: occurs_def)
  show "occurs_here form pw (c # s) \<or> occurs form (is_word c) s"
  proof (cases a)
    case Nil
    then show ?thesis using o by (auto simp: occurs_here_def side_before_def)
  next
    case (Cons d a')
    then have "\<not> side_before (is_word c) a'" using o by (auto simp: side_before_def split: if_splits)
    then show ?thesis using o Cons by (auto simp: occurs_def)
  qed
next
  assume "occurs_here form pw (c # s) \<or> occurs form (is_word c) s"
  then show "occurs form pw (c # s)"
  proof
    assume "occurs_here form pw (c # s)"
    then obtain w b where "\<not> pw" "c # s = w @ b" "form w" "\<not> word_side (head b)" by (auto simp: occurs_here_def)
    then show ?thesis unfolding occurs_def by (intro exI [of _ "[]"] exI [of _ w] exI [of _ b]) (simp add: side_before_def)
  next
    assume "occurs form (is_word c) s"
    then obtain a w b where "s = a @ w @ b" "form w" "\<not> side_before (is_word c) a" "\<not> word_side (head b)" by (auto simp: occurs_def)
    then show ?thesis unfolding occurs_def
      by (intro exI [of _ "c # a"] exI [of _ w] exI [of _ b]) (auto simp: side_before_def split: if_splits)
  qed
qed

lemma occurs_append: "occurs form (word_side (head (rev u @ l))) s \<Longrightarrow> occurs form (word_side (head l)) (u @ s)"
proof (induction u arbitrary: l)
  case (Cons c u)
  then show ?case using Cons.IH [of "c # l"] by (simp add: occurs_Cons)
qed simp

lemma occurs_skip:
  "word_form form \<Longrightarrow> c \<in> {CHR ''['', CHR '']'', CHR ''_''} \<Longrightarrow> occurs form pw (c # s) \<Longrightarrow> occurs form (is_word c) s"
  by (auto simp: occurs_Cons occurs_here_def Cons_eq_append_conv dest: word_formD)

lemma occurs_in_word: "list_all is_word u \<Longrightarrow> occurs form True (u @ s) \<Longrightarrow> occurs form True s"
  by (induction u) (auto simp: occurs_Cons occurs_here_def)

lemma occurs_word:
  assumes "word_form form" and "list_all is_word s"
  shows "occurs form False s \<longleftrightarrow> form s"
proof
  assume "form s"
  then show "occurs form False s" unfolding occurs_def
    by (intro exI [of _ "[]"] exI [of _ s]) (simp add: side_before_def)
next
  assume o: "occurs form False s"
  then obtain c t where s: "s = c # t" using occurs_Nil [OF assms(1)] by (cases s) auto
  have "\<not> occurs form True t"
    using occurs_in_word [of t form "[]"] occurs_Nil [OF assms(1)] assms(2) s by auto
  then have "occurs_here form False s" using o assms(2) s by (auto simp: occurs_Cons)
  then obtain w b where "s = w @ b" "form w" "\<not> word_side (head b)" by (auto simp: occurs_here_def)
  moreover from this(1,3) have "b = []" using assms(2) by (cases b) auto
  ultimately show "form s" by simp
qed

section \<open>Words of a form\<close>

lemma at_boundary: "matches word_boundary p = (if word_side (head (fst p)) \<noteq> word_side (head (snd p)) then [p] else [])"
  by (cases p) (simp add: word_boundary_def)

text \<open>A pattern that reads the words of a form; taken as a word it finds their occurrences.\<close>

locale word_pattern =
  fixes r :: regex and form :: "string \<Rightarrow> bool"
  assumes reads_form: "reads r form"
    and form_word: "word_form form"
begin

lemma match_iff:
  "q \<in> set (matches (as_word r) (l, s)) \<longleftrightarrow>
     (\<exists>w s'. form w \<and> s = w @ s' \<and> q = (rev w @ l, s') \<and> \<not> word_side (head l) \<and> \<not> word_side (head s'))"
proof -
  have ends: "word_side (head (w @ b))" "word_side (head (rev w @ a))" if "form w" for w a b
  proof -
    have w: "w \<noteq> []" "is_word (hd w)" "is_word (last w)" using word_formD [OF form_word that] by auto
    then show "word_side (head (w @ b))" by (cases w) auto
    show "word_side (head (rev w @ a))" using w by (cases w rule: rev_cases) auto
  qed
  have "q \<in> set (matches (as_word r) (l, s)) \<longleftrightarrow>
      word_side (head l) \<noteq> word_side (head s) \<and>
      (\<exists>x \<in> set (matches r (l, s)). word_side (head (fst x)) \<noteq> word_side (head (snd x)) \<and> q = x)"
    by (auto simp: as_word_def at_boundary split: if_splits)
  also have "\<dots> \<longleftrightarrow> word_side (head l) \<noteq> word_side (head s) \<and>
      (\<exists>w s'. form w \<and> s = w @ s' \<and> word_side (head (rev w @ l)) \<noteq> word_side (head s') \<and> q = (rev w @ l, s'))"
    using reads_form unfolding reads_def by fastforce
  also have "\<dots> \<longleftrightarrow> (\<exists>w s'. form w \<and> s = w @ s' \<and> q = (rev w @ l, s') \<and> \<not> word_side (head l) \<and> \<not> word_side (head s'))"
    using ends by blast
  finally show ?thesis .
qed

lemma form_not_Nil: "\<not> form []"
  using word_formD [OF form_word] by blast

lemma first_match_None: "first_match (as_word r) (l, s) = None \<longleftrightarrow> \<not> occurs_here form (word_side (head l)) s"
proof (cases "matches (as_word r) (l, s)")
  case Nil
  then have "\<not> occurs_here form (word_side (head l)) s"
    using match_iff [of _ l s] unfolding occurs_here_def by fastforce
  then show ?thesis using Nil by (simp add: first_match_def)
next
  case (Cons q qs)
  then have "q \<in> set (matches (as_word r) (l, s))" by simp
  then obtain w s' where w: "form w" "s = w @ s'" "q = (rev w @ l, s')" "\<not> word_side (head l)" "\<not> word_side (head s')"
    using match_iff by blast
  then have "w \<noteq> []" using form_not_Nil by auto
  then show ?thesis using Cons w by (auto simp: first_match_def occurs_here_def)
qed

lemma first_match_word:
  assumes "first_match (as_word r) (l, s) = Some (l', s')"
  obtains w where "form w" "s = w @ s'" "l' = rev w @ l" "\<not> word_side (head l)" "\<not> word_side (head s')"
proof -
  have "(l', s') \<in> set (matches (as_word r) (l, s))" using first_match_Some [OF assms] by blast
  then show thesis using match_iff that by auto
qed

text \<open>A search finds the first occurrence.\<close>

lemma search_word:
  "case search (as_word r) l s of
     None \<Rightarrow> \<not> occurs form (word_side (head l)) s
   | Some (b, m, c) \<Rightarrow> \<exists>b'. b = rev l @ b' \<and> s = b' @ m @ c \<and> form m \<and> \<not> word_side (head (rev b)) \<and> \<not> word_side (head c) \<and>
       (\<forall>b1 m1 c1. s = b1 @ m1 @ c1 \<longrightarrow> form m1 \<longrightarrow> \<not> side_before (word_side (head l)) b1 \<longrightarrow> \<not> word_side (head c1) \<longrightarrow> length b' \<le> length b1)"
proof (induction s arbitrary: l)
  case Nil
  then show ?case using occurs_Nil [OF form_word] by simp
next
  case (Cons c s)
  show ?case
  proof (cases "first_match (as_word r) (l, c # s)")
    case None
    then have none: "\<not> occurs_here form (word_side (head l)) (c # s)" by (simp add: first_match_None)
    have later: "\<exists>b2. b1 = c # b2 \<and> s = b2 @ m1 @ c1 \<and> \<not> side_before (is_word c) b2"
      if "c # s = b1 @ m1 @ c1" "form m1" "\<not> side_before (word_side (head l)) b1" "\<not> word_side (head c1)" for b1 m1 c1
    proof (cases b1)
      case Nil
      then show ?thesis using that none by (auto simp: occurs_here_def side_before_def)
    next
      case (Cons d b2)
      then show ?thesis using that by (auto simp: side_before_def split: if_splits)
    qed
    show ?thesis
    proof (cases "search (as_word r) (c # l) s")
      case None
      then show ?thesis using Cons.IH [of "c # l"] none \<open>first_match (as_word r) (l, c # s) = None\<close> by (simp add: occurs_Cons)
    next
      case (Some bmc)
      obtain b m d where bmc: "bmc = (b, m, d)" by (cases bmc)
      obtain b' where ih: "b = rev (c # l) @ b'" "s = b' @ m @ d" "form m" "\<not> word_side (head (rev b))" "\<not> word_side (head d)"
        and first: "\<And>b1 m1 c1. s = b1 @ m1 @ c1 \<Longrightarrow> form m1 \<Longrightarrow> \<not> side_before (is_word c) b1 \<Longrightarrow> \<not> word_side (head c1) \<Longrightarrow>
          length b' \<le> length b1"
        using Cons.IH [of "c # l"] Some bmc by auto
      have "length (c # b') \<le> length b1"
        if "c # s = b1 @ m1 @ c1" "form m1" "\<not> side_before (word_side (head l)) b1" "\<not> word_side (head c1)" for b1 m1 c1
      proof -
        from later [OF that] obtain b2 where b2: "b1 = c # b2" "s = b2 @ m1 @ c1" "\<not> side_before (is_word c) b2" by blast
        show ?thesis using first [OF b2(2) that(2) b2(3) that(4)] b2(1) by simp
      qed
      then show ?thesis using ih Some bmc None by (auto intro!: exI [of _ "c # b'"])
    qed
  next
    case (Some q)
    obtain l' s' where q: "q = (l', s')" by (cases q)
    obtain w where w: "form w" "c # s = w @ s'" "\<not> word_side (head l)" "\<not> word_side (head s')"
      using first_match_word Some unfolding q by metis
    then have "take (length (c # s) - length s') (c # s) = w" by simp
    then have "search (as_word r) l (c # s) = Some (rev l, w, s')" using Some q by simp
    then show ?thesis using w by simp
  qed
qed

end

end
