(* ===== verification/Logging.thy ===== *)
theory Logging
  imports PanHandler Regex
begin

text \<open>
  \<open>observability/logging_config.py\<close>: the processors of a log line, among them the one
  that censors identifiers, the configuration of the loggers, and the context bound to
  the lines of a run. The processors and the context store of structlog are parameters.
\<close>

section \<open>Processors\<close>

type_synonym event = "(string \<times> pyval) list"

definition setdefault :: "string \<Rightarrow> pyval \<Rightarrow> event \<Rightarrow> event" where
  "setdefault k v ev = (if dict_get k ev = None then ev @ [(k, v)] else ev)"

definition add_log_level :: "string \<Rightarrow> event \<Rightarrow> event" where
  "add_log_level method ev = dict_set ''level'' (PStr (upper method)) ev"

definition add_service_context :: "env_items \<Rightarrow> event \<Rightarrow> event" where
  "add_service_context env ev =
     setdefault ''version'' (PStr (get_or ''APP_VERSION'' env ''1.0.0''))
       (setdefault ''env'' (PStr (get_or ''APP_ENV'' env ''development''))
         (setdefault ''service'' (PStr ''complianceloop'') ev))"

definition drop_color_message :: "event \<Rightarrow> event" where
  "drop_color_message ev = filter (\<lambda>(k, _). k \<noteq> ''color_message'') ev"

definition pan_pattern :: regex where
  "pan_pattern = as_word (Seq (times 5 (One is_upper_az)) (Seq (times 4 (One is_digit)) (One is_upper_az)))"

definition separator :: "char \<Rightarrow> bool" where
  "separator c \<longleftrightarrow> is_space c \<or> c = CHR ''-''"

definition aadhaar_pattern :: regex where
  "aadhaar_pattern =
     (let four = times 4 (One is_digit); sep = opt (One separator)
      in as_word (Seq four (Seq sep (Seq four (Seq sep four)))))"

definition key_pattern :: regex where
  "key_pattern = as_word (times 64 (One (\<lambda>c. hexval c \<noteq> None)))"

definition censor_text :: "string \<Rightarrow> string" where
  "censor_text v =
     (let v1 = sub pan_pattern (\<lambda>_. ''[PAN_REDACTED]'') [] v;
          v2 = sub aadhaar_pattern (\<lambda>_. ''[AADHAAR_REDACTED]'') [] v1
      in sub key_pattern (\<lambda>_. ''[KEY_REDACTED]'') [] v2)"

definition censor_value :: "pyval \<Rightarrow> pyval" where
  "censor_value v = (case v of PStr t \<Rightarrow> PStr (censor_text t) | _ \<Rightarrow> v)"

definition censor_sensitive_fields :: "event \<Rightarrow> event" where
  "censor_sensitive_fields ev = map (\<lambda>(k, v). (k, censor_value v)) ev"

text \<open>What structlog provides.\<close>

record structlog =
  sl_merge_contextvars :: "event \<Rightarrow> event"
  sl_set_exc_info :: "event \<Rightarrow> event"
  sl_time_stamper :: "event \<Rightarrow> event"
  sl_stack_info :: "event \<Rightarrow> event"
  sl_format_exc_info :: "event \<Rightarrow> event"
  sl_json_renderer :: "event \<Rightarrow> string"
  sl_console_renderer :: "event \<Rightarrow> string"

definition own_processors :: "structlog \<Rightarrow> env_items \<Rightarrow> string \<Rightarrow> (event \<Rightarrow> event) list" where
  "own_processors lib env method =
     [sl_merge_contextvars lib, add_log_level method, add_service_context env, censor_sensitive_fields, drop_color_message]"

definition build_processors :: "structlog \<Rightarrow> env_items \<Rightarrow> string \<Rightarrow> bool \<Rightarrow> (event \<Rightarrow> event) list" where
  "build_processors lib env method json_output =
     own_processors lib env method @ (if \<not> json_output then [sl_set_exc_info lib] else []) @
       [sl_time_stamper lib, sl_stack_info lib, sl_format_exc_info lib]"

definition run_processors :: "(event \<Rightarrow> event) list \<Rightarrow> event \<Rightarrow> event" where
  "run_processors ps ev = foldl (\<lambda>e p. p e) ev ps"

definition log_line :: "structlog \<Rightarrow> env_items \<Rightarrow> string \<Rightarrow> bool \<Rightarrow> event \<Rightarrow> string" where
  "log_line lib env method json_output ev =
     (if json_output then sl_json_renderer lib else sl_console_renderer lib)
       (run_processors (build_processors lib env method json_output) ev)"

section \<open>Configuration\<close>

definition level_numbers :: "(string \<times> nat) list" where
  "level_numbers = [(''CRITICAL'', 50), (''FATAL'', 50), (''ERROR'', 40), (''WARN'', 30), (''WARNING'', 30),
     (''INFO'', 20), (''DEBUG'', 10), (''NOTSET'', 0)]"

text \<open>
  The renderer and smallest level of structlog, and the levels of the loggers of the
  standard library, once they are configured.
\<close>

record log_state =
  ls_structlog :: "(bool \<times> nat) option"
  ls_loggers :: "(string \<times> string) list option"

definition logger_levels :: "bool \<Rightarrow> string \<Rightarrow> (string \<times> string) list" where
  "logger_levels json_output log_level =
     [('''', log_level), (''sqlalchemy.engine'', if json_output then ''WARNING'' else log_level),
      (''sqlalchemy.pool'', ''WARNING''), (''alembic'', ''INFO''), (''httpx'', ''WARNING''),
      (''uvicorn.access'', if \<not> json_output then ''INFO'' else ''WARNING''), (''celery'', log_level),
      (''celery.task'', log_level), (''scrapy'', ''WARNING'')]"

text \<open>\<open>dictConfig\<close> raises for a level the module \<open>logging\<close> does not know.\<close>

definition dict_config :: "(string \<times> string) list \<Rightarrow> (log_state, unit) step" where
  "dict_config levels s =
     (case filter (\<lambda>(_, level). map_of level_numbers level = None) levels of
        (name, _) # _ \<Rightarrow> (Raise (ValueError (''Unable to configure logger '' @ quoted name)), s)
      | [] \<Rightarrow> (Ok (), s\<lparr>ls_loggers := Some levels\<rparr>))"

definition json_output_for :: "env_items \<Rightarrow> bool" where
  "json_output_for env \<longleftrightarrow> lower (get_or ''APP_ENV'' env ''development'') \<in> {''production'', ''staging''}"

definition configure_logging :: "env_items \<Rightarrow> (log_state, unit) step" where
  "configure_logging env s =
     (let json_output = json_output_for env;
          log_level = upper (get_or ''LOG_LEVEL'' env ''INFO'');
          min_level = (case map_of level_numbers log_level of Some n \<Rightarrow> n | None \<Rightarrow> 20)
      in dict_config (logger_levels json_output log_level) (s\<lparr>ls_structlog := Some (json_output, min_level)\<rparr>))"

section \<open>Context of a run\<close>

text \<open>The context store of structlog: bind, unbind, clear and the bound values.\<close>

record 'c contextvars =
  cv_bind :: "event \<Rightarrow> 'c \<Rightarrow> 'c"
  cv_unbind :: "string \<Rightarrow> 'c \<Rightarrow> 'c"
  cv_clear :: "'c \<Rightarrow> 'c"
  cv_get :: "'c \<Rightarrow> string \<Rightarrow> pyval option"

definition bind_pipeline_context ::
  "'c contextvars \<Rightarrow> string \<Rightarrow> string \<Rightarrow> string \<Rightarrow> bool \<Rightarrow> bool \<Rightarrow> int \<Rightarrow> 'c \<Rightarrow> 'c" where
  "bind_pipeline_context cv correlation_id application_id guideline_version_id is_retro_eval is_demo run_number =
     cv_bind cv [(''correlation_id'', PStr correlation_id), (''application_id'', PStr application_id),
       (''guideline_version_id'', PStr guideline_version_id), (''is_retro_eval'', PBool is_retro_eval),
       (''is_demo'', PBool is_demo), (''run_number'', PInt run_number)]"

definition bind_agent_context :: "'c contextvars \<Rightarrow> string \<Rightarrow> 'c \<Rightarrow> 'c" where
  "bind_agent_context cv agent_name = cv_bind cv [(''agent_name'', PStr agent_name)]"

definition unbind_agent_context :: "'c contextvars \<Rightarrow> 'c \<Rightarrow> 'c" where
  "unbind_agent_context cv = cv_unbind cv ''agent_name''"

definition clear_pipeline_context :: "'c contextvars \<Rightarrow> 'c \<Rightarrow> 'c" where
  "clear_pipeline_context cv = cv_clear cv"

text \<open>
  The configuration succeeds exactly for the levels the module \<open>logging\<close> knows; structlog
  is configured in any case, and debug lines of SQL statements are off in production.
\<close>

lemma known_levels: "map_of level_numbers ''WARNING'' = Some 30" "map_of level_numbers ''INFO'' = Some 20"
  by (simp_all add: level_numbers_def)

lemma dict_config_levels:
  "map_of level_numbers l = Some n \<Longrightarrow>
     dict_config (logger_levels j l) s = (Ok (), s\<lparr>ls_loggers := Some (logger_levels j l)\<rparr>)"
  "map_of level_numbers l = None \<Longrightarrow> dict_config (logger_levels j l) s = (Raise (ValueError (''Unable to configure logger '' @ quoted [])), s)"
  by (simp_all add: dict_config_def logger_levels_def known_levels)

lemma engine_level: "map_of (logger_levels True l) ''sqlalchemy.engine'' = Some ''WARNING''"
  by (simp add: logger_levels_def)

lemma configure_logging_iff:
  "is_ok (fst (configure_logging env s)) \<longleftrightarrow> map_of level_numbers (upper (get_or ''LOG_LEVEL'' env ''INFO'')) \<noteq> None"
  "ls_structlog (snd (configure_logging env s)) \<noteq> None"
  "json_output_for env \<Longrightarrow> ls_loggers (snd (configure_logging env s)) \<in> {ls_loggers s} \<union>
     {Some l | l. map_of l ''sqlalchemy.engine'' = Some ''WARNING''}"
  by (cases "map_of level_numbers (upper (get_or ''LOG_LEVEL'' env ''INFO''))";
      simp add: configure_logging_def Let_def dict_config_levels engine_level)+

section \<open>Replacing words\<close>

text \<open>The token put in for a word: in brackets, with an underscore between letters.\<close>

locale redaction = word_pattern +
  fixes u v :: string
  assumes token_letters: "list_all is_word u" "list_all is_word v"
begin

abbreviation token :: string where
  "token \<equiv> CHR ''['' # u @ CHR ''_'' # v @ [CHR '']'']"

abbreviation redact :: "string \<Rightarrow> string \<Rightarrow> string" where
  "redact l s \<equiv> sub (as_word r) (\<lambda>_. token) l s"

lemma token_free:
  assumes "word_form f" and "occurs f pw (token @ t)"
  shows "occurs f False t"
proof -
  have brackets: "\<not> is_word CHR ''[''" "\<not> is_word CHR '']''" "is_word CHR ''_''"
    by (simp_all add: is_word_def code_point_def)
  have "occurs f False (u @ CHR ''_'' # v @ CHR '']'' # t)"
    using occurs_skip [OF assms(1), of "CHR ''[''"] assms(2) brackets by simp
  moreover have "occurs f True (v @ CHR '']'' # t)" if "occurs f False (u' @ CHR ''_'' # v @ CHR '']'' # t)" "list_all is_word u'" for u'
  proof (cases u')
    case Nil
    then show ?thesis using that occurs_skip [OF assms(1), of "CHR ''_''"] brackets by simp
  next
    case (Cons c u'')
    have "\<not> occurs_here f False (u' @ CHR ''_'' # v @ CHR '']'' # t)"
    proof
      assume "occurs_here f False (u' @ CHR ''_'' # v @ CHR '']'' # t)"
      then obtain w b where wb: "u' @ CHR ''_'' # v @ CHR '']'' # t = w @ b" "f w" "\<not> word_side (head b)"
        by (auto simp: occurs_here_def)
      then have "CHR ''_'' \<notin> set w" using word_formD [OF assms(1)] by blast
      then obtain u2 where "u' = w @ u2" and "b = u2 @ CHR ''_'' # v @ CHR '']'' # t"
        using wb(1) by (auto simp: append_eq_append_conv2 append_eq_Cons_conv Cons_eq_append_conv)
      then show False using wb(3) that(2) brackets by (cases u2) auto
    qed
    then have "occurs f True (u'' @ CHR ''_'' # v @ CHR '']'' # t)" using that Cons by (simp add: occurs_Cons)
    then have "occurs f True (CHR ''_'' # v @ CHR '']'' # t)" using that(2) Cons by (auto intro: occurs_in_word)
    then show ?thesis using occurs_skip [OF assms(1), of "CHR ''_''"] brackets by simp
  qed
  ultimately have "occurs f True (v @ CHR '']'' # t)" using token_letters(1) by blast
  then have "occurs f True (CHR '']'' # t)" using token_letters(2) occurs_in_word by blast
  then show ?thesis using occurs_skip [OF assms(1), of "CHR '']''"] brackets by simp
qed

text \<open>A word that starts the result where nothing was replaced starts the text too.\<close>

lemma word_kept:
  "redact l s = w @ b \<Longrightarrow> CHR ''['' \<notin> set w \<Longrightarrow> w \<noteq> [] \<Longrightarrow> is_word (last w) \<Longrightarrow> \<not> word_side (head b) \<Longrightarrow>
     \<exists>b'. s = w @ b' \<and> \<not> word_side (head b')"
proof (induction s arbitrary: l w)
  case (Cons c s)
  have none: "first_match (as_word r) (l, c # s) = None"
  proof (rule ccontr)
    assume "first_match (as_word r) (l, c # s) \<noteq> None"
    then show False using Cons.prems by (cases w) auto
  qed
  then obtain w2 where w: "w = c # w2" and out: "redact (c # l) s = w2 @ b" using Cons.prems by (cases w) auto
  show ?case
  proof (cases "w2 = []")
    case True
    then have c: "is_word c" using Cons.prems(4) w by simp
    have "\<not> word_side (head s)"
    proof (cases s)
      case (Cons d s2)
      have "first_match (as_word r) (c # l, s) = None"
        using c first_match_word [of "c # l" s] by (cases "first_match (as_word r) (c # l, s)") auto
      then have "head b = Some d" using out True Cons by auto
      then show ?thesis using Cons.prems(5) Cons by simp
    qed simp
    then show ?thesis using w True by simp
  next
    case False
    then show ?thesis using Cons.IH [OF out] Cons.prems w by auto
  qed
qed simp

lemma redacted:
  "word_form f \<Longrightarrow> pw = word_side (head l) \<or> \<not> word_side (head s) \<Longrightarrow> occurs f pw (redact l s) \<Longrightarrow>
     occurs f (word_side (head l)) s \<and> (\<exists>w. f w \<and> \<not> form w)"
proof (induction "length s" arbitrary: l s pw rule: less_induct)
  case less
  show ?case
  proof (cases s)
    case Nil
    then show ?thesis using less.prems occurs_Nil by auto
  next
    case (Cons c t)
    show ?thesis
    proof (cases "first_match (as_word r) (l, s)")
      case (Some q)
      obtain l' s' where q: "q = (l', s')" by (cases q)
      obtain w where w: "form w" "s = w @ s'" "l' = rev w @ l" "\<not> word_side (head s')"
        using first_match_word Some unfolding q by metis
      have "redact l s = token @ redact l' s'" using Some q Cons by simp
      then have "occurs f False (redact l' s')" using token_free [OF less.prems(1)] less.prems(3) by metis
      moreover have "length s' < length s" using w form_not_Nil by (cases w) auto
      ultimately have "occurs f (word_side (head l')) s' \<and> (\<exists>w. f w \<and> \<not> form w)"
        using less.hyps [of s' False l'] less.prems(1) w(4) by simp
      then show ?thesis using occurs_append w(2,3) by simp
    next
      case None
      then have out: "redact l s = c # redact (c # l) t" using Cons by simp
      consider "occurs_here f pw (c # redact (c # l) t)" | "occurs f (is_word c) (redact (c # l) t)"
        using less.prems(3) out by (auto simp: occurs_Cons)
      then show ?thesis
      proof cases
        case 1
        then obtain w b where wb: "redact l s = w @ b" "f w" "\<not> word_side (head b)" "\<not> pw" by (auto simp: occurs_here_def out)
        have word: "w \<noteq> []" "is_word (hd w)" "is_word (last w)" "CHR ''['' \<notin> set w" using word_formD [OF less.prems(1) wb(2)] by auto
        then obtain b' where b': "s = w @ b'" "\<not> word_side (head b')" using word_kept [OF wb(1)] wb(3) by blast
        then have "\<not> word_side (head l)" using less.prems(2) wb(4) word Cons by (cases w) auto
        then have here: "occurs_here g (word_side (head l)) s" if "g w" for g using b' that by (auto simp: occurs_here_def)
        moreover have "\<not> form w" using here None first_match_None by blast
        ultimately show ?thesis using wb(2) Cons by (auto simp: occurs_Cons)
      next
        case 2
        then show ?thesis using less.hyps [of t "is_word c" "c # l"] less.prems(1) Cons by (auto simp: occurs_Cons)
      qed
    qed
  qed
qed

lemma redact_nothing: "\<not> occurs form (word_side (head l)) s \<Longrightarrow> redact l s = s"
proof (induction s arbitrary: l)
  case (Cons c s)
  then have "first_match (as_word r) (l, c # s) = None" by (simp add: first_match_None occurs_Cons)
  then show ?case using Cons by (simp add: occurs_Cons)
qed simp

end

lemma is_word_digit: "is_digit c \<Longrightarrow> is_word c"
  by (simp add: is_digit_def is_word_def Let_def)

lemma is_word_upper: "is_upper_az c \<Longrightarrow> is_word c"
  by (simp add: is_upper_az_def is_word_def Let_def)

lemma is_word_hex: "hexval c \<noteq> None \<Longrightarrow> is_word c"
  by (auto simp: hexval_def is_word_def Let_def split: if_splits)

definition aadhaar_form :: "string \<Rightarrow> bool" where
  "aadhaar_form w \<longleftrightarrow> (\<exists>a s1 b s2 c. w = a @ s1 @ b @ s2 @ c \<and> (\<forall>x\<in>{a, b, c}. length x = 4 \<and> list_all is_digit x) \<and>
     (\<forall>x\<in>{s1, s2}. length x \<le> 1 \<and> list_all separator x))"

definition key_form :: "string \<Rightarrow> bool" where
  "key_form w \<longleftrightarrow> length w = 64 \<and> list_all (\<lambda>c. hexval c \<noteq> None) w"

definition identifier_char :: "char \<Rightarrow> bool" where
  "identifier_char c \<longleftrightarrow> is_digit c \<or> is_upper_az c \<or> hexval c \<noteq> None \<or> separator c"

lemma identifier_char_plain: "\<not> identifier_char CHR ''[''" "\<not> identifier_char CHR '']''" "\<not> identifier_char CHR ''_''"
  by (simp_all add: identifier_char_def is_digit_def is_upper_az_def hexval_def separator_def is_space_def code_point_def)

lemma word_formI:
  "(\<And>w. form w \<Longrightarrow> w \<noteq> [] \<and> is_word (hd w) \<and> is_word (last w) \<and> list_all identifier_char w) \<Longrightarrow> word_form form"
  using identifier_char_plain by (auto simp: word_form_def list_all_iff)

lemma list_all_weaken: "list_all P w \<Longrightarrow> (\<And>c. P c \<Longrightarrow> Q c) \<Longrightarrow> list_all Q w"
  by (simp add: list_all_iff)

lemma pan_parts:
  "(\<exists>a b. w = a @ b \<and> (length a = 5 \<and> list_all is_upper_az a) \<and>
     (\<exists>c d. b = c @ d \<and> (length c = 4 \<and> list_all is_digit c) \<and> (\<exists>x. d = [x] \<and> is_upper_az x))) \<longleftrightarrow> pan_shape w"
proof
  assume "pan_shape w"
  then have w: "length w = 10" "list_all is_upper_az (take 5 w)" "list_all is_digit (take 4 (drop 5 w))" "is_upper_az (w ! 9)"
    by (auto simp: pan_shape_def)
  have "drop 9 w = [w ! 9]" using w(1) Cons_nth_drop_Suc [of 9 w] by simp
  then have "drop 5 w = take 4 (drop 5 w) @ [w ! 9]" using append_take_drop_id [of 4 "drop 5 w"] by simp
  then show "\<exists>a b. w = a @ b \<and> (length a = 5 \<and> list_all is_upper_az a) \<and>
     (\<exists>c d. b = c @ d \<and> (length c = 4 \<and> list_all is_digit c) \<and> (\<exists>x. d = [x] \<and> is_upper_az x))"
    using w by (intro exI [of _ "take 5 w"] exI [of _ "drop 5 w"] conjI exI [of _ "take 4 (drop 5 w)"] exI [of _ "[w ! 9]"]) auto
next
  assume "\<exists>a b. w = a @ b \<and> (length a = 5 \<and> list_all is_upper_az a) \<and>
     (\<exists>c d. b = c @ d \<and> (length c = 4 \<and> list_all is_digit c) \<and> (\<exists>x. d = [x] \<and> is_upper_az x))"
  then obtain a c x where w: "w = a @ c @ [x]" "length a = 5" "length c = 4" "list_all is_upper_az a" "list_all is_digit c" "is_upper_az x"
    by blast
  then show "pan_shape w" by (simp add: pan_shape_def nth_append)
qed

lemma pan_word_form: "word_form pan_shape"
proof (rule word_formI)
  fix w assume "pan_shape w"
  then obtain a c x where w: "w = a @ c @ [x]" "length a = 5" "list_all is_upper_az a" "list_all is_digit c" "is_upper_az x"
    unfolding pan_parts [symmetric] by blast
  then show "w \<noteq> [] \<and> is_word (hd w) \<and> is_word (last w) \<and> list_all identifier_char w"
    by (cases a) (auto simp: is_word_upper identifier_char_def elim: list_all_weaken)
qed

lemma key_word_form: "word_form key_form"
proof (rule word_formI)
  fix w assume w: "key_form w"
  then have "w \<noteq> []" by (auto simp: key_form_def)
  then have "hexval (hd w) \<noteq> None" "hexval (last w) \<noteq> None" using w by (auto simp: key_form_def list_all_iff)
  then show "w \<noteq> [] \<and> is_word (hd w) \<and> is_word (last w) \<and> list_all identifier_char w"
    using w \<open>w \<noteq> []\<close> by (auto simp: key_form_def identifier_char_def is_word_hex elim: list_all_weaken)
qed

lemma aadhaar_word_form: "word_form aadhaar_form"
proof (rule word_formI)
  fix w assume "aadhaar_form w"
  then obtain a s1 b s2 c where w: "w = a @ s1 @ b @ s2 @ c" and len: "length a = 4" "length c = 4"
    and all: "list_all is_digit a" "list_all is_digit b" "list_all is_digit c" "list_all separator s1" "list_all separator s2"
    by (auto simp: aadhaar_form_def)
  have "a \<noteq> []" "c \<noteq> []" using len by auto
  then have "is_digit (hd a)" "is_digit (last c)" using all by (auto simp: list_all_iff)
  then show "w \<noteq> [] \<and> is_word (hd w) \<and> is_word (last w) \<and> list_all identifier_char w"
    using w all \<open>a \<noteq> []\<close> \<open>c \<noteq> []\<close> by (auto simp: is_word_digit identifier_char_def elim: list_all_weaken)
qed

lemma aadhaar_parts:
  "(\<exists>a r. w = a @ r \<and> (length a = 4 \<and> list_all is_digit a) \<and>
     (\<exists>s1 r1. r = s1 @ r1 \<and> ((\<exists>c. s1 = [c] \<and> separator c) \<or> s1 = []) \<and>
     (\<exists>b r2. r1 = b @ r2 \<and> (length b = 4 \<and> list_all is_digit b) \<and>
     (\<exists>s2 c. r2 = s2 @ c \<and> ((\<exists>c. s2 = [c] \<and> separator c) \<or> s2 = []) \<and> (length c = 4 \<and> list_all is_digit c))))) \<longleftrightarrow>
   aadhaar_form w"
proof -
  have one: "(\<exists>c. x = [c] \<and> separator c) \<or> x = [] \<longleftrightarrow> length x \<le> 1 \<and> list_all separator x" for x
    by (cases x) auto
  show ?thesis unfolding one
  proof
    assume "aadhaar_form w"
    then obtain a s1 b s2 c where "w = a @ s1 @ b @ s2 @ c" "\<forall>x\<in>{a, b, c}. length x = 4 \<and> list_all is_digit x"
      "\<forall>x\<in>{s1, s2}. length x \<le> 1 \<and> list_all separator x" unfolding aadhaar_form_def by blast
    then show "\<exists>a r. w = a @ r \<and> (length a = 4 \<and> list_all is_digit a) \<and> (\<exists>s1 r1. r = s1 @ r1 \<and> (length s1 \<le> 1 \<and> list_all separator s1) \<and>
       (\<exists>b r2. r1 = b @ r2 \<and> (length b = 4 \<and> list_all is_digit b) \<and> (\<exists>s2 c. r2 = s2 @ c \<and> (length s2 \<le> 1 \<and> list_all separator s2) \<and>
       (length c = 4 \<and> list_all is_digit c))))"
      apply -
      apply (rule exI [of _ "a"], rule exI [of _ "s1 @ b @ s2 @ c"])
      apply (intro conjI, simp, simp, simp)
      apply (rule exI [of _ "s1"], rule exI [of _ "b @ s2 @ c"])
      apply (intro conjI, simp, simp, simp)
      apply (rule exI [of _ "b"], rule exI [of _ "s2 @ c"])
      apply (intro conjI, simp, simp, simp)
      apply (rule exI [of _ "s2"], rule exI [of _ "c"])
      apply simp
      done
  next
    assume "\<exists>a r. w = a @ r \<and> (length a = 4 \<and> list_all is_digit a) \<and> (\<exists>s1 r1. r = s1 @ r1 \<and> (length s1 \<le> 1 \<and> list_all separator s1) \<and>
       (\<exists>b r2. r1 = b @ r2 \<and> (length b = 4 \<and> list_all is_digit b) \<and> (\<exists>s2 c. r2 = s2 @ c \<and> (length s2 \<le> 1 \<and> list_all separator s2) \<and>
       (length c = 4 \<and> list_all is_digit c))))"
    then obtain a r s1 r1 b r2 s2 c where "w = a @ r" "r = s1 @ r1" "r1 = b @ r2" "r2 = s2 @ c"
      "length a = 4" "list_all is_digit a" "length b = 4" "list_all is_digit b" "length c = 4" "list_all is_digit c"
      "length s1 \<le> 1" "list_all separator s1" "length s2 \<le> 1" "list_all separator s2"
      by (elim exE conjE)
    then have parts: "\<forall>x\<in>{a, b, c}. length x = 4 \<and> list_all is_digit x" "\<forall>x\<in>{s1, s2}. length x \<le> 1 \<and> list_all separator x"
      and "w = a @ s1 @ b @ s2 @ c" by simp_all
    then show "aadhaar_form w" unfolding aadhaar_form_def using parts by blast
  qed
qed

interpretation pan: redaction "Seq (times 5 (One is_upper_az)) (Seq (times 4 (One is_digit)) (One is_upper_az))" pan_shape "''PAN''" "''REDACTED''"
proof
  show "reads (Seq (times 5 (One is_upper_az)) (Seq (times 4 (One is_digit)) (One is_upper_az))) pan_shape"
    by (rule reads_mono [OF reads_Seq [OF reads_times reads_Seq [OF reads_times reads_One]] pan_parts])
  show "list_all is_word ''PAN''" "list_all is_word ''REDACTED''" by code_simp+
qed (rule pan_word_form)

interpretation aadhaar: redaction
  "Seq (times 4 (One is_digit)) (Seq (opt (One separator)) (Seq (times 4 (One is_digit)) (Seq (opt (One separator)) (times 4 (One is_digit)))))"
  aadhaar_form "''AADHAAR''" "''REDACTED''"
proof
  have sep: "reads (opt (One separator)) (\<lambda>w. (\<exists>c. w = [c] \<and> separator c) \<or> w = [])"
    unfolding opt_def by (rule reads_Alt [OF reads_One reads_Empty])
  show "reads (Seq (times 4 (One is_digit)) (Seq (opt (One separator)) (Seq (times 4 (One is_digit))
      (Seq (opt (One separator)) (times 4 (One is_digit)))))) aadhaar_form"
    by (rule reads_mono [OF reads_Seq [OF reads_times reads_Seq [OF sep reads_Seq [OF reads_times reads_Seq [OF sep reads_times]]]] aadhaar_parts])
  show "list_all is_word ''AADHAAR''" "list_all is_word ''REDACTED''" by code_simp+
qed (rule aadhaar_word_form)

interpretation secret_key: redaction "times 64 (One (\<lambda>c. hexval c \<noteq> None))" key_form "''KEY''" "''REDACTED''"
proof
  show "reads (times 64 (One (\<lambda>c. hexval c \<noteq> None))) key_form"
    by (rule reads_mono [OF reads_times]) (simp add: key_form_def)
  show "list_all is_word ''KEY''" "list_all is_word ''REDACTED''" by code_simp+
qed (rule key_word_form)

lemmas identifier_forms = pan_word_form aadhaar_word_form key_word_form

lemma censor_text_clean:
  assumes "f \<in> {pan_shape, aadhaar_form, key_form}"
  shows "\<not> occurs f False (censor_text t)"
proof
  let ?v1 = "sub pan_pattern (\<lambda>_. ''[PAN_REDACTED]'') [] t"
  let ?v2 = "sub aadhaar_pattern (\<lambda>_. ''[AADHAAR_REDACTED]'') [] ?v1"
  have form: "word_form f" using assms identifier_forms by blast
  assume "occurs f False (censor_text t)"
  then have 3: "occurs f False ?v2 \<and> (\<exists>w. f w \<and> \<not> key_form w)"
    using secret_key.redacted [OF form, of False "[]" ?v2] by (simp add: censor_text_def key_pattern_def)
  then have 2: "occurs f False ?v1 \<and> (\<exists>w. f w \<and> \<not> aadhaar_form w)"
    using aadhaar.redacted [OF form, of False "[]" ?v1] by (simp add: aadhaar_pattern_def Let_def)
  then have "\<exists>w. f w \<and> \<not> pan_shape w"
    using pan.redacted [OF form, of False "[]" t] by (simp add: pan_pattern_def)
  then show False using assms 2 3 by blast
qed

lemma censor_text_same:
  assumes "\<And>f. f \<in> {pan_shape, aadhaar_form, key_form} \<Longrightarrow> \<not> occurs f False t"
  shows "censor_text t = t"
  using assms pan.redact_nothing [of "[]" t] aadhaar.redact_nothing [of "[]" t] secret_key.redact_nothing [of "[]" t]
  by (simp add: censor_text_def pan_pattern_def aadhaar_pattern_def key_pattern_def Let_def)

lemma run_processors_append: "run_processors (ps @ qs) ev = run_processors qs (run_processors ps ev)"
  by (simp add: run_processors_def)

lemma own_processors_run:
  "\<exists>ev'. run_processors (own_processors lib env method) ev = drop_color_message (censor_sensitive_fields ev')"
  by (auto simp: own_processors_def run_processors_def)

section \<open>Properties\<close>

text \<open>
  C22: No identifier reaches the renderer in a text. Whatever is logged, bound to the
  context or set in the environment, and whatever structlog merges, in each text that
  leaves the processors of this module a PAN, an Aadhaar number or a key of 64
  hexadecimal digits is next to another word character, so it is part of a longer word.
\<close>

theorem log_shows_no_identifier:
  assumes "(k, PStr t) \<in> set (run_processors (own_processors lib env method) ev)" and "t = a @ w @ b"
    and "pan_shape w \<or> aadhaar_form w \<or> key_form w"
  shows "word_side (head (rev a)) \<or> word_side (head b)"
proof (rule ccontr)
  assume alone: "\<not> ?thesis"
  obtain ev' where "(k, PStr t) \<in> set (censor_sensitive_fields ev')"
    using assms(1) own_processors_run [of lib env "method" ev] by (auto simp: drop_color_message_def)
  then obtain v where "PStr t = censor_value v" by (auto simp: censor_sensitive_fields_def)
  then obtain t' where "t = censor_text t'" by (auto simp: censor_value_def split: pyval.splits)
  moreover obtain f where "f \<in> {pan_shape, aadhaar_form, key_form}" and "f w" using assms(3) by blast
  moreover from this(2) have "occurs f False t"
    using alone assms(2) unfolding occurs_def
    by (intro exI [of _ a] exI [of _ w] exI [of _ b]) (auto simp: side_before_def word_side_def head_def last_rev split: list.splits)
  ultimately show False using censor_text_clean by blast
qed

text \<open>
  Censoring changes nothing else: an event without an identifier in its texts is left
  as it is, so that censoring twice is censoring once.
\<close>

theorem censor_idempotent:
  "censor_sensitive_fields (censor_sensitive_fields ev) = censor_sensitive_fields ev \<and>
   ((\<forall>(k, v)\<in>set ev. \<forall>t f. v = PStr t \<longrightarrow> f \<in> {pan_shape, aadhaar_form, key_form} \<longrightarrow> \<not> occurs f False t) \<longrightarrow>
     censor_sensitive_fields ev = ev)"
proof
  have "censor_text (censor_text t) = censor_text t" for t
    by (rule censor_text_same) (rule censor_text_clean)
  then have "censor_value (censor_value v) = censor_value v" for v by (simp add: censor_value_def split: pyval.splits)
  then show "censor_sensitive_fields (censor_sensitive_fields ev) = censor_sensitive_fields ev"
    by (simp add: censor_sensitive_fields_def case_prod_beta)
  show "(\<forall>(k, v)\<in>set ev. \<forall>t f. v = PStr t \<longrightarrow> f \<in> {pan_shape, aadhaar_form, key_form} \<longrightarrow> \<not> occurs f False t) \<longrightarrow>
     censor_sensitive_fields ev = ev"
  proof
    assume none: "\<forall>(k, v)\<in>set ev. \<forall>t f. v = PStr t \<longrightarrow> f \<in> {pan_shape, aadhaar_form, key_form} \<longrightarrow> \<not> occurs f False t"
    have "(\<lambda>(k, v). (k, censor_value v)) x = x" if "x \<in> set ev" for x
    proof (cases x)
      case (Pair k v)
      then show ?thesis using none that by (auto simp: censor_value_def split: pyval.splits intro!: censor_text_same)
    qed
    then show "censor_sensitive_fields ev = ev" unfolding censor_sensitive_fields_def by (simp add: map_idI)
  qed
qed

section \<open>What is not censored\<close>

text \<open>
  Only the texts at the top of an event are looked at, only upper case PANs that stand
  alone are found, and what structlog writes after the censoring, the text of an
  exception above all, is not looked at.
\<close>

lemma nested_identifier_kept: "censor_sensitive_fields [(k, PDict [(k', PStr t)])] = [(k, PDict [(k', PStr t)])]"
  by (simp add: censor_sensitive_fields_def censor_value_def)

lemma aadhaar_starts: "aadhaar_form w \<Longrightarrow> is_digit (hd w)"
  by (auto simp: aadhaar_form_def list_all_iff hd_append)

lemma censor_whole_word:
  assumes "list_all is_word t" and "\<not> pan_shape t" and "\<not> aadhaar_form t" and "\<not> key_form t"
  shows "censor_text t = t"
  using assms occurs_word [OF _ assms(1)] identifier_forms by (intro censor_text_same) auto

lemma lower_case_pan_kept: "validate_pan_format ''abcpe1234f'' \<and> censor_text ''abcpe1234f'' = ''abcpe1234f''"
proof
  show "validate_pan_format ''abcpe1234f''" by code_simp
  have "list_all is_word ''abcpe1234f''" "\<not> pan_shape ''abcpe1234f''" "\<not> is_digit (hd ''abcpe1234f'')" by code_simp+
  then show "censor_text ''abcpe1234f'' = ''abcpe1234f''"
    using aadhaar_starts [of "''abcpe1234f''"] by (intro censor_whole_word) (auto simp: key_form_def)
qed

lemma exception_text_kept:
  "run_processors (build_processors lib env method True) ev =
     sl_format_exc_info lib (sl_stack_info lib (sl_time_stamper lib (run_processors (own_processors lib env method) ev)))"
  by (simp add: build_processors_def run_processors_append) (simp add: run_processors_def)

section \<open>Witnesses\<close>

definition plain_structlog :: structlog where
  "plain_structlog = \<lparr>sl_merge_contextvars = id, sl_set_exc_info = id, sl_time_stamper = id, sl_stack_info = id,
     sl_format_exc_info = id, sl_json_renderer = (\<lambda>_. []), sl_console_renderer = (\<lambda>_. [])\<rparr>"

lemma sample_pan: "pan_shape ''ABCPE1234F''"
  by code_simp

lemma sample_joined: "censor_text ''x_ABCPE1234F'' = ''x_ABCPE1234F''"
proof -
  have "list_all is_word ''x_ABCPE1234F''" by code_simp
  moreover have "\<not> f ''x_ABCPE1234F''" if "word_form f" for f using word_formD [OF that, of "''x_ABCPE1234F''"] by auto
  ultimately show ?thesis using identifier_forms by (intro censor_whole_word)
qed

text \<open>A PAN that is left has a word character beside it.\<close>

theorem log_shows_no_identifier_witness:
  "(''m'', PStr ''x_ABCPE1234F'') \<in> set (run_processors (own_processors plain_structlog [] ''info'') [(''m'', PStr ''x_ABCPE1234F'')]) \<and>
   (word_side (head (rev ''x_'')) \<or> word_side (head []))"
proof
  show kept: "(''m'', PStr ''x_ABCPE1234F'') \<in> set (run_processors (own_processors plain_structlog [] ''info'') [(''m'', PStr ''x_ABCPE1234F'')])"
    using sample_joined
    by (simp add: run_processors_def own_processors_def plain_structlog_def add_log_level_def add_service_context_def setdefault_def
        dict_get_def censor_sensitive_fields_def censor_value_def drop_color_message_def)
  show "word_side (head (rev ''x_'')) \<or> word_side (head [])"
    by (rule log_shows_no_identifier [OF kept, of "''x_''" "''ABCPE1234F''" "[]"]) (simp_all add: sample_pan)
qed

end
