(* ===== verification/CeleryApp.thy ===== *)
theory CeleryApp
  imports Logging Secrets
begin

text \<open>
  \<open>workers/queues.py\<close>, \<open>workers/schedules.py\<close> and \<open>workers/celery_app.py\<close>: the queues and
  routes, the periodic tasks, the configuration of the Celery application, and the
  handlers that run when a worker starts and around each task. The queues the workers
  of \<open>docker-compose.yml\<close> consume are part of it. Lines and metrics that a handler only
  writes are left out.
\<close>

section \<open>Queues\<close>

record celery_queue =
  q_name :: string
  q_exchange :: string
  q_routing_key :: string
  q_max_priority :: "nat option"
  q_dead_letter :: "(string \<times> string) option"
  q_message_ttl :: "nat option"

definition default_exchange :: string where
  "default_exchange = ''complianceloop''"

definition dlx_exchange :: string where
  "dlx_exchange = ''complianceloop.dlx''"

definition work_queue :: "string \<Rightarrow> nat \<Rightarrow> nat \<Rightarrow> celery_queue" where
  "work_queue name prio ttl =
     \<lparr>q_name = name, q_exchange = default_exchange, q_routing_key = name, q_max_priority = Some prio,
      q_dead_letter = Some (''complianceloop.dlx'', name @ ''.dead''), q_message_ttl = Some ttl\<rparr>"

definition dead_queue :: "string \<Rightarrow> celery_queue" where
  "dead_queue name =
     \<lparr>q_name = name, q_exchange = dlx_exchange, q_routing_key = name, q_max_priority = None, q_dead_letter = None,
      q_message_ttl = None\<rparr>"

definition pipeline_queue :: celery_queue where
  "pipeline_queue = work_queue ''pipeline'' 10 300000"

definition retro_eval_queue :: celery_queue where
  "retro_eval_queue = work_queue ''retro_eval'' 5 3600000"

definition scraper_queue :: celery_queue where
  "scraper_queue = work_queue ''scraper'' 3 43200000"

definition notifications_queue :: celery_queue where
  "notifications_queue = work_queue ''notifications'' 8 86400000"

definition calibration_queue :: celery_queue where
  "calibration_queue = work_queue ''calibration'' 1 86400000"

definition dead_letter_queues :: "celery_queue list" where
  "dead_letter_queues = map dead_queue
     [''pipeline.dead'', ''retro_eval.dead'', ''scraper.dead'', ''notifications.dead'', ''calibration.dead'']"

definition all_queues :: "celery_queue list" where
  "all_queues = [pipeline_queue, retro_eval_queue, scraper_queue, notifications_queue, calibration_queue] @ dead_letter_queues"

definition task_routes :: "(string \<times> string) list" where
  "task_routes =
     [(''pipeline.tasks.run_pipeline'', ''pipeline''), (''pipeline.tasks.run_pipeline_sync'', ''pipeline''),
      (''retro_eval.tasks.retro_eval_single'', ''retro_eval''), (''retro_eval.tasks.enqueue_retro_eval_batch'', ''retro_eval''),
      (''scraper.tasks.scrape_rbi_circulars'', ''scraper''), (''scraper.tasks.scrape_rbi_kyc'', ''scraper''),
      (''scraper.tasks.scrape_dpdp_portal'', ''scraper''), (''scraper.tasks.scrape_mca_notifications'', ''scraper''),
      (''scraper.tasks.scrape_all'', ''scraper''), (''scraper.tasks.update_watchlists'', ''scraper''),
      (''scraper.tasks.update_watchlist_unsc'', ''scraper''), (''scraper.tasks.update_watchlist_ofac'', ''scraper''),
      (''scraper.tasks.update_watchlist_mha'', ''scraper''),
      (''workers.notification_worker.deliver_notification'', ''notifications''),
      (''workers.notification_worker.poll_outbox'', ''notifications''),
      (''calibration.tasks.run_nightly_calibration'', ''calibration''), (''calibration.tasks.update_drift_stats'', ''calibration''),
      (''dpdp.retention_enforcer.run_retention_wipe'', ''calibration''), (''audit.s3_uploader.retry_pending_uploads'', ''calibration'')]"

section \<open>Periodic tasks\<close>

text \<open>An interval in seconds, or an hour and a minute of every day as \<open>crontab\<close> gets them.\<close>

datatype beat_time = Every int | Daily string string

record beat_entry =
  be_task :: string
  be_schedule :: beat_time
  be_queue :: string
  be_expires :: int
  be_kwargs :: "(string \<times> pyval) list"

definition env_int :: "env_items \<Rightarrow> string \<Rightarrow> string \<Rightarrow> int result" where
  "env_int env var dflt = py_int (get_or var env dflt)"

definition hours :: "env_items \<Rightarrow> string \<Rightarrow> nat \<Rightarrow> int result" where
  "hours env env_var dflt = env_int env env_var (nat_str dflt)"

definition minutes :: "env_items \<Rightarrow> string \<Rightarrow> nat \<Rightarrow> int result" where
  "minutes env env_var dflt = env_int env env_var (nat_str dflt)"

definition entry_at :: "string \<Rightarrow> beat_time result \<Rightarrow> string \<Rightarrow> int \<Rightarrow> (string \<times> pyval) list \<Rightarrow> beat_entry result" where
  "entry_at task time q expires kwargs =
     rbind time (\<lambda>t. Ok \<lparr>be_task = task, be_schedule = t, be_queue = q, be_expires = expires, be_kwargs = kwargs\<rparr>)"

definition seconds_of :: "int \<Rightarrow> int result \<Rightarrow> beat_time result" where
  "seconds_of unit_seconds n = rbind n (\<lambda>i. Ok (Every (i * unit_seconds)))"

definition daily_at :: "env_items \<Rightarrow> string \<Rightarrow> beat_time result" where
  "daily_at env minute = rbind (env_int env ''CALIBRATION_RUN_HOUR'' ''2'') (\<lambda>h. Ok (Daily (int_str h) minute))"

fun evaluated :: "('k \<times> 'v result) list \<Rightarrow> ('k \<times> 'v) list result" where
  "evaluated [] = Ok []"
| "evaluated ((k, r) # rs) = rbind r (\<lambda>v. rbind (evaluated rs) (\<lambda>vs. Ok ((k, v) # vs)))"

definition beat_entries :: "env_items \<Rightarrow> (string \<times> beat_entry result) list" where
  "beat_entries env =
     [(''scrape-rbi-circulars'', entry_at ''scraper.tasks.scrape_rbi_circulars''
         (seconds_of 3600 (hours env ''SCRAPER_INTERVAL_RBI_HOURS'' 6)) ''scraper'' (3600 * 5) [(''source'', PStr ''rbi_circulars'')]),
      (''scrape-rbi-kyc'', entry_at ''scraper.tasks.scrape_rbi_kyc''
         (seconds_of 3600 (hours env ''SCRAPER_INTERVAL_KYC_HOURS'' 12)) ''scraper'' (3600 * 11) [(''source'', PStr ''rbi_kyc'')]),
      (''scrape-dpdp-portal'', entry_at ''scraper.tasks.scrape_dpdp_portal''
         (seconds_of 3600 (hours env ''SCRAPER_INTERVAL_DPDP_HOURS'' 12)) ''scraper'' (3600 * 11) [(''source'', PStr ''dpdp_portal'')]),
      (''scrape-mca-notifications'', entry_at ''scraper.tasks.scrape_mca_notifications''
         (seconds_of 3600 (hours env ''SCRAPER_INTERVAL_MCA_HOURS'' 24)) ''scraper'' (3600 * 23) [(''source'', PStr ''mca'')]),
      (''update-watchlists-unsc-ofac'', entry_at ''scraper.tasks.update_watchlists''
         (seconds_of 1 (env_int env ''WATCHLIST_UPDATE_INTERVAL_UN'' ''21600'')) ''scraper'' (21600 - 300)
         [(''lists'', PList [PStr ''unsc'', PStr ''ofac''])]),
      (''update-watchlist-mha'', entry_at ''scraper.tasks.update_watchlists''
         (seconds_of 1 (env_int env ''WATCHLIST_UPDATE_INTERVAL_MHA'' ''86400'')) ''scraper'' (86400 - 600) [(''lists'', PList [PStr ''mha''])]),
      (''nightly-calibration'', entry_at ''calibration.tasks.run_nightly_calibration'' (daily_at env ''0'') ''calibration'' 3600 []),
      (''confidence-drift-stats'', entry_at ''calibration.tasks.update_drift_stats'' (daily_at env ''30'') ''calibration'' 3600 []),
      (''dpdp-retention-enforcement'', entry_at ''dpdp.retention_enforcer.run_retention_wipe'' (Ok (Daily ''3'' ''0'')) ''calibration'' 7200 []),
      (''retry-pending-minio-uploads'', entry_at ''audit.s3_uploader.retry_pending_uploads''
         (seconds_of 60 (minutes env ''MINIO_RETRY_INTERVAL_MINUTES'' 30)) ''calibration'' 1500 []),
      (''poll-notification-outbox'', entry_at ''workers.notification_worker.poll_outbox''
         (seconds_of 1 (minutes env ''NOTIFICATION_POLL_INTERVAL_SECONDS'' 60)) ''notifications'' 55 []),
      (''update-faiss-index-age-gauge'', entry_at ''scraper.tasks.update_faiss_index_age_gauge''
         (seconds_of 60 (minutes env ''FAISS_AGE_GAUGE_INTERVAL_MINUTES'' 15)) ''scraper'' 840 []),
      (''update-retro-eval-queue-depth'', entry_at ''retro_eval.tasks.update_queue_depth_gauge''
         (seconds_of 60 (minutes env ''RETRO_EVAL_DEPTH_GAUGE_INTERVAL_MINUTES'' 5)) ''calibration'' 240 []),
      (''update-notification-outbox-pending-gauge'', entry_at ''workers.notification_worker.update_outbox_pending_gauge''
         (Ok (Every 300)) ''notifications'' 240 []),
      (''nightly-postgres-backup'', entry_at ''workers.notification_worker.noop_task'' (Ok (Daily ''1'' ''0'')) ''calibration'' 3600 [])]"

definition beat_schedule :: "env_items \<Rightarrow> (string \<times> beat_entry) list result" where
  "beat_schedule env = evaluated (beat_entries env)"

section \<open>The application\<close>

definition celery_imports :: "string list" where
  "celery_imports = [''workers.notification_worker'']"

text \<open>The tasks that the decorators of a module register.\<close>

definition module_tasks :: "string \<Rightarrow> string list" where
  "module_tasks m = (if m = ''workers.notification_worker''
     then [''workers.notification_worker.poll_outbox'', ''workers.notification_worker.deliver_notification'',
       ''workers.notification_worker.update_outbox_pending_gauge'', ''workers.notification_worker.noop_task'']
     else [])"

definition registered_tasks :: "string list" where
  "registered_tasks = concat (map module_tasks celery_imports)"

definition task_default_queue :: string where
  "task_default_queue = ''pipeline''"

text \<open>The queue of a message: the one it is sent with, that of its route, or the default.\<close>

definition queue_of :: "string option \<Rightarrow> string \<Rightarrow> string" where
  "queue_of option task = (case option of Some q \<Rightarrow> q | None \<Rightarrow>
     (case map_of task_routes task of Some q \<Rightarrow> q | None \<Rightarrow> task_default_queue))"

definition create_celery_app :: "env_items \<Rightarrow> (string \<times> pyval) list result" where
  "create_celery_app env =
     rbind (env_int env ''CELERY_TASK_SOFT_TIME_LIMIT'' ''120'') (\<lambda>soft_limit.
     rbind (env_int env ''CELERY_TASK_TIME_LIMIT'' ''180'') (\<lambda>limit.
     rbind (env_int env ''CELERY_TASK_MAX_RETRIES'' ''3'') (\<lambda>retries.
     rbind (env_int env ''CELERY_WORKER_CONCURRENCY'' ''4'') (\<lambda>concurrency.
     Ok [(''broker_url'', PStr (get_or ''CELERY_BROKER_URL'' env ''redis://:changeme@localhost:6379/2'')),
         (''result_backend'', PStr (get_or ''CELERY_RESULT_BACKEND'' env ''redis://:changeme@localhost:6379/3'')),
         (''broker_connection_retry_on_startup'', PBool True), (''broker_connection_retry'', PBool True),
         (''broker_connection_max_retries'', PInt 10), (''task_serializer'', PStr ''json''), (''result_serializer'', PStr ''json''),
         (''accept_content'', PList [PStr ''json'']), (''event_serializer'', PStr ''json''),
         (''task_queues'', PList (map (PStr \<circ> q_name) all_queues)),
         (''task_routes'', PDict (map (\<lambda>(t, q). (t, PDict [(''queue'', PStr q)])) task_routes)),
         (''task_default_queue'', PStr task_default_queue), (''task_default_exchange'', PStr ''complianceloop''),
         (''task_default_routing_key'', PStr ''pipeline''), (''task_always_eager'', PBool False), (''task_eager_propagates'', PBool True),
         (''task_acks_late'', PBool True), (''task_reject_on_worker_lost'', PBool True), (''worker_prefetch_multiplier'', PInt 1),
         (''task_soft_time_limit'', PInt soft_limit), (''task_time_limit'', PInt limit), (''task_max_retries'', PInt retries),
         (''result_expires'', PInt 3600), (''result_persistent'', PBool True), (''task_track_started'', PBool True),
         (''task_send_sent_event'', PBool True), (''worker_concurrency'', PInt concurrency), (''worker_max_tasks_per_child'', PInt 1000),
         (''worker_disable_rate_limits'', PBool False), (''beat_scheduler'', PStr ''celery.beat:PersistentScheduler''),
         (''beat_schedule_filename'', PStr ''/tmp/celerybeat-schedule''), (''timezone'', PStr ''UTC''), (''enable_utc'', PBool True),
         (''imports'', PList (map PStr celery_imports)), (''worker_hijack_root_logger'', PBool False), (''worker_log_color'', PBool False),
         (''result_chord_retry_interval'', PBool False)]))))"

text \<open>The options \<open>--queues\<close> of the two workers of \<open>docker-compose.yml\<close>.\<close>

definition main_worker_queues :: "string list" where
  "main_worker_queues = [''pipeline'', ''retro_eval'', ''notifications'']"

definition scraper_worker_queues :: "string list" where
  "scraper_worker_queues = [''scraper'']"

definition consumed :: "string \<Rightarrow> bool" where
  "consumed q \<longleftrightarrow> q \<in> set (main_worker_queues @ scraper_worker_queues)"

definition entry_runs :: "beat_entry \<Rightarrow> bool" where
  "entry_runs e \<longleftrightarrow> consumed (be_queue e) \<and> be_task e \<in> set registered_tasks"

section \<open>Handlers\<close>

text \<open>
  A worker that cannot load its secrets does not start; a failed configuration of the
  observability is only a warning. The tracing setup never raises.
\<close>

record worker =
  wk_proc :: proc
  wk_log :: log_state

definition setup_observability :: "env_items \<Rightarrow> (log_state, unit) step" where
  "setup_observability env = configure_logging env"

definition on_worker_init :: "vault \<Rightarrow> (worker, unit) step" where
  "on_worker_init v s =
     (case load_secrets v (wk_proc s) of
        (Inl e, p) \<Rightarrow> (Raise (RuntimeError (''Worker startup failed: could not load secrets: '' @ exn_text e)), s\<lparr>wk_proc := p\<rparr>)
      | (Inr _, p) \<Rightarrow> (Ok (), s\<lparr>wk_proc := p, wk_log := snd (setup_observability (os_environ p) (wk_log s))\<rparr>))"

definition on_task_prerun :: "'c contextvars \<Rightarrow> string \<Rightarrow> string \<Rightarrow> 'c \<Rightarrow> 'c" where
  "on_task_prerun cv task_id task_name = cv_bind cv [(''celery_task_id'', PStr task_id), (''celery_task_name'', PStr task_name)]"

definition on_task_postrun :: "'c contextvars \<Rightarrow> 'c \<Rightarrow> 'c" where
  "on_task_postrun cv = clear_pipeline_context cv"

section \<open>What the schedule reaches\<close>

lemma entry_at_Ok_iff:
  "entry_at task time q expires kwargs = Ok e \<longleftrightarrow>
     (\<exists>t. time = Ok t \<and> e = \<lparr>be_task = task, be_schedule = t, be_queue = q, be_expires = expires, be_kwargs = kwargs\<rparr>)"
  by (auto simp: entry_at_def rbind_Inr_iff)

lemma evaluated_Ok_iff:
  "evaluated rs = Ok vs \<longleftrightarrow> list_all2 (\<lambda>(k, r) (k', v). k' = k \<and> r = Ok v) rs vs"
proof (induction rs arbitrary: vs)
  case (Cons kr rs)
  obtain k r where kr: "kr = (k, r)" by (cases kr)
  show ?case
  proof
    assume "evaluated (kr # rs) = Ok vs"
    then obtain v vs' where "r = Ok v" "evaluated rs = Ok vs'" "vs = (k, v) # vs'" by (auto simp: kr rbind_Inr_iff)
    then show "list_all2 (\<lambda>(k, r) (k', v). k' = k \<and> r = Ok v) (kr # rs) vs" using Cons by (simp add: kr)
  next
    assume "list_all2 (\<lambda>(k, r) (k', v). k' = k \<and> r = Ok v) (kr # rs) vs"
    then obtain v vs' where "vs = (k, v) # vs'" "r = Ok v" "list_all2 (\<lambda>(k, r) (k', v). k' = k \<and> r = Ok v) rs vs'"
      by (cases vs) (auto simp: kr)
    moreover from this(3) have "evaluated rs = Ok vs'" using Cons by blast
    ultimately show "evaluated (kr # rs) = Ok vs" by (simp add: kr)
  qed
qed auto

text \<open>Task, queue and expiry of the entries do not depend on the environment.\<close>

definition beat_table :: "(string \<times> string \<times> string) list" where
  "beat_table =
  [(''scrape-rbi-circulars'', ''scraper.tasks.scrape_rbi_circulars'', ''scraper''),
   (''scrape-rbi-kyc'', ''scraper.tasks.scrape_rbi_kyc'', ''scraper''),
   (''scrape-dpdp-portal'', ''scraper.tasks.scrape_dpdp_portal'', ''scraper''),
   (''scrape-mca-notifications'', ''scraper.tasks.scrape_mca_notifications'', ''scraper''),
   (''update-watchlists-unsc-ofac'', ''scraper.tasks.update_watchlists'', ''scraper''),
   (''update-watchlist-mha'', ''scraper.tasks.update_watchlists'', ''scraper''),
   (''nightly-calibration'', ''calibration.tasks.run_nightly_calibration'', ''calibration''),
   (''confidence-drift-stats'', ''calibration.tasks.update_drift_stats'', ''calibration''),
   (''dpdp-retention-enforcement'', ''dpdp.retention_enforcer.run_retention_wipe'', ''calibration''),
   (''retry-pending-minio-uploads'', ''audit.s3_uploader.retry_pending_uploads'', ''calibration''),
   (''poll-notification-outbox'', ''workers.notification_worker.poll_outbox'', ''notifications''),
   (''update-faiss-index-age-gauge'', ''scraper.tasks.update_faiss_index_age_gauge'', ''scraper''),
   (''update-retro-eval-queue-depth'', ''retro_eval.tasks.update_queue_depth_gauge'', ''calibration''),
   (''update-notification-outbox-pending-gauge'', ''workers.notification_worker.update_outbox_pending_gauge'', ''notifications''),
   (''nightly-postgres-backup'', ''workers.notification_worker.noop_task'', ''calibration'')]"

lemma beat_schedule_table:
  assumes "beat_schedule env = Ok sched"
  shows "map (\<lambda>(n, e). (n, be_task e, be_queue e)) sched = beat_table"
  using assms unfolding beat_schedule_def evaluated_Ok_iff beat_entries_def beat_table_def
  by (auto simp: list_all2_Cons1 entry_at_Ok_iff)

definition interval_vars :: "string list" where
  "interval_vars = [''SCRAPER_INTERVAL_RBI_HOURS'', ''SCRAPER_INTERVAL_KYC_HOURS'', ''SCRAPER_INTERVAL_DPDP_HOURS'',
     ''SCRAPER_INTERVAL_MCA_HOURS'', ''WATCHLIST_UPDATE_INTERVAL_UN'', ''WATCHLIST_UPDATE_INTERVAL_MHA'',
     ''MINIO_RETRY_INTERVAL_MINUTES'', ''NOTIFICATION_POLL_INTERVAL_SECONDS'', ''FAISS_AGE_GAUGE_INTERVAL_MINUTES'',
     ''RETRO_EVAL_DEPTH_GAUGE_INTERVAL_MINUTES'']"

lemma default_seconds: "py_int ''21600'' = Ok 21600" "py_int ''86400'' = Ok 86400" "py_int ''2'' = Ok 2"
proof -
  have "nat_str 21600 = ''21600''" "nat_str 86400 = ''86400''" "nat_str 2 = ''2''" by (simp_all add: nat_str.simps hexdig_def)
  then show "py_int ''21600'' = Ok 21600" "py_int ''86400'' = Ok 86400" "py_int ''2'' = Ok 2"
    by (metis py_int_nat_str of_nat_numeral)+
qed

lemma default_intervals:
  assumes "beat_schedule env = Ok sched" and "\<forall>v\<in>set interval_vars. map_of env v = None"
  shows "map (\<lambda>(n, e). (be_schedule e, be_expires e)) (filter (\<lambda>(n, e). \<exists>i. be_schedule e = Every i) sched) =
    [(Every 21600, 18000), (Every 43200, 39600), (Every 43200, 39600), (Every 86400, 82800), (Every 21600, 21300),
     (Every 86400, 85800), (Every 1800, 1500), (Every 60, 55), (Every 900, 840), (Every 300, 240), (Every 300, 240)]"
proof -
  have unset:
    "get_or ''SCRAPER_INTERVAL_RBI_HOURS'' env d = d"
    "get_or ''SCRAPER_INTERVAL_KYC_HOURS'' env d = d"
    "get_or ''SCRAPER_INTERVAL_DPDP_HOURS'' env d = d"
    "get_or ''SCRAPER_INTERVAL_MCA_HOURS'' env d = d"
    "get_or ''WATCHLIST_UPDATE_INTERVAL_UN'' env d = d"
    "get_or ''WATCHLIST_UPDATE_INTERVAL_MHA'' env d = d"
    "get_or ''MINIO_RETRY_INTERVAL_MINUTES'' env d = d"
    "get_or ''NOTIFICATION_POLL_INTERVAL_SECONDS'' env d = d"
    "get_or ''FAISS_AGE_GAUGE_INTERVAL_MINUTES'' env d = d"
    "get_or ''RETRO_EVAL_DEPTH_GAUGE_INTERVAL_MINUTES'' env d = d" for d
    using assms(2) by (simp_all add: get_or_def interval_vars_def)
  show ?thesis
    using assms(1) unfolding beat_schedule_def evaluated_Ok_iff beat_entries_def
    by (auto simp: list_all2_Cons1 entry_at_Ok_iff seconds_of_def daily_at_def hours_def minutes_def env_int_def rbind_Inr_iff
        unset default_seconds)
qed

lemma runs_of_table:
  "map fst (filter (entry_runs \<circ> snd) sched) =
     map fst (filter (\<lambda>(n, t, q). consumed q \<and> t \<in> set registered_tasks) (map (\<lambda>(n, e). (n, be_task e, be_queue e)) sched))"
  by (induction sched) (auto simp: entry_runs_def)

section \<open>Properties\<close>

text \<open>
  C23: Of the fifteen periodic tasks only two ever run: the poll of the outbox and its
  gauge. The queue of calibrations, which the retention wipe and the retried uploads
  are sent to, has no worker, and the tasks of every other module are not registered,
  whatever the environment sets.
\<close>

theorem only_outbox_tasks_run:
  assumes "beat_schedule env = Ok sched"
  shows "map fst (filter (entry_runs \<circ> snd) sched) = [''poll-notification-outbox'', ''update-notification-outbox-pending-gauge''] \<and>
    ''dpdp-retention-enforcement'' \<in> fst ` set sched \<and> ''retry-pending-minio-uploads'' \<in> fst ` set sched"
proof -
  have "fst ` set sched = fst ` set beat_table"
    unfolding beat_schedule_table [OF assms, symmetric] by force
  moreover have "map fst (filter (\<lambda>(n, t, q). consumed q \<and> t \<in> set registered_tasks) beat_table) =
      [''poll-notification-outbox'', ''update-notification-outbox-pending-gauge'']"
    by (simp add: beat_table_def consumed_def main_worker_queues_def scraper_worker_queues_def registered_tasks_def
        celery_imports_def module_tasks_def)
  ultimately show ?thesis
    unfolding runs_of_table beat_schedule_table [OF assms] by (simp add: beat_table_def)
qed

lemma queue_names: "map q_name all_queues = [''pipeline'', ''retro_eval'', ''scraper'', ''notifications'', ''calibration'',
    ''pipeline.dead'', ''retro_eval.dead'', ''scraper.dead'', ''notifications.dead'', ''calibration.dead'']"
  by (simp add: all_queues_def pipeline_queue_def retro_eval_queue_def scraper_queue_def notifications_queue_def
      calibration_queue_def work_queue_def dead_letter_queues_def dead_queue_def)

lemma routes_agree: "\<forall>(t, q)\<in>snd ` set beat_table. map_of task_routes t \<in> {None, Some q}"
  by (simp add: beat_table_def task_routes_def)

lemma dead_letters_declared:
  "q \<in> set all_queues \<Longrightarrow> q_dead_letter q = Some (x, k) \<Longrightarrow>
     \<exists>d\<in>set all_queues. q_exchange d = x \<and> q_routing_key d = k \<and> q_dead_letter d = None"
proof -
  have "list_all (\<lambda>q. q_dead_letter q = None \<or>
      list_ex (\<lambda>d. q_dead_letter q = Some (q_exchange d, q_routing_key d) \<and> q_dead_letter d = None) all_queues) all_queues"
    by (simp add: all_queues_def pipeline_queue_def retro_eval_queue_def scraper_queue_def notifications_queue_def
        calibration_queue_def work_queue_def dead_letter_queues_def dead_queue_def dlx_exchange_def)
  moreover assume "q \<in> set all_queues" "q_dead_letter q = Some (x, k)"
  ultimately show ?thesis by (fastforce simp: list_all_iff list_ex_iff)
qed

text \<open>
  Every message has a queue. Each periodic task and each route names a declared queue,
  a task with a route is scheduled on the queue of its route, queues have distinct
  names, and what a work queue rejects goes to a declared queue of the dead letter
  exchange.
\<close>

theorem messages_have_queue:
  assumes "beat_schedule env = Ok sched"
  shows "be_queue ` snd ` set sched \<union> snd ` set task_routes \<union> {task_default_queue} \<subseteq> q_name ` set all_queues \<and>
    (\<forall>e\<in>snd ` set sched. map_of task_routes (be_task e) \<in> {None, Some (be_queue e)}) \<and> distinct (map q_name all_queues) \<and>
    (\<forall>q\<in>set all_queues. \<forall>x k. q_dead_letter q = Some (x, k) \<longrightarrow>
       (\<exists>d\<in>set all_queues. q_exchange d = x \<and> q_routing_key d = k \<and> q_dead_letter d = None))"
proof (intro conjI)
  have rows: "(\<lambda>e. (be_task e, be_queue e)) ` snd ` set sched = snd ` set beat_table"
    unfolding beat_schedule_table [OF assms, symmetric] by force
  have names: "q_name ` set all_queues = set (map q_name all_queues)" by simp
  have "snd ` snd ` set beat_table \<union> snd ` set task_routes \<union> {task_default_queue} \<subseteq> q_name ` set all_queues"
    unfolding names queue_names by (simp add: beat_table_def task_routes_def task_default_queue_def)
  moreover have "be_queue ` snd ` set sched = snd ` snd ` set beat_table"
    unfolding rows [symmetric] by (simp add: image_image)
  ultimately show "be_queue ` snd ` set sched \<union> snd ` set task_routes \<union> {task_default_queue} \<subseteq> q_name ` set all_queues" by simp
  show "\<forall>e\<in>snd ` set sched. map_of task_routes (be_task e) \<in> {None, Some (be_queue e)}"
    using routes_agree unfolding rows [symmetric] by auto
  show "distinct (map q_name all_queues)" unfolding queue_names by simp
qed (use dead_letters_declared in blast)

text \<open>
  No periodic task piles up: with the default intervals each message expires before
  the next one of its task is sent.
\<close>

theorem schedule_no_pileup:
  assumes "beat_schedule env = Ok sched" and "\<forall>v\<in>set interval_vars. map_of env v = None"
    and "(n, e) \<in> set sched" and "be_schedule e = Every i"
  shows "0 < be_expires e \<and> be_expires e < i"
proof -
  have "(Every i, be_expires e) \<in>
      set (map (\<lambda>(n, e). (be_schedule e, be_expires e)) (filter (\<lambda>(n, e). \<exists>i. be_schedule e = Every i) sched))"
    using assms(3,4) by force
  then show ?thesis unfolding default_intervals [OF assms(1,2)] by auto
qed

section \<open>The context of a task\<close>

text \<open>What structlog documents of its context store.\<close>

definition contextvars_law :: "'c contextvars \<Rightarrow> bool" where
  "contextvars_law cv \<longleftrightarrow>
     (\<forall>kvs c k. cv_get cv (cv_bind cv kvs c) k = (case map_of (rev kvs) k of Some v \<Rightarrow> Some v | None \<Rightarrow> cv_get cv c k)) \<and>
     (\<forall>n c k. cv_get cv (cv_unbind cv n c) k = (if k = n then None else cv_get cv c k)) \<and>
     (\<forall>c k. cv_get cv (cv_clear cv c) k = None)"

text \<open>A task as its worker runs it; the body may bind what it likes.\<close>

definition run_task :: "'c contextvars \<Rightarrow> string \<times> string \<times> ('c \<Rightarrow> 'c) \<Rightarrow> 'c \<Rightarrow> 'c" where
  "run_task cv = (\<lambda>(task_id, task_name, body) c. on_task_postrun cv (body (on_task_prerun cv task_id task_name c)))"

text \<open>
  C24: No context leaks from one task to the next. Whatever the earlier tasks of a worker
  bound, a task starts with its own id and name and nothing else; a run binds its
  correlation id and ends with it, and the name of an agent is gone when it is unbound.
\<close>

theorem task_context_fresh:
  assumes "contextvars_law cv" and "\<forall>k. cv_get cv c0 k = None"
  shows "cv_get cv (on_task_prerun cv task_id task_name (fold (run_task cv) tasks c0)) k =
      (if k = ''celery_task_id'' then Some (PStr task_id) else if k = ''celery_task_name'' then Some (PStr task_name) else None) \<and>
    cv_get cv (bind_pipeline_context cv cid aid gid retro demo run_no c) ''correlation_id'' = Some (PStr cid) \<and>
    cv_get cv (clear_pipeline_context cv c) k = None \<and>
    cv_get cv (unbind_agent_context cv (bind_agent_context cv agent c)) k = (if k = ''agent_name'' then None else cv_get cv c k)"
proof -
  have "\<forall>k. cv_get cv (fold (run_task cv) tasks c0) k = None"
  proof (cases tasks rule: rev_cases)
    case (snoc ts t)
    then show ?thesis using assms(1)
      by (simp add: run_task_def on_task_postrun_def clear_pipeline_context_def contextvars_law_def split: prod.splits)
  qed (use assms(2) in simp)
  then show ?thesis using assms(1)
    by (simp add: on_task_prerun_def bind_pipeline_context_def clear_pipeline_context_def unbind_agent_context_def
        bind_agent_context_def contextvars_law_def)
qed

text \<open>
  A level that the module \<open>logging\<close> does not know does not fall back to INFO: the
  configuration raises, and a worker starts with only structlog configured.
\<close>

lemma unknown_level_not_configured:
  assumes "map_of level_numbers (upper (get_or ''LOG_LEVEL'' (os_environ p) ''INFO'')) = None"
    and "load_secrets v (wk_proc s) = (Ok (), p)"
  shows "\<not> is_ok (fst (configure_logging (os_environ p) l)) \<and>
    (\<exists>s'. on_worker_init v s = (Ok (), s') \<and> ls_loggers (wk_log s') = ls_loggers (wk_log s) \<and>
       ls_structlog (wk_log s') = Some (json_output_for (os_environ p), 20))"
  using assms by (simp add: on_worker_init_def setup_observability_def configure_logging_def Let_def dict_config_def logger_levels_def)

section \<open>Witnesses\<close>

definition dict_contextvars :: "event contextvars" where
  "dict_contextvars = \<lparr>cv_bind = (\<lambda>kvs c. rev kvs @ c), cv_unbind = (\<lambda>n c. filter (\<lambda>(k, _). k \<noteq> n) c), cv_clear = (\<lambda>c. []),
     cv_get = map_of\<rparr>"

lemma dict_contextvars_law: "contextvars_law dict_contextvars"
proof -
  have "map_of (filter (\<lambda>(k, _). k \<noteq> n) c) k = (if k = n then None else map_of c k)" for n k and c :: event
    by (induction c) auto
  then show ?thesis by (simp add: contextvars_law_def dict_contextvars_def map_add_def split: option.splits)
qed

lemma default_schedule: "\<exists>sched. beat_schedule [] = Ok sched"
  by (simp add: beat_schedule_def beat_entries_def entry_at_def seconds_of_def hours_def minutes_def env_int_def daily_at_def get_or_def
      default_seconds)

theorem only_outbox_tasks_run_witness:
  "\<exists>sched. beat_schedule [] = Ok sched \<and>
     map fst (filter (entry_runs \<circ> snd) sched) = [''poll-notification-outbox'', ''update-notification-outbox-pending-gauge'']"
  using default_schedule only_outbox_tasks_run by blast

theorem messages_have_queue_witness: "\<exists>sched. beat_schedule [] = Ok sched \<and> be_queue ` snd ` set sched \<subseteq> q_name ` set all_queues"
proof -
  obtain sched where "beat_schedule [] = Ok sched" using default_schedule by blast
  then show ?thesis using messages_have_queue by blast
qed

theorem task_context_fresh_witness:
  "cv_get dict_contextvars (on_task_prerun dict_contextvars ''7'' ''poll'' (fold (run_task dict_contextvars) [(''6'', ''wipe'', (\<lambda>c. (''pan'', PNone) # c))] [])) ''pan'' = None"
  using task_context_fresh [OF dict_contextvars_law, of "[]" "''7''" "''poll''" "[(''6'', ''wipe'', (\<lambda>c. (''pan'', PNone) # c))]" "''pan''"]
  by (simp add: dict_contextvars_def)

end
