(* ===== verification/Corpus.thy ===== *)
theory Corpus
  imports Chunker Regex "HOL-Library.Sublist"
begin

text \<open>
  \<open>retrieval/corpus/\<close>: from the PDF or HTML page of a circular to the text the chunker
  gets. pdfminer and BeautifulSoup are parameters. Replacements and classes for
  characters from 256 on, which texts here do not have, are left out.
\<close>

section \<open>White space\<close>

definition blank :: "char \<Rightarrow> bool" where
  "blank c \<longleftrightarrow> c = CHR '' '' \<or> c = CHR 0x09"

definition is_newline :: "char \<Rightarrow> bool" where
  "is_newline c \<longleftrightarrow> c = newline"

definition clean_final :: "string \<Rightarrow> string" where
  "clean_final text = strip (collapse is_newline 3 [newline, newline] (collapse blank 2 '' '' text))"

definition nl :: regex where
  "nl = One is_newline"

definition digits :: regex where
  "digits = plus True (One is_digit)"

section \<open>Preprocessing\<close>

text \<open>\<open>.*?\<close> with the flag \<open>DOTALL\<close>.\<close>

definition anything :: regex where
  "anything = Many False any"

definition address_block :: regex where
  "address_block = seqs [lit_i ''Reserve Bank of India'', spaces, opt (lit '',''), spaces, lit_i ''Central Office'', anything,
     lit_i ''Mumbai'', spaces, lit ''-'', spaces, lit ''400'', spaces, lit ''001'']"

definition sign_off :: regex where
  "sign_off = seqs [lit_i ''Yours'', some_spaces, lit_i ''faithfully'', anything,
     alts [lit_i ''General Manager'', lit_i ''Chief General Manager'', lit_i ''Deputy Governor'']]"

definition disclaimer :: regex where
  "disclaimer = seqs [lit_i ''This circular'', anything, lit_i ''Please'', some_spaces, lit_i ''acknowledge'', some_spaces, lit_i ''receipt'']"

definition supersession :: regex where
  "supersession = seqs [lit_i ''This Master Circular consolidates'', anything,
     alts [lit_i ''deleted'', lit_i ''cancelled'', lit_i ''withdrawn''], lit ''.'']"

definition boilerplate_patterns :: "regex list" where
  "boilerplate_patterns = [address_block, sign_off, disclaimer, supersession]"

definition toc_pattern :: regex where
  "toc_pattern = seqs
     [alts [seqs [lit_i ''Table'', some_spaces, lit_i ''of'', some_spaces, lit_i ''Contents''], Seq (lit_i ''CONTENT'') (opt (lit_i ''S'')),
        lit_i ''INDEX''],
      spaces, nl, at_least 3 (Seq (plus True (One (\<lambda>c. is_word c \<or> is_space c \<or> c = CHR ''.''))) nl)]"

definition acronym_expansions :: "(string \<times> string) list" where
  "acronym_expansions =
     [(''NBFC'', ''Non-Banking Financial Company (NBFC)''), (''KYC'', ''Know Your Customer (KYC)''),
      (''AML'', ''Anti-Money Laundering (AML)''), (''CFT'', ''Combating Financing of Terrorism (CFT)''),
      (''FOIR'', ''Fixed Obligation to Income Ratio (FOIR)''), (''LTV'', ''Loan to Value (LTV)''), (''NTH'', ''Net Take-Home (NTH)''),
      (''CIBIL'', ''Credit Information Bureau India Limited (CIBIL)''), (''PMLA'', ''Prevention of Money Laundering Act (PMLA)''),
      (''OVD'', ''Officially Valid Document (OVD)''), (''V-CIP'', ''Video-based Customer Identification Process (V-CIP)''),
      (''SBR'', ''Scale Based Regulation (SBR)''), (''DPDP'', ''Digital Personal Data Protection (DPDP)''),
      (''RBI'', ''Reserve Bank of India (RBI)''), (''SEBI'', ''Securities and Exchange Board of India (SEBI)''),
      (''NPA'', ''Non-Performing Asset (NPA)''), (''CRAR'', ''Capital to Risk-weighted Asset Ratio (CRAR)''),
      (''IRB'', ''Internal Ratings-Based (IRB)''), (''EMI'', ''Equated Monthly Instalment (EMI)''), (''DTI'', ''Debt-to-Income (DTI)''),
      (''PAN'', ''Permanent Account Number (PAN)''), (''UIDAI'', ''Unique Identification Authority of India (UIDAI)''),
      (''MHA'', ''Ministry of Home Affairs (MHA)''), (''OFAC'', ''Office of Foreign Assets Control (OFAC)''),
      (''FATF'', ''Financial Action Task Force (FATF)'')]"

record preprocessed_document =
  pd_text :: string
  pd_source_document_id :: string
  pd_source_url :: string
  pd_char_count :: nat
  pd_boilerplate_removed :: int
  pd_acronyms_expanded :: "string list"

definition remove_table_of_contents :: "string \<Rightarrow> string" where
  "remove_table_of_contents text = sub toc_pattern (\<lambda>_. []) [] text"

definition remove_boilerplate :: "string \<Rightarrow> string" where
  "remove_boilerplate text = foldl (\<lambda>t r. sub r (\<lambda>_. []) [] t) text boilerplate_patterns"

definition expand_acronym :: "string \<times> string list \<Rightarrow> string \<times> string \<Rightarrow> string \<times> string list" where
  "expand_acronym = (\<lambda>(text, expanded) (acronym, expansion).
     case search (as_word (lit acronym)) [] text of
       Some (before, _, after) \<Rightarrow> (before @ expansion @ after, expanded @ [acronym])
     | None \<Rightarrow> (text, expanded))"

definition expand_acronyms :: "string \<Rightarrow> string \<times> string list" where
  "expand_acronyms text = foldl expand_acronym (text, []) acronym_expansions"

text \<open>The group of each pattern is what follows the word and its white space.\<close>

definition normalise_section_numbers :: "string \<Rightarrow> string" where
  "normalise_section_numbers text =
     (let t1 = sub (seqs [word_boundary, lit ''Para'', some_spaces, digits, lit ''.'', digits])
        (\<lambda>m. ''Section '' @ dropWhile is_space (drop 4 m)) [] text
      in sub (seqs [word_boundary, lit ''Clause'', some_spaces, digits]) (\<lambda>m. ''Section '' @ dropWhile is_space (drop 6 m)) [] t1)"

definition preprocess :: "string \<Rightarrow> string \<Rightarrow> string \<Rightarrow> bool \<Rightarrow> bool \<Rightarrow> bool \<Rightarrow> preprocessed_document" where
  "preprocess text source_document_id source_url boilerplate acronyms toc =
     (let t1 = (if toc then remove_table_of_contents text else text);
          t2 = (if boilerplate then remove_boilerplate t1 else t1);
          (t3, expanded) = (if acronyms then expand_acronyms t2 else (t2, []));
          t4 = clean_final (normalise_section_numbers t3)
      in \<lparr>pd_text = t4, pd_source_document_id = source_document_id, pd_source_url = source_url, pd_char_count = length t4,
          pd_boilerplate_removed = max 0 (int (length text) - int (length t4)), pd_acronyms_expanded = expanded\<rparr>)"

section \<open>PDF\<close>

definition header_footer_patterns :: "regex list" where
  "header_footer_patterns =
     [seqs [line_start, spaces, lit_i ''Page'', some_spaces, digits, some_spaces, lit_i ''of'', some_spaces, digits, spaces, line_end],
      seqs [line_start, spaces, lit ''Reserve Bank of India'', spaces, line_end],
      seqs [line_start, spaces, lit_i ''www.rbi.org.in'', spaces, line_end],
      seqs [line_start, spaces, One is_digit, up_to 2 (One is_digit), spaces, line_end],
      seqs [lit ''RBI/'', times 4 (One is_digit), lit ''-'', times 2 (One is_digit), lit ''/'', digits]]"

definition min_extractable_chars :: nat where
  "min_extractable_chars = 100"

definition clean_extracted_text :: "string \<Rightarrow> bool \<Rightarrow> string" where
  "clean_extracted_text text strip_headers_footers =
     (let t1 = replace_str [CHR 0xA0] '' '' 0 text;
          t2 = replace_str [CHR 0xAD] [] 0 t1;
          t3 = replace_str [CHR 0x0C] [newline, newline] 0 t2;
          t4 = (if strip_headers_footers then foldl (\<lambda>t r. sub r (\<lambda>_. []) [] t) t3 header_footer_patterns else t3)
      in clean_final (sub (seqs [One is_word, lit ''-'', spaces, nl, spaces, One is_word]) (\<lambda>m. [hd m, last m]) [] t4))"

text \<open>pdfminer: None when it is not installed, else the text of a file or its exception.\<close>

definition extract_text_from_pdf :: "('b \<Rightarrow> string result) option \<Rightarrow> 'b \<Rightarrow> bool \<Rightarrow> string result" where
  "extract_text_from_pdf pdfminer source strip_headers_footers =
     (case pdfminer of
        None \<Rightarrow> Raise (OtherExn ''ImportError'' ''pdfminer.six is required for PDF extraction.'')
      | Some extract \<Rightarrow>
          (case extract source of
             Inl e \<Rightarrow> Raise (OtherExn ''PDFExtractionError'' (''pdfminer failed to extract text: '' @ exn_text e))
           | Inr raw_text \<Rightarrow>
               if length (strip raw_text) < min_extractable_chars
               then Raise (OtherExn ''ScannedPDFError'' (''PDF text extraction yielded only '' @ nat_str (length (strip raw_text)) @ '' characters.''))
               else Ok (clean_extracted_text raw_text strip_headers_footers)))"

definition extract_text_from_pdf_pages :: "('b \<Rightarrow> string list list result) option \<Rightarrow> 'b \<Rightarrow> string list result" where
  "extract_text_from_pdf_pages pdfminer source =
     (case pdfminer of
        None \<Rightarrow> Raise (OtherExn ''ImportError'' ''pdfminer.six is required.'')
      | Some extract \<Rightarrow>
          (case extract source of
             Inl e \<Rightarrow> Raise (OtherExn ''PDFExtractionError'' (''Page extraction failed: '' @ exn_text e))
           | Inr page_parts \<Rightarrow>
               let pages = map concat page_parts in
               if sum_list (map (length \<circ> strip) pages) < min_extractable_chars
               then Raise (OtherExn ''ScannedPDFError'' ''PDF appears to be scanned'') else Ok pages))"

section \<open>HTML\<close>

definition is_alpha :: "char \<Rightarrow> bool" where
  "is_alpha c =
     (let n = code_point c in
      (65 \<le> n \<and> n \<le> 90) \<or> (97 \<le> n \<and> n \<le> 122) \<or> n \<in> {170, 181, 186} \<or> (192 \<le> n \<and> n \<noteq> 215 \<and> n \<noteq> 247))"

fun split_lines :: "string \<Rightarrow> string \<Rightarrow> string list" where
  "split_lines acc [] = [rev acc]"
| "split_lines acc (c # s) = (if c = newline then rev acc # split_lines [] s else split_lines (c # acc) s)"

definition control_char :: "char \<Rightarrow> bool" where
  "control_char c =
     (let n = code_point c in n \<le> 8 \<or> n = 11 \<or> n = 12 \<or> (14 \<le> n \<and> n \<le> 31) \<or> n = 127)"

definition keep_line :: "string \<Rightarrow> bool" where
  "keep_line line \<longleftrightarrow> 3 < length (strip line) \<or> (strip line \<noteq> [] \<and> is_alpha (hd (strip line)))"

definition clean_html_text :: "string \<Rightarrow> string" where
  "clean_html_text text =
     (let t1 = replace_str [CHR 0xAD] [] 0 (replace_str [CHR 0xA0] '' '' 0 text);
          t2 = filter (\<lambda>c. \<not> control_char c) t1;
          t3 = collapse is_newline 3 [newline, newline] (collapse blank 2 '' '' t2)
      in strip (join [newline] (filter keep_line (split_lines [] t3))))"

definition content_selectors :: "string list" where
  "content_selectors = [''div.MainContent'', ''div#MainContent'', ''div.content-body'', ''div.notification-content'', ''article'', ''main'',
     ''div.container-fluid .row'', ''body'']"

definition remove_tags :: "string list" where
  "remove_tags = [''script'', ''style'', ''nav'', ''header'', ''footer'', ''noscript'', ''iframe'', ''form'', ''button'', ''input'',
     ''aside'', ''advertisement'', ''breadcrumb'']"

definition remove_selectors :: "string list" where
  "remove_selectors = [''.navigation'', ''.nav'', ''.menu'', ''.sidebar'', ''.breadcrumb'', ''.pagination'', ''.footer'', ''.header'',
     ''#navigation'', ''#nav'', ''#menu'', ''#sidebar'', ''#footer'', ''#header'', ''.print-hide'']"

text \<open>
  What is used of BeautifulSoup: the text of an element with white space stripped, the
  same with one line per piece, the text of a tag if there is one, the elements a
  selector selects, and the document without what it selects.
\<close>

record 'e soup =
  bs_parse :: "string \<Rightarrow> 'e"
  bs_text :: "'e \<Rightarrow> string"
  bs_lines :: "'e \<Rightarrow> string"
  bs_words :: "'e \<Rightarrow> string"
  bs_find :: "'e \<Rightarrow> string \<Rightarrow> string option"
  bs_select :: "'e \<Rightarrow> string \<Rightarrow> 'e list"
  bs_without :: "string \<Rightarrow> 'e \<Rightarrow> 'e"

text \<open>\<open>max\<close> with a key: the first of the largest.\<close>

fun longest :: "('e \<Rightarrow> nat) \<Rightarrow> 'e \<Rightarrow> 'e list \<Rightarrow> 'e" where
  "longest f best [] = best"
| "longest f best (x # xs) = longest f (if f best < f x then x else best) xs"

fun find_main_content :: "'e soup \<Rightarrow> 'e \<Rightarrow> string list \<Rightarrow> 'e" where
  "find_main_content bs doc [] = doc"
| "find_main_content bs doc (sel # sels) =
     (case bs_select bs doc sel of
        [] \<Rightarrow> find_main_content bs doc sels
      | e # es \<Rightarrow>
          let best = longest (length \<circ> bs_text bs) e es in
          if 200 < length (bs_text bs best) then best else find_main_content bs doc sels)"

definition extract_text_from_html :: "'e soup option \<Rightarrow> string \<Rightarrow> bool \<Rightarrow> string result" where
  "extract_text_from_html lib html extract_title =
     (if html = [] then Raise (ValueError ''Cannot extract text from empty HTML.'')
      else case lib of
        None \<Rightarrow> Raise (OtherExn ''ImportError'' ''beautifulsoup4 is required for HTML extraction.'')
      | Some bs \<Rightarrow>
          let doc = bs_parse bs html;
              title_text = (if extract_title then (case bs_find bs doc ''title'' of Some t \<Rightarrow> t | None \<Rightarrow> []) else []);
              doc' = fold (bs_without bs) (remove_tags @ remove_selectors) doc;
              raw_text = bs_lines bs (find_main_content bs doc' content_selectors)
          in if strip raw_text = [] then Ok []
             else
               let text = clean_html_text raw_text; title_clean = clean_html_text title_text
               in Ok (if title_text \<noteq> [] \<and> extract_title \<and> title_clean \<noteq> [] \<and> \<not> contains title_clean (take 200 text)
                      then title_clean @ [newline, newline] @ text else text))"

section \<open>Metadata of a circular\<close>

definition non_space :: regex where
  "non_space = One (\<lambda>c. \<not> is_space c)"

definition reference_pattern :: regex where
  "reference_pattern = seqs [lit ''RBI/'', times 4 (One is_digit), lit ''-'', Seq (times 2 (One is_digit)) (up_to 2 (One is_digit)),
     lit ''/'', digits, some_spaces, plus True non_space, plus True (Seq (lit ''/'') (plus True non_space))]"

definition date_pattern :: regex where
  "date_pattern = as_word (seqs [Seq (One is_digit) (up_to 1 (One is_digit)), some_spaces,
     alts (map lit_i [''January'', ''February'', ''March'', ''April'', ''May'', ''June'', ''July'', ''August'', ''September'',
       ''October'', ''November'', ''December'']), some_spaces, times 4 (One is_digit)])"

definition extract_circular_metadata :: "'e soup option \<Rightarrow> string \<Rightarrow> (string \<times> string) list" where
  "extract_circular_metadata lib html =
     (case lib of
        None \<Rightarrow> []
      | Some bs \<Rightarrow>
          let doc = bs_parse bs html;
              title = (case bs_find bs doc ''h1'' of Some t \<Rightarrow> Some t | None \<Rightarrow>
                (case bs_find bs doc ''h2'' of Some t \<Rightarrow> Some t | None \<Rightarrow> bs_find bs doc ''title''));
              full_text = bs_words bs doc
          in [(''circular_reference'', case search reference_pattern [] full_text of Some (_, m, _) \<Rightarrow> take 200 (strip m) | None \<Rightarrow> []),
              (''publication_date'', case search date_pattern [] full_text of Some (_, m, _) \<Rightarrow> m | None \<Rightarrow> []),
              (''effective_date'', []),
              (''title'', case title of Some t \<Rightarrow> take 200 t | None \<Rightarrow> []),
              (''department'', [])])"

section \<open>Runs of characters\<close>

text \<open>No run of \<open>n\<close> characters, when \<open>k\<close> of them come before the text.\<close>

fun no_run :: "(char \<Rightarrow> bool) \<Rightarrow> nat \<Rightarrow> nat \<Rightarrow> string \<Rightarrow> bool" where
  "no_run P n k [] = True"
| "no_run P n k (c # s) = (if P c then Suc k < n \<and> no_run P n (Suc k) s else no_run P n 0 s)"

lemma no_run_less: "no_run P n k s \<Longrightarrow> j \<le> k \<Longrightarrow> no_run P n j s"
proof (induction s arbitrary: j k)
  case (Cons c s)
  then show ?case using Cons.IH [of "Suc k" "Suc j"] by (auto split: if_splits)
qed simp

lemma no_run_more: "no_run P n k s \<Longrightarrow> n \<le> m \<Longrightarrow> no_run P m k s"
  by (induction s arbitrary: k) (auto split: if_splits)

lemma no_run_part: "no_run P n k (a @ s @ b) \<Longrightarrow> no_run P n 0 s"
proof (induction a arbitrary: k)
  case Nil
  have "no_run P n k s" if "no_run P n k (s @ b)" for k
    using that by (induction s arbitrary: k) (auto split: if_splits)
  then show ?case using Nil no_run_less by fastforce
next
  case (Cons c a)
  then show ?case by (auto split: if_splits)
qed

lemma strip_part: "\<exists>l r. s = l @ strip s @ r \<and> list_all is_space l \<and> list_all is_space r"
proof -
  let ?t = "dropWhile is_space s"
  have "?t = rev (dropWhile is_space (rev ?t)) @ rev (takeWhile is_space (rev ?t))"
    by (metis rev_append rev_rev_ident takeWhile_dropWhile_id)
  then have "s = takeWhile is_space s @ strip s @ rev (takeWhile is_space (rev ?t))"
    unfolding strip_def by (metis takeWhile_dropWhile_id)
  moreover have "list_all is_space (takeWhile is_space s)" "list_all is_space (rev (takeWhile is_space (rev ?t)))"
    by (auto simp: list_all_iff dest: set_takeWhileD)
  ultimately show ?thesis by blast
qed

lemma no_run_strip: "no_run P n 0 s \<Longrightarrow> no_run P n 0 (strip s)"
  using strip_part [of s] no_run_part by metis

lemma no_run_runs: "list_all P w \<Longrightarrow> no_run P n k (w @ s) \<longleftrightarrow> (w = [] \<or> k + length w < n) \<and> no_run P n (k + length w) s"
  by (induction w arbitrary: k) auto

lemma no_run_others: "list_all (\<lambda>c. \<not> P c) w \<Longrightarrow> w \<noteq> [] \<Longrightarrow> no_run P n k (w @ s) \<longleftrightarrow> no_run P n 0 s"
proof (induction w arbitrary: k)
  case (Cons c w)
  then show ?case by (cases "w = []") auto
qed simp

lemma no_run_fresh: "s = [] \<or> \<not> P (hd s) \<Longrightarrow> no_run P n k s \<longleftrightarrow> no_run P n 0 s"
  by (cases s) auto

lemma drop_start: "dropWhile P s = [] \<or> \<not> P (hd (dropWhile P s))"
  using hd_dropWhile by blast

lemma collapse_start: "s = [] \<or> \<not> P (hd s) \<Longrightarrow> collapse P n r s = [] \<or> \<not> P (hd (collapse P n r s))"
  by (cases s) (auto simp: Let_def)

lemma taken_run: "P c \<Longrightarrow> list_all P (c # takeWhile P s)"
  by (auto simp: list_all_iff dest: set_takeWhileD)

lemma collapse_no_run: "list_all P r \<Longrightarrow> length r < n \<Longrightarrow> no_run P n 0 (collapse P n r s)"
proof (induction P n r s rule: collapse.induct)
  case (2 P n r c s)
  show ?case
  proof (cases "P c")
    case True
    let ?w = "if n \<le> length (c # takeWhile P s) then r else c # takeWhile P s" and ?x = "collapse P n r (dropWhile P s)"
    have w: "list_all P ?w" "length ?w < n" using 2(3,4) taken_run [of P, OF True] by (auto simp del: list.pred_inject)
    have "no_run P n 0 ?x" using 2 True by simp
    moreover have "?x = [] \<or> \<not> P (hd ?x)" by (rule collapse_start) (rule drop_start)
    ultimately have "no_run P n 0 (?w @ ?x)"
      using w no_run_fresh [of ?x P n "length ?w"] by (simp only: no_run_runs [OF w(1)]) auto
    then show ?thesis using True by (simp add: Let_def)
  qed (use 2 in simp)
qed simp

lemma collapse_same: "no_run P n 0 s \<Longrightarrow> collapse P n r s = s"
proof (induction P n r s rule: collapse.induct)
  case (2 P n r c s)
  show ?case
  proof (cases "P c")
    case True
    let ?w = "c # takeWhile P s"
    have split: "c # s = ?w @ dropWhile P s" by simp
    have "no_run P n 0 (?w @ dropWhile P s)" using 2(3) split by metis
    then have "(?w = [] \<or> 0 + length ?w < n) \<and> no_run P n (0 + length ?w) (dropWhile P s)"
      by (simp only: no_run_runs [OF taken_run [of P, OF True]])
    then have "length ?w < n" and "no_run P n (length ?w) (dropWhile P s)" by auto
    then have "collapse P n r (dropWhile P s) = dropWhile P s" using 2(1) True no_run_less by blast
    then show ?thesis using True \<open>length ?w < n\<close> by (simp add: Let_def)
  qed (use 2 in simp)
qed simp

lemma collapse_keeps_no_run:
  assumes "\<And>c. P c \<Longrightarrow> \<not> Q c"
  shows "list_all P r \<Longrightarrow> r \<noteq> [] \<Longrightarrow> no_run Q m k s \<Longrightarrow> no_run Q m k (collapse P n r s)"
proof (induction "length s" arbitrary: k s rule: less_induct)
  case less
  show ?case
  proof (cases s)
    case (Cons c t)
    show ?thesis
    proof (cases "P c")
      case True
      let ?run = "c # takeWhile P t"
      let ?w = "if n \<le> length ?run then r else ?run"
      have others: "list_all (\<lambda>c. \<not> Q c) ?run" "list_all (\<lambda>c. \<not> Q c) ?w"
        using taken_run [of P, OF True] less.prems(1) assms by (auto simp: list_all_iff simp del: set_simps)
      have "no_run Q m k (?run @ dropWhile P t)" using less.prems(3) Cons by simp
      then have "no_run Q m 0 (dropWhile P t)" using no_run_others [OF others(1)] by blast
      moreover have "length (dropWhile P t) < length s" using Cons by (simp add: less_Suc_eq_le length_dropWhile_le)
      ultimately have "no_run Q m 0 (collapse P n r (dropWhile P t))" using less.hyps less.prems by blast
      moreover have "?w \<noteq> []" using less.prems(2) by simp
      ultimately have "no_run Q m k (?w @ collapse P n r (dropWhile P t))" using no_run_others [OF others(2)] by blast
      then show ?thesis using True Cons by (simp add: Let_def)
    next
      case False
      then show ?thesis using less Cons by (auto split: if_splits)
    qed
  qed simp
qed

lemma blank_or_newline: "blank c \<Longrightarrow> \<not> is_newline c" "is_newline c \<Longrightarrow> \<not> blank c"
  by (auto simp: blank_def is_newline_def)

text \<open>A clean text: white space at the ends, doubled blanks and runs of empty lines are gone.\<close>

definition clean :: "string \<Rightarrow> bool" where
  "clean t \<longleftrightarrow> no_run blank 2 0 t \<and> no_run is_newline 3 0 t \<and> strip t = t"

lemma clean_final_clean: "clean (clean_final t)"
proof -
  let ?t1 = "collapse blank 2 '' '' t"
  let ?t2 = "collapse is_newline 3 [newline, newline] ?t1"
  have "no_run blank 2 0 ?t1" by (rule collapse_no_run) (simp_all add: blank_def)
  then have "no_run blank 2 0 ?t2"
    by (intro collapse_keeps_no_run [of is_newline blank]) (simp_all add: blank_or_newline, simp add: is_newline_def)
  moreover have "no_run is_newline 3 0 ?t2" by (rule collapse_no_run) (simp_all add: is_newline_def)
  ultimately show ?thesis by (simp add: clean_def clean_final_def no_run_strip)
qed

lemma replace_absent: "c \<notin> set s \<Longrightarrow> p = c # q \<Longrightarrow> replace_str p new 0 s = s"
  by (induction s) auto

lemma newline_blank_classes: "(\<lambda>c. c = newline) = is_newline" "(\<lambda>c. c = CHR '' '' \<or> c = CHR 0x09) = blank"
  by (auto simp: is_newline_def blank_def)

lemma clean_normalised: "clean t \<Longrightarrow> CHR 0x0D \<notin> set t \<Longrightarrow> normalise_whitespace t = t"
  by (simp add: normalise_whitespace_def replace_absent newline_blank_classes clean_def collapse_same)

section \<open>Lines of an HTML page\<close>

lemma split_lines_chars: "l \<in> set (split_lines acc s) \<Longrightarrow> x \<in> set l \<Longrightarrow> x \<in> set acc \<or> x \<in> set s \<and> \<not> is_newline x"
proof (induction acc s rule: split_lines.induct)
  case (2 acc c s)
  show ?case
  proof (cases "c = newline")
    case True
    then have "l = rev acc \<or> l \<in> set (split_lines [] s)" using 2(3) by simp
    then show ?thesis using 2(1) [OF True] 2(4) by auto
  next
    case False
    then have "l \<in> set (split_lines (c # acc) s)" using 2(3) by simp
    then show ?thesis using 2(2) [OF False] 2(4) False by (auto simp: is_newline_def)
  qed
qed simp

lemma no_run_join:
  "\<forall>l\<in>set ls. l \<noteq> [] \<and> list_all (\<lambda>c. \<not> is_newline c) l \<Longrightarrow> k \<le> 1 \<Longrightarrow> no_run is_newline 2 k (join [newline] ls)"
proof (induction "[newline]" ls arbitrary: k rule: join.induct)
  case (2 x)
  then show ?case using no_run_others [of is_newline x 2 k "[]"] by simp
next
  case (3 x y ys)
  have "is_newline newline" by (simp add: is_newline_def)
  then have "no_run is_newline 2 0 (newline # join [newline] (y # ys))" using 3 by simp
  then show ?case using 3 no_run_others [of is_newline x 2 k "newline # join [newline] (y # ys)"] by simp
qed simp_all

lemma keep_line_not_Nil: "keep_line l \<Longrightarrow> l \<noteq> []"
  by (auto simp: keep_line_def strip_def)

lemma clean_html_no_empty_line: "no_run is_newline 2 0 (clean_html_text text)"
proof -
  have "no_run is_newline 2 0 (join [newline] (filter keep_line (split_lines [] t)))" for t
    by (rule no_run_join) (use split_lines_chars [of _ "[]" t] in \<open>auto simp: keep_line_not_Nil list_all_iff\<close>)
  then show ?thesis unfolding clean_html_text_def Let_def by (rule no_run_strip)
qed

lemma no_run_line: "no_run P n 0 (rev acc @ s) \<Longrightarrow> l \<in> set (split_lines acc s) \<Longrightarrow> no_run P n 0 l"
proof (induction acc s rule: split_lines.induct)
  case (2 acc c s)
  show ?case
  proof (cases "c = newline")
    case True
    have "no_run P n 0 (rev acc)" "no_run P n 0 s"
      using 2(3) no_run_part [of P n 0 "[]" "rev acc" "c # s"] no_run_part [of P n 0 "rev acc @ [c]" s "[]"] by simp_all
    then show ?thesis using 2(1) [OF True] 2(4) True by auto
  next
    case False
    then show ?thesis using 2(2) [OF False] 2(3,4) by simp
  qed
qed simp

lemma no_run_joined:
  assumes "\<not> P newline"
  shows "\<forall>l\<in>set ls. no_run P n 0 l \<Longrightarrow> no_run P n 0 (join [newline] ls)"
proof (induction "[newline]" ls rule: join.induct)
  case (3 x y ys)
  then have "no_run P n 0 x" and rest: "no_run P n 0 (newline # join [newline] (y # ys))" using assms by simp_all
  moreover have "no_run P n k (x @ newline # t)" if "no_run P n k x" "no_run P n 0 (newline # t)" for k x t
    using that assms by (induction x arbitrary: k) (auto split: if_splits)
  ultimately show ?case by simp
qed simp_all

text \<open>What cleaning a page gives is clean.\<close>

lemma clean_html_clean: "clean (clean_html_text text)"
proof -
  have b: "no_run blank 2 0 (collapse is_newline 3 [newline, newline] (collapse blank 2 '' '' t))" for t
    using collapse_no_run [of blank "'' ''" 2 t]
    by (intro collapse_keeps_no_run [of is_newline blank]) (simp_all add: blank_or_newline, simp_all add: is_newline_def blank_def)
  have "no_run blank 2 0 (join [newline] (filter keep_line (split_lines [] t)))" if "no_run blank 2 0 t" for t
    using that no_run_line [of blank 2 "[]" t] by (intro no_run_joined) (auto simp: blank_def)
  then have "no_run blank 2 0 (clean_html_text text)"
    unfolding clean_html_text_def Let_def by (intro no_run_strip) (use b in blast)
  moreover have "no_run is_newline 3 0 (clean_html_text text)"
    using no_run_more [OF clean_html_no_empty_line, of 3] by simp
  moreover have "strip (clean_html_text text) = clean_html_text text" by (simp add: clean_html_text_def Let_def)
  ultimately show ?thesis by (simp add: clean_def)
qed

lemma one_piece: "no_run is_newline 2 0 s \<Longrightarrow> paragraph_pieces acc s = [rev acc @ s]"
proof (induction s arbitrary: acc)
  case (Cons c s)
  have "\<not> (c = newline \<and> s \<noteq> [] \<and> hd s = newline)"
    using Cons.prems by (cases s) (auto simp: is_newline_def split: if_splits)
  moreover have "no_run is_newline 2 0 s" using Cons.prems no_run_less by (fastforce split: if_splits)
  ultimately show ?case using Cons.IH by auto
qed simp

lemma pieces_at_empty_line:
  "no_run is_newline 2 0 a \<Longrightarrow> a = [] \<or> last a \<noteq> newline \<Longrightarrow>
     paragraph_pieces acc (a @ newline # newline # b) = (rev acc @ a) # paragraph_pieces [] (dropWhile (\<lambda>x. x = newline) b)"
proof (induction a arbitrary: acc)
  case (Cons c a)
  have "\<not> (c = newline \<and> a @ newline # newline # b \<noteq> [] \<and> hd (a @ newline # newline # b) = newline)"
    using Cons.prems by (cases a) (auto simp: is_newline_def split: if_splits)
  moreover have "no_run is_newline 2 0 a" using Cons.prems no_run_less by (fastforce split: if_splits)
  ultimately show ?case using Cons.IH [of "c # acc"] Cons.prems(2) by (auto split: if_splits)
qed simp

lemma stripped_ends:
  assumes "strip t = t" and "t \<noteq> []"
  shows "\<not> is_space (hd t)" and "\<not> is_space (last t)"
proof -
  have "length (strip t) \<le> length (dropWhile is_space t)"
    unfolding strip_def using length_dropWhile_le [of is_space "rev (dropWhile is_space t)"] by simp
  then have "length t \<le> length (dropWhile is_space t)" using assms(1) by simp
  then show "\<not> is_space (hd t)"
    using assms(2) length_dropWhile_le [of is_space "tl t"] by (cases t) auto
  show "\<not> is_space (last t)"
    using assms unfolding strip_def by (metis hd_dropWhile last_rev rev_is_Nil_conv)
qed

lemma strip_same:
  assumes "t \<noteq> []" and "\<not> is_space (hd t)" and "\<not> is_space (last t)"
  shows "strip t = t"
proof -
  have "last t # rev (butlast t) = rev t" using arg_cong [OF append_butlast_last_id [OF assms(1)], of rev] by simp
  then have "dropWhile is_space (rev t) = rev t" using assms(3) by (metis dropWhile.simps(2))
  moreover have "dropWhile is_space t = t" using assms(1,2) by (cases t) simp_all
  ultimately show ?thesis by (simp add: strip_def)
qed

text \<open>A text of one clean piece, and one of two with an empty line between them.\<close>

lemma paragraphs_of_piece:
  assumes "clean t" and "no_run is_newline 2 0 t" and "CHR 0x0D \<notin> set t"
  shows "split_into_paragraphs (normalise_whitespace t) = filter (\<lambda>p. 20 < length p) [t]"
  using assms by (simp add: clean_normalised split_into_paragraphs_def one_piece) (auto simp: clean_def)

lemma paragraphs_of_two:
  assumes "clean a" "clean b" and "no_run is_newline 2 0 a" "no_run is_newline 2 0 b" and "a \<noteq> []"
    and "CHR 0x0D \<notin> set (a @ b)"
  shows "split_into_paragraphs (normalise_whitespace (a @ [newline, newline] @ b)) = filter (\<lambda>p. 20 < length p) [a, b]"
proof -
  let ?t = "a @ [newline, newline] @ b"
  have sp: "is_space newline" by code_simp
  have nl: "is_newline newline" "\<not> blank newline" by (simp_all add: is_newline_def blank_def)
  have ends: "\<not> is_space (hd a)" "\<not> is_space (last a)" using stripped_ends [of a] assms(1,5) by (simp_all add: clean_def)
  have b: "b = [] \<or> \<not> is_space (hd b)" "b = [] \<or> \<not> is_space (last b)"
    using stripped_ends [of b] assms(2) by (auto simp: clean_def)
  have "last a \<noteq> newline" and "b = [] \<or> hd b \<noteq> newline" using ends b sp by auto
  then have pieces: "paragraph_pieces [] ?t = [a, b]"
    using pieces_at_empty_line [OF assms(3), of "[]" b] one_piece [OF assms(4), of "[]"] by (cases b) auto
  have keep: "no_run P n k (x @ y)" if "no_run P n k x" "no_run P n 0 y" "x \<noteq> []" "\<not> P (last x)" for P n k and x y :: string
    using that by (induction x arbitrary: k) (auto split: if_splits)
  have b3: "no_run is_newline 3 0 ([newline, newline] @ b)"
  proof -
    have "b = [] \<or> \<not> is_newline (hd b)" using b(1) sp by (auto simp: is_newline_def)
    then have "no_run is_newline 3 2 b" using assms(2) no_run_fresh [of b is_newline 3 2] by (simp add: clean_def)
    then show ?thesis using nl by (simp add: numeral_eq_Suc)
  qed
  have "is_space CHR '' ''" "is_space CHR 0x09" by code_simp+
  then have other: "\<not> blank (last a)" "\<not> is_newline (last a)" using ends(2) sp by (auto simp: blank_def is_newline_def)
  have runs: "no_run blank 2 0 ?t" "no_run is_newline 3 0 ?t"
    using keep [of blank 2 0 a "[newline, newline] @ b"] keep [of is_newline 3 0 a "[newline, newline] @ b"] assms(1,2,5)
      other b3 nl by (auto simp: clean_def)
  have "CHR 0x0D \<notin> set ?t" using assms(6) by simp
  then have "replace_str [CHR 0x0D, newline] [newline] 0 ?t = ?t" "replace_str [CHR 0x0D] [newline] 0 ?t = ?t"
    by (metis replace_absent)+
  then have normal: "normalise_whitespace ?t = strip ?t"
    using runs by (simp only: normalise_whitespace_def newline_blank_classes collapse_same Let_def)
  have same: "strip a = a" "strip b = b" using assms(1,2) by (simp_all add: clean_def)
  show ?thesis
  proof (cases "b = []")
    case True
    have "dropWhile is_space ?t = ?t" using ends(1) assms(5) by (cases a) auto
    moreover have "dropWhile is_space (rev a) = rev a" using ends(2) assms(5) by (cases "rev a") (auto simp flip: hd_rev)
    ultimately have "strip ?t = a" using True sp by (simp add: strip_def)
    then show ?thesis using True normal one_piece [OF assms(3), of "[]"] same by (simp add: split_into_paragraphs_def)
  next
    case False
    then have "strip ?t = ?t" using ends(1) b(2) assms(5) by (intro strip_same) simp_all
    then show ?thesis using normal pieces same by (simp only: split_into_paragraphs_def) auto
  qed
qed

lemma distinct_subseq: "subseq xs ys \<Longrightarrow> distinct ys \<Longrightarrow> distinct xs"
  by (auto simp: subseq_conv_nths)

section \<open>Properties\<close>

text \<open>
  C39: What comes from a page keeps no paragraphs of the page. The text extracted from
  an HTML page is a body, or a title, an empty line and a body, where a title is there
  only when it was asked for; for the chunker the title is one paragraph and the whole
  body is one, however many the page had, if they are long enough to be one at all.
  A text with a carriage return, which the chunker reads as a line end, is left out.
\<close>

theorem html_text_one_paragraph:
  assumes "extract_text_from_html lib html extract_title = Ok t" and "CHR 0x0D \<notin> set t"
  shows "\<exists>title body. t = (if title = [] then body else title @ [newline, newline] @ body) \<and> (title = [] \<or> extract_title) \<and>
    split_into_paragraphs (normalise_whitespace t) = filter (\<lambda>p. 20 < length p) (if title = [] then [body] else [title, body])"
proof -
  obtain x y where "t = [] \<or> t = clean_html_text x \<or>
      (t = clean_html_text y @ [newline, newline] @ clean_html_text x \<and> clean_html_text y \<noteq> [] \<and> extract_title)"
    using assms(1) by (auto simp: extract_text_from_html_def Let_def split: option.splits if_splits)
  then consider "t = []" | "t = clean_html_text x"
    | "t = clean_html_text y @ [newline, newline] @ clean_html_text x" "clean_html_text y \<noteq> []" "extract_title"
    by blast
  then show ?thesis
  proof cases
    case 1
    then show ?thesis by (intro exI [of _ "[]"] exI [of _ t]) (simp add: paragraphs_of_piece clean_def strip_def)
  next
    case 2
    then show ?thesis
      using paragraphs_of_piece [OF clean_html_clean clean_html_no_empty_line] assms(2)
      by (intro exI [of _ "[]"] exI [of _ t]) simp
  next
    case 3
    then show ?thesis
      using paragraphs_of_two [OF clean_html_clean clean_html_clean clean_html_no_empty_line clean_html_no_empty_line 3(2)] assms(2)
      by (intro exI [of _ "clean_html_text y"] exI [of _ "clean_html_text x"]) simp
  qed
qed

lemma expand_acronyms_subseq:
  "subseq (snd (foldl expand_acronym (t, e) table)) (e @ map fst table) \<and> prefix e (snd (foldl expand_acronym (t, e) table)) \<and>
   (snd (foldl expand_acronym (t, e) table) = e \<longrightarrow> fst (foldl expand_acronym (t, e) table) = t)"
proof (induction table arbitrary: t e)
  case (Cons ax table)
  obtain a x where ax: "ax = (a, x)" by (cases ax)
  show ?case
  proof (cases "search (as_word (lit a)) [] t")
    case None
    then have step: "expand_acronym (t, e) ax = (t, e)" by (simp add: expand_acronym_def ax)
    have "subseq (e @ map fst table) (e @ a # map fst table)" by (rule list_emb_append_mono) (auto intro: list_emb_Cons)
    then show ?thesis using Cons.IH [of t e] step by (auto simp: ax intro: subseq_order.trans)
  next
    case (Some r)
    then obtain b m c where step: "expand_acronym (t, e) ax = (b @ x @ c, e @ [a])"
      by (cases r) (auto simp: expand_acronym_def ax)
    show ?thesis using Cons.IH [of "b @ x @ c" "e @ [a]"] step by (auto simp: ax prefix_def)
  qed
qed simp

lemma preprocess_acronyms:
  "pd_acronyms_expanded (preprocess raw document_id url boilerplate acronyms toc) =
     (if acronyms then snd (expand_acronyms (let t1 = (if toc then remove_table_of_contents raw else raw) in
        if boilerplate then remove_boilerplate t1 else t1)) else [])"
  by (cases acronyms) (simp_all add: preprocess_def Let_def case_prod_beta)

lemma pdf_text_clean:
  assumes "extract_text_from_pdf lib source headers = Ok t"
  shows "clean t"
proof -
  have "clean (clean_extracted_text r h)" for r h by (simp add: clean_extracted_text_def Let_def clean_final_clean)
  then show ?thesis using assms by (auto simp: extract_text_from_pdf_def split: option.splits sum.splits if_splits)
qed

text \<open>
  Preprocessed texts are clean: no doubled blanks, no runs of three newlines, nothing to
  strip, so that the chunker's own normalisation leaves them as they are. The record of
  the preprocessing is right: the count is the length of the text, what was removed is
  never negative, and the acronyms are those of the table, in its order, each at most
  once.
\<close>

theorem corpus_text_clean:
  assumes d: "d = preprocess raw document_id url boilerplate acronyms toc"
  shows "clean (pd_text d) \<and> (CHR 0x0D \<notin> set (pd_text d) \<longrightarrow> normalise_whitespace (pd_text d) = pd_text d) \<and>
    pd_char_count d = length (pd_text d) \<and> 0 \<le> pd_boilerplate_removed d \<and>
    subseq (pd_acronyms_expanded d) (map fst acronym_expansions) \<and> distinct (pd_acronyms_expanded d)"
proof -
  have "clean (pd_text d)" by (simp add: d preprocess_def Let_def clean_final_clean split: prod.split)
  moreover have "subseq (snd (expand_acronyms u)) (map fst acronym_expansions)" for u
    using expand_acronyms_subseq [of u "[]" acronym_expansions] by (simp add: expand_acronyms_def)
  then have "subseq (pd_acronyms_expanded d) (map fst acronym_expansions)" by (simp add: d preprocess_acronyms)
  moreover have "distinct (map fst acronym_expansions)" by (simp add: acronym_expansions_def)
  moreover have "pd_char_count d = length (pd_text d) \<and> 0 \<le> pd_boilerplate_removed d"
    by (simp add: d preprocess_def Let_def split: prod.split)
  ultimately show ?thesis using clean_normalised [of "pd_text d"] distinct_subseq by auto
qed

section \<open>Acronyms\<close>

lemma reads_lit: "reads (lit a) (\<lambda>w. w = a)"
  unfolding lit_def
proof (induction "map (\<lambda>c. One (\<lambda>d. d = c)) a" arbitrary: a rule: seqs.induct)
  case 1
  then show ?case using reads_mono [OF reads_Empty] by auto
next
  case (2 r)
  then obtain c where "a = [c]" by (auto simp: Cons_eq_map_conv)
  then show ?case by (auto intro!: reads_mono [OF reads_One])
next
  case (3 r r' rs)
  then obtain c b where a: "a = c # b" "r' # rs = map (\<lambda>c. One (\<lambda>d. d = c)) b" by (auto simp: Cons_eq_map_conv)
  then have "b \<noteq> []" by auto
  then have eq: "seqs (map (\<lambda>c. One (\<lambda>d. d = c)) a) = Seq (One (\<lambda>d. d = c)) (seqs (map (\<lambda>c. One (\<lambda>d. d = c)) b))"
    unfolding a(1) by (cases b) simp_all
  show ?case unfolding eq using 3(1) [OF a(2)] a
    by (intro reads_mono [OF reads_Seq [OF reads_One]]) auto
qed

lemma acronym_word: "a \<in> fst ` set acronym_expansions \<Longrightarrow> word_form (\<lambda>w. w = a)"
  by (auto simp: acronym_expansions_def word_form_def is_word_def code_point_def)

text \<open>
  An acronym is expanded once. Where an acronym of the table stands as a word in the
  text, its first occurrence, and nothing else, is replaced by its expansion and it is
  reported; where it does not, text and report stay as they are.
\<close>

theorem acronym_expanded_once:
  assumes "(a, x) \<in> set acronym_expansions"
  shows "if occurs (\<lambda>w. w = a) False t
    then \<exists>b c. t = b @ a @ c \<and> \<not> word_side (head (rev b)) \<and> \<not> word_side (head c) \<and>
      (\<forall>b1 c1. t = b1 @ a @ c1 \<longrightarrow> \<not> word_side (head (rev b1)) \<longrightarrow> \<not> word_side (head c1) \<longrightarrow> length b \<le> length b1) \<and>
      expand_acronym (t, e) (a, x) = (b @ x @ c, e @ [a])
    else expand_acronym (t, e) (a, x) = (t, e)"
proof -
  have word: "word_form (\<lambda>w. w = a)" using assms acronym_word by force
  have found: "case search (as_word (lit a)) [] t of
     None \<Rightarrow> \<not> occurs (\<lambda>w. w = a) False t
   | Some (b, m, c) \<Rightarrow> t = b @ m @ c \<and> m = a \<and> \<not> word_side (head (rev b)) \<and> \<not> word_side (head c) \<and>
       (\<forall>b1 c1. t = b1 @ a @ c1 \<longrightarrow> \<not> word_side (head (rev b1)) \<longrightarrow> \<not> word_side (head c1) \<longrightarrow> length b \<le> length b1)"
    using word_pattern.search_word [OF word_pattern.intro [OF reads_lit word], of "[]" t]
    by (auto simp: side_before_False split: option.splits)
  show ?thesis
  proof (cases "search (as_word (lit a)) [] t")
    case None
    then show ?thesis using found by (simp add: expand_acronym_def)
  next
    case (Some bmc)
    then obtain b c where s: "search (as_word (lit a)) [] t = Some (b, a, c)" using found by (cases bmc) auto
    then have t: "t = b @ a @ c" "\<not> word_side (head (rev b))" "\<not> word_side (head c)"
      and first: "\<forall>b1 c1. t = b1 @ a @ c1 \<longrightarrow> \<not> word_side (head (rev b1)) \<longrightarrow> \<not> word_side (head c1) \<longrightarrow> length b \<le> length b1"
      using found by simp_all
    have "occurs (\<lambda>w. w = a) False t"
      unfolding occurs_def side_before_False using t by blast
    moreover have "expand_acronym (t, e) (a, x) = (b @ x @ c, e @ [a])" using s by (simp add: expand_acronym_def)
    ultimately show ?thesis using t first by auto
  qed
qed

text \<open>
  Each expansion ends with its acronym in parentheses, so the text of a document that
  is preprocessed again is expanded again.
\<close>

lemma expansion_not_idempotent:
  assumes "(a, x) \<in> set acronym_expansions"
  shows "occurs (\<lambda>w. w = a) False x"
proof -
  have "list_all (\<lambda>(a, x). x = take (length x - length a - 2) x @ CHR ''('' # a @ '')'') acronym_expansions"
    by (simp add: acronym_expansions_def)
  then have "x = (take (length x - length a - 2) x @ ''('') @ a @ '')''" using assms by (auto simp: list_all_iff)
  moreover have "\<not> is_word CHR ''(''" "\<not> is_word CHR '')''" by (simp_all add: is_word_def code_point_def)
  ultimately show ?thesis unfolding occurs_def side_before_False
    by (intro exI [of _ "take (length x - length a - 2) x @ ''(''"] exI [of _ a] exI [of _ "'')''"]) simp
qed

text \<open>
  What cleaning loses. The pattern of the disclaimer reaches from the first words of a
  circular to the request to acknowledge it, the body between them included. The
  header pattern removes every reference to a circular, and a hyphen at the end of a
  line is dropped also where it belongs to the word.
\<close>

lemma disclaimer_removes_body: "sub disclaimer (\<lambda>_. []) [] ''This circular binds. Please acknowledge receipt'' = []"
  by code_simp

lemma reference_removed: "sub (last header_footer_patterns) (\<lambda>_. []) [] ''see RBI/2024-25/73.'' = ''see .''"
  by code_simp

lemma hyphen_removed: "clean_extracted_text (''Non-'' @ newline # ''Bank'') False = ''NonBank''"
  by code_simp

section \<open>Witnesses\<close>

text \<open>A library for which a page is its text, with a title.\<close>

definition sample_page :: string where
  "sample_page = replicate 21 (CHR ''a'') @ [newline, newline] @ replicate 21 (CHR ''b'')"

definition sample_soup :: "string soup" where
  "sample_soup = \<lparr>bs_parse = id, bs_text = id, bs_lines = id, bs_words = id, bs_find = (\<lambda>_ _. Some ''RBI''),
     bs_select = (\<lambda>_ _. []), bs_without = (\<lambda>_ e. e)\<rparr>"

theorem html_text_one_paragraph_witness:
  "length (split_into_paragraphs (normalise_whitespace sample_page)) = 2 \<and>
   (\<exists>t. extract_text_from_html (Some sample_soup) sample_page False = Ok t \<and>
     length (split_into_paragraphs (normalise_whitespace t)) \<le> 1)"
proof
  show "length (split_into_paragraphs (normalise_whitespace sample_page)) = 2" by code_simp
  let ?t = "replicate 21 (CHR ''a'') @ [newline] @ replicate 21 (CHR ''b'')"
  have "extract_text_from_html (Some sample_soup) sample_page False = Ok ?t" by code_simp
  moreover have "CHR 0x0D \<notin> set ?t" by simp
  ultimately show "\<exists>t. extract_text_from_html (Some sample_soup) sample_page False = Ok t \<and>
      length (split_into_paragraphs (normalise_whitespace t)) \<le> 1"
    using html_text_one_paragraph [of "Some sample_soup" sample_page False ?t] by auto
qed

theorem corpus_text_clean_witness:
  "clean (pd_text (preprocess ''KYC  norms'' ''RBI'' ''u'' True True True))"
  using corpus_text_clean [OF refl, of "''KYC  norms''" "''RBI''" "''u''" True True True] by blast

theorem acronym_expanded_once_witness:
  "\<exists>b c. ''(KYC) KYC'' = b @ ''KYC'' @ c \<and> expand_acronym (''(KYC) KYC'', []) (''KYC'', ''Know Your Customer (KYC)'') =
     (b @ ''Know Your Customer (KYC)'' @ c, [''KYC''])"
proof -
  have "\<not> is_word CHR ''(''" "\<not> is_word CHR '')''" by (simp_all add: is_word_def code_point_def)
  then have "occurs (\<lambda>w. w = ''KYC'') False ''(KYC) KYC''"
    unfolding occurs_def side_before_False
    by (intro exI [of _ "''(''"] exI [of _ "''KYC''"] exI [of _ "'') KYC''"]) simp
  moreover have "(''KYC'', ''Know Your Customer (KYC)'') \<in> set acronym_expansions" by (simp add: acronym_expansions_def)
  ultimately show ?thesis using acronym_expanded_once [of "''KYC''" "''Know Your Customer (KYC)''" "''(KYC) KYC''" "[]"] by auto
qed

end
