(* ===== verification/Metrics.thy ===== *)
theory Metrics
  imports PyText Complex_Main
begin

text \<open>
  \<open>observability/metrics.py\<close>: the catalogue of the Prometheus metrics, and what the
  modules record in them. The client library is a parameter; \<open>registry_law\<close> and
  \<open>metric_call_law\<close> state what it documents. The texts that document a metric are left
  out, floats are reals.
\<close>

section \<open>The catalogue\<close>

datatype metric_kind = Counter | Gauge | Histogram "real list" | Info

datatype metric = Metric (kind: metric_kind) (series_name: string) (labelnames: "string list")

definition latency_buckets_seconds :: "real list" where
  "latency_buckets_seconds = map (\<lambda>n. of_nat n / 100) [5, 10, 25, 50, 75, 100, 250, 500, 1000, 2000, 3000, 6000]"

definition retrieval_latency_buckets_ms :: "real list" where
  "retrieval_latency_buckets_ms = map of_nat [10, 25, 50, 100, 250, 500, 750, 1000, 2000, 3000, 5000]"

definition confidence_buckets :: "real list" where
  "confidence_buckets = map (\<lambda>i. of_nat i * 5 / 100) [0..<21]"

text \<open>Pipeline, decisions and agents.\<close>

definition pipeline_duration :: metric where
  "pipeline_duration = Metric (Histogram latency_buckets_seconds) ''compliance_pipeline_duration_seconds'' [''outcome'', ''is_retro_eval'', ''is_demo'']"

definition pipeline_runs_total :: metric where
  "pipeline_runs_total = Metric Counter ''compliance_pipeline_runs_total'' [''status'', ''is_retro_eval'', ''is_demo'']"

definition pipeline_errors_total :: metric where
  "pipeline_errors_total = Metric Counter ''compliance_pipeline_errors_total'' [''error_type'', ''is_demo'']"

definition decision_total :: metric where
  "decision_total = Metric Counter ''compliance_decision_total'' [''outcome'', ''guideline_version_id'', ''is_retro_eval'', ''is_demo'']"

definition decision_confidence :: metric where
  "decision_confidence = Metric (Histogram confidence_buckets) ''compliance_decision_confidence_score'' [''outcome'', ''is_retro_eval'', ''is_demo'']"

definition decision_composite_score :: metric where
  "decision_composite_score = Metric (Histogram confidence_buckets) ''compliance_decision_composite_score'' [''outcome'', ''is_demo'']"

definition agent_duration :: metric where
  "agent_duration = Metric (Histogram latency_buckets_seconds) ''compliance_agent_duration_seconds'' [''agent_name'', ''status'', ''is_demo'']"

definition agent_signal_weight :: metric where
  "agent_signal_weight = Metric (Histogram confidence_buckets) ''compliance_agent_signal_weight'' [''agent_name'', ''is_demo'']"

definition agent_findings_total :: metric where
  "agent_findings_total = Metric Counter ''compliance_agent_findings_total'' [''agent_name'', ''severity'', ''finding_code'', ''is_demo'']"

definition agent_errors_total :: metric where
  "agent_errors_total = Metric Counter ''compliance_agent_errors_total'' [''agent_name'', ''error_type'', ''is_demo'']"

text \<open>Audit and retroactive evaluation.\<close>

definition audit_write_duration :: metric where
  "audit_write_duration = Metric (Histogram (map (\<lambda>n. of_nat n / 1000) [1, 5, 10, 25, 50, 100, 250, 500, 1000, 2000])) ''compliance_audit_write_duration_seconds'' [''status'', ''is_demo'']"

definition audit_write_errors_total :: metric where
  "audit_write_errors_total = Metric Counter ''compliance_audit_write_errors_total'' [''error_type'', ''is_demo'']"

definition audit_minio_upload_total :: metric where
  "audit_minio_upload_total = Metric Counter ''compliance_audit_minio_upload_total'' [''status'', ''is_demo'']"

definition audit_minio_upload_pending :: metric where
  "audit_minio_upload_pending = Metric Gauge ''compliance_audit_minio_upload_pending'' [''is_demo'']"

definition retro_eval_queue_depth :: metric where
  "retro_eval_queue_depth = Metric Gauge ''compliance_retro_eval_queue_depth'' [''is_demo'']"

definition retro_eval_triggered_total :: metric where
  "retro_eval_triggered_total = Metric Counter ''compliance_retro_eval_triggered_total'' [''guideline_version_id'', ''affected_tags'', ''is_demo'']"

definition retro_eval_applications_total :: metric where
  "retro_eval_applications_total = Metric Counter ''compliance_retro_eval_applications_total'' [''decision_changed'', ''is_demo'']"

definition retro_eval_decision_changes_total :: metric where
  "retro_eval_decision_changes_total = Metric Counter ''compliance_retro_eval_decision_changes_total'' [''old_outcome'', ''new_outcome'', ''is_demo'']"

definition retro_eval_duration :: metric where
  "retro_eval_duration = Metric (Histogram latency_buckets_seconds) ''compliance_retro_eval_duration_seconds'' [''decision_changed'', ''is_demo'']"

text \<open>Scraper, retrieval and sanctions.\<close>

definition scraper_runs_total :: metric where
  "scraper_runs_total = Metric Counter ''compliance_scraper_runs_total'' [''source'', ''status'']"

definition scraper_changes_detected_total :: metric where
  "scraper_changes_detected_total = Metric Counter ''compliance_scraper_changes_detected_total'' [''source'', ''change_type'']"

definition guideline_version_age_hours :: metric where
  "guideline_version_age_hours = Metric Gauge ''compliance_guideline_version_age_hours'' []"

definition faiss_index_age_hours :: metric where
  "faiss_index_age_hours = Metric Gauge ''compliance_faiss_index_age_hours'' []"

definition watchlist_update_age_hours :: metric where
  "watchlist_update_age_hours = Metric Gauge ''compliance_watchlist_update_age_hours'' [''list_name'']"

definition rag_retrieval_duration :: metric where
  "rag_retrieval_duration = Metric (Histogram retrieval_latency_buckets_ms) ''compliance_rag_retrieval_duration_ms'' [''status'', ''is_demo'']"

definition rag_llm_duration :: metric where
  "rag_llm_duration = Metric (Histogram latency_buckets_seconds) ''compliance_rag_llm_duration_seconds'' [''status'', ''is_demo'']"

definition faiss_index_swap_total :: metric where
  "faiss_index_swap_total = Metric Counter ''compliance_faiss_index_swap_total'' [''status'']"

definition sanctions_lookup_total :: metric where
  "sanctions_lookup_total = Metric Counter ''compliance_sanctions_lookup_total'' [''result'', ''is_demo'']"

definition sanctions_cache_hit_rate :: metric where
  "sanctions_cache_hit_rate = Metric Gauge ''compliance_sanctions_cache_hit_rate'' []"

definition sanctions_cache_operations_total :: metric where
  "sanctions_cache_operations_total = Metric Counter ''compliance_sanctions_cache_operations_total'' [''operation'', ''list_name'']"

text \<open>Calibration, DPDP, notifications and API.\<close>

definition calibration_threshold_approve :: metric where
  "calibration_threshold_approve = Metric Gauge ''compliance_calibration_threshold_approve'' []"

definition calibration_threshold_review :: metric where
  "calibration_threshold_review = Metric Gauge ''compliance_calibration_threshold_review'' []"

definition calibration_confidence_drift_stddev :: metric where
  "calibration_confidence_drift_stddev = Metric Gauge ''compliance_confidence_drift_7d_stddev'' []"

definition calibration_override_rate :: metric where
  "calibration_override_rate = Metric Gauge ''compliance_calibration_override_rate'' [''confidence_band'']"

definition calibration_run_total :: metric where
  "calibration_run_total = Metric Counter ''compliance_calibration_run_total'' [''status'', ''threshold_changed'']"

definition dpdp_consent_checks_total :: metric where
  "dpdp_consent_checks_total = Metric Counter ''compliance_dpdp_consent_checks_total'' [''result'']"

definition dpdp_retention_wipes_total :: metric where
  "dpdp_retention_wipes_total = Metric Counter ''compliance_dpdp_retention_wipes_total'' [''status'', ''is_demo'']"

definition dpdp_breach_flags_total :: metric where
  "dpdp_breach_flags_total = Metric Counter ''compliance_dpdp_breach_flags_total'' [''is_demo'']"

definition notification_sent_total :: metric where
  "notification_sent_total = Metric Counter ''compliance_notification_sent_total'' [''notification_type'', ''channel'', ''is_demo'']"

definition notification_failed_total :: metric where
  "notification_failed_total = Metric Counter ''compliance_notification_failed_total'' [''notification_type'', ''channel'', ''failure_reason'', ''is_demo'']"

definition notification_outbox_pending :: metric where
  "notification_outbox_pending = Metric Gauge ''compliance_notification_outbox_pending'' [''is_demo'']"

definition api_request_duration :: metric where
  "api_request_duration = Metric (Histogram latency_buckets_seconds) ''compliance_api_request_duration_seconds'' [''method'', ''endpoint'', ''status_code'', ''is_demo'']"

definition api_requests_total :: metric where
  "api_requests_total = Metric Counter ''compliance_api_requests_total'' [''method'', ''endpoint'', ''status_code'', ''is_demo'']"

definition api_rate_limited_total :: metric where
  "api_rate_limited_total = Metric Counter ''compliance_api_rate_limited_total'' [''endpoint'']"

definition system_info :: metric where
  "system_info = Metric Info ''compliance_system'' []"

text \<open>The metrics in the order in which the module registers them.\<close>

definition all_metrics :: "metric list" where
  "all_metrics =
  [pipeline_duration, pipeline_runs_total, pipeline_errors_total, decision_total, decision_confidence, decision_composite_score,
   agent_duration, agent_signal_weight, agent_findings_total, agent_errors_total, audit_write_duration, audit_write_errors_total,
   audit_minio_upload_total, audit_minio_upload_pending, retro_eval_queue_depth, retro_eval_triggered_total,
   retro_eval_applications_total, retro_eval_decision_changes_total, retro_eval_duration, scraper_runs_total,
   scraper_changes_detected_total, guideline_version_age_hours, faiss_index_age_hours, watchlist_update_age_hours,
   rag_retrieval_duration, rag_llm_duration, faiss_index_swap_total, sanctions_lookup_total, sanctions_cache_hit_rate,
   sanctions_cache_operations_total, calibration_threshold_approve, calibration_threshold_review,
   calibration_confidence_drift_stddev, calibration_override_rate, calibration_run_total, dpdp_consent_checks_total,
   dpdp_retention_wipes_total, dpdp_breach_flags_total, notification_sent_total, notification_failed_total,
   notification_outbox_pending, api_request_duration, api_requests_total, api_rate_limited_total, system_info]"

section \<open>Registration\<close>

text \<open>
  What the client checks of a declaration: names of the data model, no reserved label,
  buckets in order. A counter is registered under its name less \<open>_total\<close>; all series of
  a metric are named by that stem and a suffix.
\<close>

definition name_char :: "char \<Rightarrow> bool" where
  "name_char c \<longleftrightarrow> c = CHR ''_'' \<or> c \<in> set ''abcdefghijklmnopqrstuvwxyz'' \<or> is_digit c"

definition plain_name :: "string \<Rightarrow> bool" where
  "plain_name s \<longleftrightarrow> s \<noteq> [] \<and> \<not> is_digit (hd s) \<and> list_all name_char s \<and> \<not> starts_with ''__'' s"

fun buckets :: "metric_kind \<Rightarrow> real list option" where
  "buckets (Histogram bs) = Some bs"
| "buckets _ = None"

definition well_formed :: "metric \<Rightarrow> bool" where
  "well_formed m \<longleftrightarrow> plain_name (series_name m) \<and> list_all plain_name (labelnames m) \<and> distinct (labelnames m) \<and>
     ''le'' \<notin> set (labelnames m) \<and>
     (case buckets (kind m) of None \<Rightarrow> True | Some bs \<Rightarrow> sorted_wrt (<) bs \<and> 2 \<le> length bs)"

definition series_suffixes :: "string list" where
  "series_suffixes = [[], ''_total'', ''_created'', ''_bucket'', ''_count'', ''_sum'', ''_info'']"

definition ends_with :: "string \<Rightarrow> string \<Rightarrow> bool" where
  "ends_with p s \<longleftrightarrow> starts_with (rev p) (rev s)"

definition stem_of :: "bool \<Rightarrow> string \<Rightarrow> string" where
  "stem_of counter nm = (if counter \<and> ends_with ''_total'' nm then take (length nm - 6) nm else nm)"

definition stem :: "metric \<Rightarrow> string" where
  "stem m = stem_of (kind m = Counter) (series_name m)"

fun register_all :: "(metric \<Rightarrow> 'r \<Rightarrow> 'r result) \<Rightarrow> metric list \<Rightarrow> 'r \<Rightarrow> 'r result" where
  "register_all register [] r = Ok r"
| "register_all register (m # ms) r = rbind (register m r) (register_all register ms)"

text \<open>
  The client accepts a well-formed metric none of whose series is in the registry, and
  adds no other series.
\<close>

definition series :: "metric \<Rightarrow> string set" where
  "series m = (\<lambda>s. stem m @ s) ` set series_suffixes"

definition registry_law :: "(metric \<Rightarrow> 'r \<Rightarrow> 'r result) \<Rightarrow> ('r \<Rightarrow> string set) \<Rightarrow> bool" where
  "registry_law register names \<longleftrightarrow> (\<forall>m r. well_formed m \<longrightarrow> series m \<inter> names r = {} \<longrightarrow>
     (\<exists>r'. register m r = Ok r' \<and> names r \<subseteq> names r' \<and> names r' \<subseteq> names r \<union> series m))"

section \<open>Samples\<close>

datatype action = Inc nat | Observe real | SetTo real | SetInfo "(string \<times> string) list"

record sample =
  sm_metric :: metric
  sm_labels :: "(string \<times> string) list"
  sm_action :: action

fun fits :: "metric_kind \<Rightarrow> action \<Rightarrow> bool" where
  "fits Counter (Inc n) = True"
| "fits Gauge (SetTo x) = True"
| "fits (Histogram bs) (Observe x) = True"
| "fits Info (SetInfo kvs) = True"
| "fits k a = False"

text \<open>
  \<open>labels\<close> takes one value for each label name and the kinds of metric have one action
  each; such a call does not raise.
\<close>

definition labelled :: "sample \<Rightarrow> bool" where
  "labelled s \<longleftrightarrow> distinct (map fst (sm_labels s)) \<and> set (map fst (sm_labels s)) = set (labelnames (sm_metric s)) \<and>
     fits (kind (sm_metric s)) (sm_action s)"

definition metric_call_law :: "(sample \<Rightarrow> unit result) \<Rightarrow> bool" where
  "metric_call_law call \<longleftrightarrow> (\<forall>s. labelled s \<longrightarrow> call s = Ok ())"

definition emit :: "(sample \<Rightarrow> unit result) \<Rightarrow> metric \<Rightarrow> (string \<times> string) list \<Rightarrow> action \<Rightarrow> (sample list, unit) step" where
  "emit call m kvs a ss =
     (let s = \<lparr>sm_metric = m, sm_labels = kvs, sm_action = a\<rparr> in
      case call s of Inl e \<Rightarrow> (Inl e, ss) | Inr _ \<Rightarrow> (Ok (), ss @ [s]))"

definition emit_all :: "(sample \<Rightarrow> unit result) \<Rightarrow> (metric \<times> (string \<times> string) list \<times> action) list \<Rightarrow> (sample list, unit) step" where
  "emit_all call xs = seach (\<lambda>(m, kvs, a). emit call m kvs a) xs"

definition import_metrics ::
  "(metric \<Rightarrow> 'r \<Rightarrow> 'r result) \<Rightarrow> (sample \<Rightarrow> unit result) \<Rightarrow> 'r \<Rightarrow> sample list \<Rightarrow> 'r result \<times> sample list" where
  "import_metrics register call r ss =
     (case register_all register all_metrics r of
        Inl e \<Rightarrow> (Inl e, ss)
      | Inr r' \<Rightarrow>
          (case emit call system_info [] (SetInfo [(''version'', ''1.0.0''), (''service'', ''complianceloop'')]) ss of
             (Inl e, ss') \<Rightarrow> (Inl e, ss')
           | (Inr _, ss') \<Rightarrow> (Ok r', ss')))"

definition flag_text :: "bool \<Rightarrow> string" where
  "flag_text b = (if b then ''true'' else ''false'')"

definition record_pipeline_run ::
  "(sample \<Rightarrow> unit result) \<Rightarrow> string \<Rightarrow> real \<Rightarrow> real \<Rightarrow> real \<Rightarrow> string \<Rightarrow> bool \<Rightarrow> bool \<Rightarrow> (sample list, unit) step" where
  "record_pipeline_run call outcome duration_seconds confidence composite_score guideline_version_id is_retro_eval is_demo =
     (let retro = flag_text is_retro_eval; demo = flag_text is_demo in
      emit_all call
        [(pipeline_duration, [(''outcome'', outcome), (''is_retro_eval'', retro), (''is_demo'', demo)], Observe duration_seconds),
         (pipeline_runs_total, [(''status'', ''success''), (''is_retro_eval'', retro), (''is_demo'', demo)], Inc 1),
         (decision_total, [(''outcome'', outcome), (''guideline_version_id'', guideline_version_id), (''is_retro_eval'', retro),
            (''is_demo'', demo)], Inc 1),
         (decision_confidence, [(''outcome'', outcome), (''is_retro_eval'', retro), (''is_demo'', demo)], Observe confidence),
         (decision_composite_score, [(''outcome'', outcome), (''is_demo'', demo)], Observe composite_score)])"

definition record_agent_run ::
  "(sample \<Rightarrow> unit result) \<Rightarrow> string \<Rightarrow> string \<Rightarrow> real \<Rightarrow> real \<Rightarrow> bool \<Rightarrow> (sample list, unit) step" where
  "record_agent_run call agent_name status duration_seconds signal_weight is_demo =
     (let demo = flag_text is_demo in
      emit_all call
        [(agent_duration, [(''agent_name'', agent_name), (''status'', status), (''is_demo'', demo)], Observe duration_seconds),
         (agent_signal_weight, [(''agent_name'', agent_name), (''is_demo'', demo)], Observe signal_weight)])"

definition update_calibration_gauges :: "(sample \<Rightarrow> unit result) \<Rightarrow> real \<Rightarrow> real \<Rightarrow> real option \<Rightarrow> (sample list, unit) step" where
  "update_calibration_gauges call approve_threshold review_threshold confidence_stddev_7d =
     emit_all call
       ([(calibration_threshold_approve, [], SetTo approve_threshold), (calibration_threshold_review, [], SetTo review_threshold)] @
        (case confidence_stddev_7d of None \<Rightarrow> [] | Some x \<Rightarrow> [(calibration_confidence_drift_stddev, [], SetTo x)]))"

text \<open>What the modules record, each where it does.\<close>

definition audit_written :: "(sample \<Rightarrow> unit result) \<Rightarrow> bool \<Rightarrow> real \<Rightarrow> (sample list, unit) step" where
  "audit_written call is_demo duration_s =
     emit_all call [(audit_write_duration, [(''status'', ''success''), (''is_demo'', flag_text is_demo)], Observe duration_s)]"

definition audit_write_failed :: "(sample \<Rightarrow> unit result) \<Rightarrow> bool \<Rightarrow> real \<Rightarrow> (sample list, unit) step" where
  "audit_write_failed call is_demo duration_s =
     emit_all call
       [(audit_write_duration, [(''status'', ''postgres_error''), (''is_demo'', flag_text is_demo)], Observe duration_s),
        (audit_write_errors_total, [(''error_type'', ''postgres''), (''is_demo'', flag_text is_demo)], Inc 1)]"

definition payload_uploaded :: "(sample \<Rightarrow> unit result) \<Rightarrow> (sample list, unit) step" where
  "payload_uploaded call = emit_all call [(audit_minio_upload_total, [(''status'', ''success''), (''is_demo'', ''false'')], Inc 1)]"

definition payload_upload_failed :: "(sample \<Rightarrow> unit result) \<Rightarrow> (sample list, unit) step" where
  "payload_upload_failed call = emit_all call [(audit_minio_upload_total, [(''status'', ''error''), (''is_demo'', ''false'')], Inc 1)]"

definition query_completed :: "(sample \<Rightarrow> unit result) \<Rightarrow> int \<Rightarrow> (sample list, unit) step" where
  "query_completed call duration_ms =
     emit_all call [(rag_retrieval_duration, [(''status'', ''success''), (''is_demo'', ''false'')], Observe (of_int duration_ms))]"

definition query_failed :: "(sample \<Rightarrow> unit result) \<Rightarrow> int \<Rightarrow> (sample list, unit) step" where
  "query_failed call duration_ms =
     emit_all call [(rag_retrieval_duration, [(''status'', ''error''), (''is_demo'', ''false'')], Observe (of_int duration_ms))]"

definition swap_rejected :: "(sample \<Rightarrow> unit result) \<Rightarrow> (sample list, unit) step" where
  "swap_rejected call = emit_all call [(faiss_index_swap_total, [(''status'', ''health_check_failed'')], Inc 1)]"

definition swap_completed :: "(sample \<Rightarrow> unit result) \<Rightarrow> (sample list, unit) step" where
  "swap_completed call = emit_all call [(faiss_index_swap_total, [(''status'', ''success'')], Inc 1)]"

definition swap_failed :: "(sample \<Rightarrow> unit result) \<Rightarrow> (sample list, unit) step" where
  "swap_failed call = emit_all call [(faiss_index_swap_total, [(''status'', ''error'')], Inc 1)]"

text \<open>In these three every exception is ignored.\<close>

definition ignored :: "(sample list, unit) step \<Rightarrow> (sample list, unit) step" where
  "ignored m ss = (Ok (), snd (m ss))"

definition breach_recorded :: "(sample \<Rightarrow> unit result) \<Rightarrow> nat \<Rightarrow> (sample list, unit) step" where
  "breach_recorded call records_flagged =
     ignored (emit_all call [(dpdp_breach_flags_total, [(''is_demo'', ''false'')], Inc records_flagged)])"

definition wipe_recorded :: "(sample \<Rightarrow> unit result) \<Rightarrow> nat \<Rightarrow> nat \<Rightarrow> (sample list, unit) step" where
  "wipe_recorded call total_wiped total_errors =
     ignored (emit_all call
       ((dpdp_retention_wipes_total, [(''status'', ''success''), (''is_demo'', ''false'')], Inc total_wiped) #
        (if 0 < total_errors then [(dpdp_retention_wipes_total, [(''status'', ''error''), (''is_demo'', ''false'')], Inc total_errors)]
         else [])))"

definition task_failure_recorded :: "(sample \<Rightarrow> unit result) \<Rightarrow> string \<Rightarrow> (sample list, unit) step" where
  "task_failure_recorded call exception_class =
     ignored (emit_all call [(pipeline_errors_total, [(''error_type'', exception_class), (''is_demo'', ''unknown'')], Inc 1)])"

definition notification_exhausted :: "(sample \<Rightarrow> unit result) \<Rightarrow> string \<Rightarrow> string \<Rightarrow> bool \<Rightarrow> (sample list, unit) step" where
  "notification_exhausted call notification_type channel is_demo =
     emit_all call [(notification_failed_total, [(''notification_type'', notification_type), (''channel'', channel),
        (''failure_reason'', ''max_retries_exhausted''), (''is_demo'', flag_text is_demo)], Inc 1)]"

definition notification_delivered :: "(sample \<Rightarrow> unit result) \<Rightarrow> string \<Rightarrow> string \<Rightarrow> bool \<Rightarrow> (sample list, unit) step" where
  "notification_delivered call notification_type channel is_demo =
     emit_all call [(notification_sent_total, [(''notification_type'', notification_type), (''channel'', channel),
        (''is_demo'', flag_text is_demo)], Inc 1)]"

definition outbox_gauge_updated :: "(sample \<Rightarrow> unit result) \<Rightarrow> (bool \<Rightarrow> nat) \<Rightarrow> (sample list, unit) step" where
  "outbox_gauge_updated call count =
     emit_all call (map (\<lambda>is_demo. (notification_outbox_pending, [(''is_demo'', flag_text is_demo)], SetTo (of_nat (count is_demo))))
       [False, True])"

section \<open>Reports\<close>

text \<open>Everything that is reported to the metrics, and the flag of the run it belongs to.\<close>

datatype report =
    Pipeline_Run string real real real string bool bool
  | Agent_Run string string real real bool
  | Calibration_Run real real "real option"
  | Audit_Written bool real
  | Audit_Write_Failed bool real
  | Payload_Uploaded
  | Payload_Upload_Failed
  | Query_Completed int
  | Query_Failed int
  | Swap_Rejected
  | Swap_Completed
  | Swap_Failed
  | Breach_Recorded nat
  | Wipe_Recorded nat nat
  | Task_Failure string
  | Notification_Exhausted string string bool
  | Notification_Delivered string string bool
  | Outbox_Gauge "bool \<Rightarrow> nat"

fun record_report :: "(sample \<Rightarrow> unit result) \<Rightarrow> report \<Rightarrow> (sample list, unit) step" where
  "record_report call (Pipeline_Run oc d c s g r demo) = record_pipeline_run call oc d c s g r demo"
| "record_report call (Agent_Run a st d w demo) = record_agent_run call a st d w demo"
| "record_report call (Calibration_Run a r sd) = update_calibration_gauges call a r sd"
| "record_report call (Audit_Written demo d) = audit_written call demo d"
| "record_report call (Audit_Write_Failed demo d) = audit_write_failed call demo d"
| "record_report call Payload_Uploaded = payload_uploaded call"
| "record_report call Payload_Upload_Failed = payload_upload_failed call"
| "record_report call (Query_Completed d) = query_completed call d"
| "record_report call (Query_Failed d) = query_failed call d"
| "record_report call Swap_Rejected = swap_rejected call"
| "record_report call Swap_Completed = swap_completed call"
| "record_report call Swap_Failed = swap_failed call"
| "record_report call (Breach_Recorded n) = breach_recorded call n"
| "record_report call (Wipe_Recorded n e) = wipe_recorded call n e"
| "record_report call (Task_Failure c) = task_failure_recorded call c"
| "record_report call (Notification_Exhausted t c demo) = notification_exhausted call t c demo"
| "record_report call (Notification_Delivered t c demo) = notification_delivered call t c demo"
| "record_report call (Outbox_Gauge count) = outbox_gauge_updated call count"

fun demo_of :: "report \<Rightarrow> bool option" where
  "demo_of (Pipeline_Run oc d c s g r demo) = Some demo"
| "demo_of (Agent_Run a st d w demo) = Some demo"
| "demo_of (Audit_Written demo d) = Some demo"
| "demo_of (Audit_Write_Failed demo d) = Some demo"
| "demo_of (Notification_Exhausted t c demo) = Some demo"
| "demo_of (Notification_Delivered t c demo) = Some demo"
| "demo_of _ = None"

section \<open>Lemmas\<close>

definition samples :: "(metric \<times> (string \<times> string) list \<times> action) list \<Rightarrow> sample list" where
  "samples xs = map (\<lambda>(m, kvs, a). \<lparr>sm_metric = m, sm_labels = kvs, sm_action = a\<rparr>) xs"

lemma samples_simps [simp]:
  "samples [] = []"
  "samples ((m, kvs, a) # xs) = \<lparr>sm_metric = m, sm_labels = kvs, sm_action = a\<rparr> # samples xs"
  by (simp_all add: samples_def)

lemma emit_all_ok:
  assumes law: "metric_call_law call" and "list_all labelled (samples xs)"
  shows "emit_all call xs ss = (Ok (), ss @ samples xs)"
  using assms(2)
proof (induction xs arbitrary: ss)
  case (Cons x xs)
  obtain m kvs a where x: "x = (m, kvs, a)" by (cases x)
  then have "emit call m kvs a ss = (Ok (), ss @ [\<lparr>sm_metric = m, sm_labels = kvs, sm_action = a\<rparr>])"
    using law Cons.prems by (simp add: emit_def metric_call_law_def)
  then show ?case using Cons by (simp add: x emit_all_def)
qed (simp add: emit_all_def)

definition reports_well :: "report \<Rightarrow> sample list \<Rightarrow> bool" where
  "reports_well r new \<longleftrightarrow> new \<noteq> [] \<and> list_all labelled new \<and> list_all (\<lambda>s. sm_metric s \<in> set all_metrics) new \<and>
     (\<forall>d. demo_of r = Some d \<longrightarrow> list_all (\<lambda>s. map_of (sm_labels s) ''is_demo'' = Some (flag_text d)) new)"

lemma emit_all_reports:
  assumes "metric_call_law call" and "reports_well r (samples xs)"
  shows "\<exists>new. emit_all call xs ss = (Ok (), ss @ new) \<and> reports_well r new"
  using assms emit_all_ok [of call xs ss] by (auto simp: reports_well_def)

lemma ignored_reports:
  assumes "\<exists>new. m ss = (Ok (), ss @ new) \<and> reports_well r new"
  shows "\<exists>new. ignored m ss = (Ok (), ss @ new) \<and> reports_well r new"
  using assms by (auto simp: ignored_def)

lemma labels_used:
  "labelnames pipeline_duration = [''outcome'', ''is_retro_eval'', ''is_demo'']"
  "kind pipeline_duration = Histogram latency_buckets_seconds"
  "labelnames pipeline_runs_total = [''status'', ''is_retro_eval'', ''is_demo'']"
  "kind pipeline_runs_total = Counter"
  "labelnames pipeline_errors_total = [''error_type'', ''is_demo'']"
  "kind pipeline_errors_total = Counter"
  "labelnames decision_total = [''outcome'', ''guideline_version_id'', ''is_retro_eval'', ''is_demo'']"
  "kind decision_total = Counter"
  "labelnames decision_confidence = [''outcome'', ''is_retro_eval'', ''is_demo'']"
  "kind decision_confidence = Histogram confidence_buckets"
  "labelnames decision_composite_score = [''outcome'', ''is_demo'']"
  "kind decision_composite_score = Histogram confidence_buckets"
  "labelnames agent_duration = [''agent_name'', ''status'', ''is_demo'']"
  "kind agent_duration = Histogram latency_buckets_seconds"
  "labelnames agent_signal_weight = [''agent_name'', ''is_demo'']"
  "kind agent_signal_weight = Histogram confidence_buckets"
  "labelnames audit_write_duration = [''status'', ''is_demo'']"
  "kind audit_write_duration = Histogram (map (\<lambda>n. of_nat n / 1000) [1, 5, 10, 25, 50, 100, 250, 500, 1000, 2000])"
  "labelnames audit_write_errors_total = [''error_type'', ''is_demo'']"
  "kind audit_write_errors_total = Counter"
  "labelnames audit_minio_upload_total = [''status'', ''is_demo'']"
  "kind audit_minio_upload_total = Counter"
  "labelnames rag_retrieval_duration = [''status'', ''is_demo'']"
  "kind rag_retrieval_duration = Histogram retrieval_latency_buckets_ms"
  "labelnames faiss_index_swap_total = [''status'']"
  "kind faiss_index_swap_total = Counter"
  "labelnames calibration_threshold_approve = []"
  "kind calibration_threshold_approve = Gauge"
  "labelnames calibration_threshold_review = []"
  "kind calibration_threshold_review = Gauge"
  "labelnames calibration_confidence_drift_stddev = []"
  "kind calibration_confidence_drift_stddev = Gauge"
  "labelnames dpdp_retention_wipes_total = [''status'', ''is_demo'']"
  "kind dpdp_retention_wipes_total = Counter"
  "labelnames dpdp_breach_flags_total = [''is_demo'']"
  "kind dpdp_breach_flags_total = Counter"
  "labelnames notification_sent_total = [''notification_type'', ''channel'', ''is_demo'']"
  "kind notification_sent_total = Counter"
  "labelnames notification_failed_total = [''notification_type'', ''channel'', ''failure_reason'', ''is_demo'']"
  "kind notification_failed_total = Counter"
  "labelnames notification_outbox_pending = [''is_demo'']"
  "kind notification_outbox_pending = Gauge"
  "labelnames system_info = []"
  "kind system_info = Info"
  by (simp_all add: agent_duration_def agent_signal_weight_def audit_minio_upload_total_def audit_write_duration_def audit_write_errors_total_def calibration_confidence_drift_stddev_def calibration_threshold_approve_def calibration_threshold_review_def decision_composite_score_def decision_confidence_def decision_total_def dpdp_breach_flags_total_def dpdp_retention_wipes_total_def faiss_index_swap_total_def notification_failed_total_def notification_outbox_pending_def notification_sent_total_def pipeline_duration_def pipeline_errors_total_def pipeline_runs_total_def rag_retrieval_duration_def system_info_def)

lemma catalogued:
  "agent_duration \<in> set all_metrics"
  "agent_signal_weight \<in> set all_metrics"
  "audit_minio_upload_total \<in> set all_metrics"
  "audit_write_duration \<in> set all_metrics"
  "audit_write_errors_total \<in> set all_metrics"
  "calibration_confidence_drift_stddev \<in> set all_metrics"
  "calibration_threshold_approve \<in> set all_metrics"
  "calibration_threshold_review \<in> set all_metrics"
  "decision_composite_score \<in> set all_metrics"
  "decision_confidence \<in> set all_metrics"
  "decision_total \<in> set all_metrics"
  "dpdp_breach_flags_total \<in> set all_metrics"
  "dpdp_retention_wipes_total \<in> set all_metrics"
  "faiss_index_swap_total \<in> set all_metrics"
  "notification_failed_total \<in> set all_metrics"
  "notification_outbox_pending \<in> set all_metrics"
  "notification_sent_total \<in> set all_metrics"
  "pipeline_duration \<in> set all_metrics"
  "pipeline_errors_total \<in> set all_metrics"
  "pipeline_runs_total \<in> set all_metrics"
  "rag_retrieval_duration \<in> set all_metrics"
  "system_info \<in> set all_metrics"
  by (simp_all add: all_metrics_def)

lemmas report_defs =
  record_pipeline_run_def record_agent_run_def update_calibration_gauges_def audit_written_def audit_write_failed_def payload_uploaded_def
  payload_upload_failed_def query_completed_def query_failed_def swap_rejected_def swap_completed_def swap_failed_def breach_recorded_def
  wipe_recorded_def task_failure_recorded_def notification_exhausted_def notification_delivered_def outbox_gauge_updated_def

section \<open>Properties\<close>

text \<open>
  C29: No metric call raises and each records labelled samples. Whatever a module reports,
  the calls name exactly the labels the metric was declared with and use the action of
  its kind, so recording returns normally and only appends samples of metrics of the
  catalogue; and where the run is known to be a demo run or not, every sample says so.
\<close>

theorem metric_calls_accepted:
  assumes "metric_call_law call"
  shows "\<exists>new. record_report call r ss = (Ok (), ss @ new) \<and> new \<noteq> [] \<and> list_all labelled new \<and>
    list_all (\<lambda>s. sm_metric s \<in> set all_metrics) new \<and>
    (\<forall>d. demo_of r = Some d \<longrightarrow> list_all (\<lambda>s. map_of (sm_labels s) ''is_demo'' = Some (flag_text d)) new)"
proof -
  have "\<exists>new. record_report call r ss = (Ok (), ss @ new) \<and> reports_well r new"
    by (cases r; simp only: record_report.simps report_defs Let_def; intro ignored_reports emit_all_reports [OF assms])
      (simp_all add: reports_well_def labelled_def labels_used catalogued split: option.splits)
  then show ?thesis unfolding reports_well_def .
qed

section \<open>Loading the catalogue\<close>

lemma suffix_shape: "s \<in> set series_suffixes \<Longrightarrow> s = [] \<or> (\<exists>w. s = CHR ''_'' # w \<and> CHR ''_'' \<notin> set w)"
  by (auto simp: series_suffixes_def)

text \<open>Names that do not end in a suffix are told apart by their series.\<close>

definition bare :: "string \<Rightarrow> bool" where
  "bare b \<longleftrightarrow> list_all (\<lambda>s. s \<noteq> [] \<longrightarrow> \<not> ends_with s b) series_suffixes"

lemma ends_with_append: "ends_with s (b @ s)"
  by (simp add: ends_with_def starts_with_iff)

lemma series_apart:
  assumes "b @ s = b' @ s'" "s \<in> set series_suffixes" "s' \<in> set series_suffixes" "bare b" "bare b'"
  shows "b = b'"
proof -
  have long: "b = b'" if eq: "b @ s = b' @ s'" and s: "s \<in> set series_suffixes" and s': "s' \<in> set series_suffixes"
    and bare: "bare b" and t: "b = b' @ t" for b b' s s' t
  proof -
    have "t @ s = s'" using eq t by simp
    moreover have "s' \<noteq> [] \<Longrightarrow> t \<noteq> [] \<Longrightarrow> s = []"
    proof -
      assume "s' \<noteq> []" "t \<noteq> []"
      then obtain w where w: "s' = CHR ''_'' # w" "CHR ''_'' \<notin> set w" using suffix_shape [OF s'] by blast
      then obtain u where "t = CHR ''_'' # u" "u @ s = w" using \<open>t \<noteq> []\<close> \<open>t @ s = s'\<close> by (cases t) auto
      then have "CHR ''_'' \<notin> set s" using w by auto
      then show "s = []" using suffix_shape [OF s] by auto
    qed
    moreover have "t \<noteq> [] \<Longrightarrow> t \<notin> set series_suffixes"
      using bare ends_with_append [of t b'] t by (auto simp: bare_def list_all_iff)
    ultimately have "t = []" using s' by (cases "t = []") auto
    then show ?thesis using t by simp
  qed
  obtain t where "b = b' @ t \<or> b' = b @ t" using assms(1) by (auto simp: append_eq_append_conv2)
  then show ?thesis using long [of b s b' s' t] long [of b' s' b s t] assms by metis
qed

lemma series_disjoint:
  assumes "bare (stem m)" "bare (stem m')" "stem m \<noteq> stem m'"
  shows "series m \<inter> series m' = {}"
proof (rule ccontr)
  assume "series m \<inter> series m' \<noteq> {}"
  then obtain s s' where "stem m @ s = stem m' @ s'" "s \<in> set series_suffixes" "s' \<in> set series_suffixes"
    unfolding series_def by blast
  then show False using series_apart assms by blast
qed

lemma register_all_ok:
  assumes law: "registry_law register names"
    and "list_all well_formed ms" "list_all (\<lambda>m. bare (stem m)) ms" "distinct (map stem ms)"
    and "\<forall>m\<in>set ms. series m \<inter> names r = {}"
  shows "\<exists>r'. register_all register ms r = Ok r' \<and> names r \<subseteq> names r' \<and> names r' \<subseteq> names r \<union> \<Union> (series ` set ms)"
  using assms(2-)
proof (induction ms arbitrary: r)
  case (Cons m ms)
  then have "well_formed m" "series m \<inter> names r = {}" by simp_all
  then obtain r1 where r1: "register m r = Ok r1" "names r \<subseteq> names r1" "names r1 \<subseteq> names r \<union> series m"
    using law [unfolded registry_law_def, rule_format, of m r] by blast
  have "\<forall>m'\<in>set ms. series m' \<inter> series m = {}"
  proof
    fix m' assume m': "m' \<in> set ms"
    then have "stem m' \<noteq> stem m" using Cons.prems(3) by (metis distinct.simps(2) image_eqI list.set_map list.simps(9))
    then show "series m' \<inter> series m = {}" using Cons.prems(2) m' by (intro series_disjoint) (simp_all add: list_all_iff)
  qed
  then have "\<forall>m'\<in>set ms. series m' \<inter> names r1 = {}" using Cons.prems(4) r1(3) by fastforce
  then obtain r' where "register_all register ms r1 = Ok r'" "names r1 \<subseteq> names r'" "names r' \<subseteq> names r1 \<union> \<Union> (series ` set ms)"
    using Cons.IH [of r1] Cons.prems by auto
  then show ?case using r1 by auto
qed simp

lemma buckets_ordered:
  "sorted_wrt (<) latency_buckets_seconds" "sorted_wrt (<) retrieval_latency_buckets_ms" "sorted_wrt (<) confidence_buckets"
  by (simp_all add: latency_buckets_seconds_def retrieval_latency_buckets_ms_def confidence_buckets_def upt_rec)

lemma buckets_many:
  "2 \<le> length latency_buckets_seconds" "2 \<le> length retrieval_latency_buckets_ms" "2 \<le> length confidence_buckets"
  by (simp_all add: latency_buckets_seconds_def retrieval_latency_buckets_ms_def confidence_buckets_def)

fun wellk :: "metric_kind \<Rightarrow> bool" where
  "wellk (Histogram bs) = (sorted_wrt (<) bs \<and> 2 \<le> length bs)"
| "wellk _ = True"

text \<open>The names and labels of the catalogue, which are all the checks below look at.\<close>

definition catalogue :: "(bool \<times> string \<times> string list) list" where
  "catalogue =
    [(False, ''compliance_pipeline_duration_seconds'', [''outcome'', ''is_retro_eval'', ''is_demo'']),
     (True, ''compliance_pipeline_runs_total'', [''status'', ''is_retro_eval'', ''is_demo'']),
     (True, ''compliance_pipeline_errors_total'', [''error_type'', ''is_demo'']),
     (True, ''compliance_decision_total'', [''outcome'', ''guideline_version_id'', ''is_retro_eval'', ''is_demo'']),
     (False, ''compliance_decision_confidence_score'', [''outcome'', ''is_retro_eval'', ''is_demo'']),
     (False, ''compliance_decision_composite_score'', [''outcome'', ''is_demo'']),
     (False, ''compliance_agent_duration_seconds'', [''agent_name'', ''status'', ''is_demo'']),
     (False, ''compliance_agent_signal_weight'', [''agent_name'', ''is_demo'']),
     (True, ''compliance_agent_findings_total'', [''agent_name'', ''severity'', ''finding_code'', ''is_demo'']),
     (True, ''compliance_agent_errors_total'', [''agent_name'', ''error_type'', ''is_demo'']),
     (False, ''compliance_audit_write_duration_seconds'', [''status'', ''is_demo'']),
     (True, ''compliance_audit_write_errors_total'', [''error_type'', ''is_demo'']),
     (True, ''compliance_audit_minio_upload_total'', [''status'', ''is_demo'']),
     (False, ''compliance_audit_minio_upload_pending'', [''is_demo'']),
     (False, ''compliance_retro_eval_queue_depth'', [''is_demo'']),
     (True, ''compliance_retro_eval_triggered_total'', [''guideline_version_id'', ''affected_tags'', ''is_demo'']),
     (True, ''compliance_retro_eval_applications_total'', [''decision_changed'', ''is_demo'']),
     (True, ''compliance_retro_eval_decision_changes_total'', [''old_outcome'', ''new_outcome'', ''is_demo'']),
     (False, ''compliance_retro_eval_duration_seconds'', [''decision_changed'', ''is_demo'']),
     (True, ''compliance_scraper_runs_total'', [''source'', ''status'']),
     (True, ''compliance_scraper_changes_detected_total'', [''source'', ''change_type'']),
     (False, ''compliance_guideline_version_age_hours'', []),
     (False, ''compliance_faiss_index_age_hours'', []),
     (False, ''compliance_watchlist_update_age_hours'', [''list_name'']),
     (False, ''compliance_rag_retrieval_duration_ms'', [''status'', ''is_demo'']),
     (False, ''compliance_rag_llm_duration_seconds'', [''status'', ''is_demo'']),
     (True, ''compliance_faiss_index_swap_total'', [''status'']),
     (True, ''compliance_sanctions_lookup_total'', [''result'', ''is_demo'']),
     (False, ''compliance_sanctions_cache_hit_rate'', []),
     (True, ''compliance_sanctions_cache_operations_total'', [''operation'', ''list_name'']),
     (False, ''compliance_calibration_threshold_approve'', []),
     (False, ''compliance_calibration_threshold_review'', []),
     (False, ''compliance_confidence_drift_7d_stddev'', []),
     (False, ''compliance_calibration_override_rate'', [''confidence_band'']),
     (True, ''compliance_calibration_run_total'', [''status'', ''threshold_changed'']),
     (True, ''compliance_dpdp_consent_checks_total'', [''result'']),
     (True, ''compliance_dpdp_retention_wipes_total'', [''status'', ''is_demo'']),
     (True, ''compliance_dpdp_breach_flags_total'', [''is_demo'']),
     (True, ''compliance_notification_sent_total'', [''notification_type'', ''channel'', ''is_demo'']),
     (True, ''compliance_notification_failed_total'', [''notification_type'', ''channel'', ''failure_reason'', ''is_demo'']),
     (False, ''compliance_notification_outbox_pending'', [''is_demo'']),
     (False, ''compliance_api_request_duration_seconds'', [''method'', ''endpoint'', ''status_code'', ''is_demo'']),
     (True, ''compliance_api_requests_total'', [''method'', ''endpoint'', ''status_code'', ''is_demo'']),
     (True, ''compliance_api_rate_limited_total'', [''endpoint'']),
     (False, ''compliance_system'', [])]"

lemma catalogue: "map (\<lambda>m. (kind m = Counter, series_name m, labelnames m)) all_metrics = catalogue"
  by (simp add: all_metrics_def catalogue_def pipeline_duration_def pipeline_runs_total_def pipeline_errors_total_def decision_total_def decision_confidence_def decision_composite_score_def agent_duration_def agent_signal_weight_def agent_findings_total_def agent_errors_total_def audit_write_duration_def audit_write_errors_total_def audit_minio_upload_total_def audit_minio_upload_pending_def retro_eval_queue_depth_def retro_eval_triggered_total_def retro_eval_applications_total_def retro_eval_decision_changes_total_def retro_eval_duration_def scraper_runs_total_def scraper_changes_detected_total_def guideline_version_age_hours_def faiss_index_age_hours_def watchlist_update_age_hours_def rag_retrieval_duration_def rag_llm_duration_def faiss_index_swap_total_def sanctions_lookup_total_def sanctions_cache_hit_rate_def sanctions_cache_operations_total_def calibration_threshold_approve_def calibration_threshold_review_def calibration_confidence_drift_stddev_def calibration_override_rate_def calibration_run_total_def dpdp_consent_checks_total_def dpdp_retention_wipes_total_def dpdp_breach_flags_total_def notification_sent_total_def notification_failed_total_def notification_outbox_pending_def api_request_duration_def api_requests_total_def api_rate_limited_total_def system_info_def)

lemma kinds_well: "list_all (\<lambda>m. wellk (kind m)) all_metrics"
  by (simp add: all_metrics_def pipeline_duration_def pipeline_runs_total_def pipeline_errors_total_def decision_total_def decision_confidence_def decision_composite_score_def agent_duration_def agent_signal_weight_def agent_findings_total_def agent_errors_total_def audit_write_duration_def audit_write_errors_total_def audit_minio_upload_total_def audit_minio_upload_pending_def retro_eval_queue_depth_def retro_eval_triggered_total_def retro_eval_applications_total_def retro_eval_decision_changes_total_def retro_eval_duration_def scraper_runs_total_def scraper_changes_detected_total_def guideline_version_age_hours_def faiss_index_age_hours_def watchlist_update_age_hours_def rag_retrieval_duration_def rag_llm_duration_def faiss_index_swap_total_def sanctions_lookup_total_def sanctions_cache_hit_rate_def sanctions_cache_operations_total_def calibration_threshold_approve_def calibration_threshold_review_def calibration_confidence_drift_stddev_def calibration_override_rate_def calibration_run_total_def dpdp_consent_checks_total_def dpdp_retention_wipes_total_def dpdp_breach_flags_total_def notification_sent_total_def notification_failed_total_def notification_outbox_pending_def api_request_duration_def api_requests_total_def api_rate_limited_total_def system_info_def buckets_ordered buckets_many)

lemma stems_distinct: "distinct (map stem all_metrics)"
proof -
  have "map stem all_metrics = map (\<lambda>(c, n, _). stem_of c n) catalogue"
    unfolding catalogue [symmetric] by (simp add: stem_def)
  moreover have "distinct (map (\<lambda>(c, n, _). stem_of c n) catalogue)" by code_simp
  ultimately show ?thesis by simp
qed

lemma stems_bare: "list_all (\<lambda>m. bare (stem m)) all_metrics"
proof -
  have "list_all (\<lambda>(c, n, _). bare (stem_of c n)) catalogue" by code_simp
  then show ?thesis unfolding catalogue [symmetric] by (simp add: list_all_iff stem_def)
qed

lemma stems_prefixed: "list_all (\<lambda>m. starts_with ''compliance_'' (stem m)) all_metrics"
proof -
  have "list_all (\<lambda>(c, n, _). starts_with ''compliance_'' (stem_of c n)) catalogue" by code_simp
  then show ?thesis unfolding catalogue [symmetric] by (simp add: list_all_iff stem_def)
qed

lemma names_plain: "list_all (\<lambda>(_, n, ls). plain_name n \<and> list_all plain_name ls \<and> distinct ls \<and> ''le'' \<notin> set ls) catalogue"
  by code_simp

lemma catalogue_well_formed: "list_all well_formed all_metrics"
proof -
  have "wellk k \<longleftrightarrow> (case buckets k of None \<Rightarrow> True | Some bs \<Rightarrow> sorted_wrt (<) bs \<and> 2 \<le> length bs)" for k
    by (cases k) simp_all
  then show ?thesis using names_plain kinds_well unfolding catalogue [symmetric] by (auto simp: list_all_iff well_formed_def)
qed

text \<open>
  The catalogue loads. Names, labels and buckets are all valid and no two metrics share
  a series, suffixes included, so that importing the module registers every metric and
  does not raise, in every registry that has no series of the program yet.
\<close>

theorem catalogue_registers:
  assumes "registry_law register names" "metric_call_law call" "\<forall>n\<in>names r. \<not> starts_with ''compliance_'' n"
  shows "\<exists>r' s. import_metrics register call r ss = (Ok r', ss @ [s]) \<and> sm_metric s = system_info"
proof -
  have "\<forall>m\<in>set all_metrics. series m \<inter> names r = {}"
    using assms(3) stems_prefixed by (fastforce simp: series_def list_all_iff starts_with_iff)
  then obtain r' where "register_all register all_metrics r = Ok r'"
    using register_all_ok [OF assms(1) catalogue_well_formed stems_bare stems_distinct] by blast
  moreover have "labelled \<lparr>sm_metric = system_info, sm_labels = [], sm_action = SetInfo kvs\<rparr>" for kvs
    by (simp add: labelled_def labels_used)
  ultimately show ?thesis using assms(2) by (simp add: import_metrics_def emit_def metric_call_law_def)
qed

text \<open>
  A failed run is counted as a success: the samples of a pipeline run do not depend on
  how it ended. The uploads of demo payloads are counted as production's.
\<close>

lemma run_counted_as_success:
  assumes "metric_call_law call"
  shows "\<exists>new s. record_pipeline_run call oc d c sc g r demo ss = (Ok (), ss @ new) \<and> s \<in> set new \<and>
    sm_metric s = pipeline_runs_total \<and> map_of (sm_labels s) ''status'' = Some ''success''"
  unfolding record_pipeline_run_def Let_def
  by (subst emit_all_ok [OF assms]) (simp_all add: labelled_def labels_used conj_disj_distribR ex_disj_distrib)

section \<open>Witnesses\<close>

text \<open>A client that keeps the series in a set and raises where the documentation says so.\<close>

definition strict_register :: "metric \<Rightarrow> string set \<Rightarrow> string set result" where
  "strict_register m r = (if well_formed m \<and> series m \<inter> r = {} then Ok (r \<union> series m)
     else Raise (ValueError ''Duplicated timeseries in CollectorRegistry''))"

definition strict_call :: "sample \<Rightarrow> unit result" where
  "strict_call s = (if labelled s then Ok () else Raise (ValueError ''Incorrect label names''))"

lemma strict_client: "registry_law strict_register (\<lambda>r. r)" "metric_call_law strict_call"
  by (auto simp: registry_law_def strict_register_def metric_call_law_def strict_call_def)

theorem metric_calls_accepted_witness:
  "\<exists>new. record_report strict_call (Wipe_Recorded 3 1) [] = (Ok (), new) \<and> new \<noteq> [] \<and> list_all labelled new"
  using metric_calls_accepted [OF strict_client(2), of "Wipe_Recorded 3 1" "[]"] by auto

theorem catalogue_registers_witness:
  "\<exists>r'. fst (import_metrics strict_register strict_call {''python_info''} []) = Ok r'"
  using catalogue_registers [OF strict_client, of "{''python_info''}" "[]"] by auto

end
