(* ===== verification/Tracing.thy ===== *)
theory Tracing
  imports Process PyUuid
begin

text \<open>
  \<open>observability/tracing.py\<close>: spans around the work of the pipeline. The OpenTelemetry
  packages are a parameter with a state of their own; \<open>api_never_raises\<close> states what
  their specification promises. A span is a function from the step it surrounds.
\<close>

section \<open>The module and the library\<close>

datatype attr = Attr_Str string | Attr_Bool bool | Attr_Int int

text \<open>
  What is called: the factory of tracers, the entry and the exit of the block of a
  current span, the three calls on a span, the identifier of the current one, and the
  provider and exporter of the SDK.
\<close>

record 'w otel =
  ot_get_tracer :: "string \<Rightarrow> unit result"
  ot_start :: "string \<Rightarrow> string \<Rightarrow> ('w, unit) step"
  ot_exit :: "exn option \<Rightarrow> ('w, unit) step"
  ot_set_attribute :: "string \<Rightarrow> attr \<Rightarrow> ('w, unit) step"
  ot_set_error_status :: "string \<Rightarrow> ('w, unit) step"
  ot_record_exception :: "exn \<Rightarrow> ('w, unit) step"
  ot_trace_id :: "'w \<Rightarrow> uuid option result"
  ot_new_provider :: "string \<Rightarrow> ('w, unit) step"
  ot_add_exporter :: "string \<Rightarrow> ('w, unit) step"
  ot_set_provider :: "('w, unit) step"

text \<open>The globals of the module: the imported library, if any, and two flags.\<close>

record 'w tracing =
  tr_library :: "'w otel option"
  tr_enabled :: bool
  tr_configured :: bool

definition otel_enabled :: "env_items \<Rightarrow> bool" where
  "otel_enabled env \<longleftrightarrow> lower (get_or ''OTEL_ENABLED'' env ''false'') = ''true''"

definition import_tracing :: "'w otel option \<Rightarrow> env_items \<Rightarrow> 'w tracing" where
  "import_tracing lib env = \<lparr>tr_library = lib, tr_enabled = otel_enabled env, tr_configured = False\<rparr>"

text \<open>The library, where it is available and enabled.\<close>

definition active :: "'w tracing \<Rightarrow> 'w otel option" where
  "active t = (if tr_enabled t then tr_library t else None)"

section \<open>Configuration\<close>

definition is_import_error :: "exn \<Rightarrow> bool" where
  "is_import_error e \<longleftrightarrow> (case e of OtherExn c m \<Rightarrow> c = ''ImportError'' \<or> c = ''ModuleNotFoundError'' | _ \<Rightarrow> False)"

definition add_exporter :: "'w otel \<Rightarrow> env_items \<Rightarrow> ('w, unit) step" where
  "add_exporter lib env =
     (let otlp_endpoint = get_or ''OTEL_EXPORTER_OTLP_ENDPOINT'' env [] in
      if otlp_endpoint = [] then sret ()
      else (\<lambda>w. case ot_add_exporter lib otlp_endpoint w of
        (Inl e, w') \<Rightarrow> if is_import_error e then (Ok (), w') else (Inl e, w')
      | (Inr _, w') \<Rightarrow> (Ok (), w')))"

definition configure_tracing :: "string \<Rightarrow> env_items \<Rightarrow> ('w tracing \<times> 'w, unit) step" where
  "configure_tracing service_name env = (\<lambda>(t, w).
     if tr_configured t then (Ok (), (t, w))
     else case active t of
       None \<Rightarrow> (Ok (), (t\<lparr>tr_configured := True\<rparr>, w))
     | Some lib \<Rightarrow>
         (Ok (), (t\<lparr>tr_configured := True\<rparr>,
            snd (sbind (ot_new_provider lib service_name) (\<lambda>_. sbind (add_exporter lib env) (\<lambda>_. ot_set_provider lib)) w))))"

section \<open>Tracers and spans\<close>

datatype tracer = NoOp | Tracer string

definition get_tracer :: "'w tracing \<Rightarrow> string \<Rightarrow> tracer" where
  "get_tracer t nm =
     (case active t of
        None \<Rightarrow> NoOp
      | Some lib \<Rightarrow> (case ot_get_tracer lib nm of Inl e \<Rightarrow> NoOp | Inr _ \<Rightarrow> Tracer nm))"

text \<open>A span of the no-op tracer takes every call and does nothing.\<close>

definition on_span :: "'w tracing \<Rightarrow> tracer \<Rightarrow> ('w otel \<Rightarrow> ('w, unit) step) \<Rightarrow> ('w, unit) step" where
  "on_span t tr call = (case (tr, tr_library t) of (Tracer nm, Some lib) \<Rightarrow> call lib | _ \<Rightarrow> sret ())"

definition start_as_current_span :: "'w tracing \<Rightarrow> tracer \<Rightarrow> string \<Rightarrow> ('w, unit) step" where
  "start_as_current_span t tr span_name = on_span t tr (\<lambda>lib. ot_start lib (case tr of Tracer nm \<Rightarrow> nm | NoOp \<Rightarrow> []) span_name)"

definition set_attribute :: "'w tracing \<Rightarrow> tracer \<Rightarrow> string \<times> attr \<Rightarrow> ('w, unit) step" where
  "set_attribute t tr = (\<lambda>(key, v). on_span t tr (\<lambda>lib. ot_set_attribute lib key v))"

definition set_span_error :: "'w tracing \<Rightarrow> tracer \<Rightarrow> exn \<Rightarrow> 'w \<Rightarrow> 'w" where
  "set_span_error t tr e w =
     (case active t of
        None \<Rightarrow> w
      | Some _ \<Rightarrow> snd (sbind (on_span t tr (\<lambda>lib. ot_set_error_status lib (exn_text e)))
          (\<lambda>_. on_span t tr (\<lambda>lib. ot_record_exception lib e)) w))"

text \<open>
  The block of a span around a step of the program, which has a state of its own and may
  use the span: \<open>with\<close> enters the span, sets its attributes, runs the step, marks the
  span if it raises, leaves the span and goes on with the result or the exception.
\<close>

definition in_span ::
  "'w tracing \<Rightarrow> string \<Rightarrow> string \<Rightarrow> (string \<times> attr) list \<Rightarrow> ('w \<times> 'p, 'a) step \<Rightarrow> ('w \<times> 'p, 'a) step" where
  "in_span t tracer_name span_name attributes body = (\<lambda>(w, p).
     let tr = get_tracer t tracer_name in
     case start_as_current_span t tr span_name w of
       (Inl e, w1) \<Rightarrow> (Inl e, (w1, p))
     | (Inr _, w1) \<Rightarrow>
         let (r, (w3, p')) =
           (case seach (set_attribute t tr) attributes w1 of
              (Inl e, w2) \<Rightarrow> (Inl e, (w2, p))
            | (Inr _, w2) \<Rightarrow>
                (case body (w2, p) of
                   (Inl e, (w3, p')) \<Rightarrow> (Inl e, (set_span_error t tr e w3, p'))
                 | (Inr v, s) \<Rightarrow> (Inr v, s)))
         in case on_span t tr (\<lambda>lib. ot_exit lib (case r of Inl e \<Rightarrow> Some e | Inr _ \<Rightarrow> None)) w3 of
              (Inl e, w4) \<Rightarrow> (Inl e, (w4, p'))
            | (Inr _, w4) \<Rightarrow> (r, (w4, p')))"

definition pipeline_span :: "'w tracing \<Rightarrow> string \<Rightarrow> string \<Rightarrow> bool \<Rightarrow> bool \<Rightarrow> ('w \<times> 'p, 'a) step \<Rightarrow> ('w \<times> 'p, 'a) step" where
  "pipeline_span t application_id guideline_version_id is_retro_eval is_demo =
     in_span t ''complianceloop.pipeline'' ''complianceloop.pipeline.run''
       [(''compliance.application_id'', Attr_Str application_id), (''compliance.guideline_version_id'', Attr_Str guideline_version_id),
        (''compliance.is_retro_eval'', Attr_Bool is_retro_eval), (''compliance.is_demo'', Attr_Bool is_demo)]"

definition agent_span :: "'w tracing \<Rightarrow> string \<Rightarrow> string \<Rightarrow> bool \<Rightarrow> ('w \<times> 'p, 'a) step \<Rightarrow> ('w \<times> 'p, 'a) step" where
  "agent_span t agent_name application_id is_demo =
     in_span t (''complianceloop.agent.'' @ agent_name) (''complianceloop.agent.'' @ agent_name)
       [(''compliance.agent_name'', Attr_Str agent_name), (''compliance.application_id'', Attr_Str application_id),
        (''compliance.is_demo'', Attr_Bool is_demo)]"

definition audit_write_span :: "'w tracing \<Rightarrow> string \<Rightarrow> bool \<Rightarrow> ('w \<times> 'p, 'a) step \<Rightarrow> ('w \<times> 'p, 'a) step" where
  "audit_write_span t decision_id is_demo =
     in_span t ''complianceloop.audit'' ''complianceloop.audit.write''
       [(''compliance.decision_id'', Attr_Str decision_id), (''compliance.is_demo'', Attr_Bool is_demo)]"

definition faiss_retrieval_span :: "'w tracing \<Rightarrow> string \<Rightarrow> int \<Rightarrow> ('w \<times> 'p, 'a) step \<Rightarrow> ('w \<times> 'p, 'a) step" where
  "faiss_retrieval_span t query_preview top_k =
     in_span t ''complianceloop.retrieval'' ''complianceloop.retrieval.faiss''
       [(''compliance.query_preview'', Attr_Str (take 100 query_preview)), (''compliance.top_k'', Attr_Int top_k)]"

definition retro_eval_span :: "'w tracing \<Rightarrow> string \<Rightarrow> string \<Rightarrow> bool \<Rightarrow> ('w \<times> 'p, 'a) step \<Rightarrow> ('w \<times> 'p, 'a) step" where
  "retro_eval_span t application_id guideline_version_id is_demo =
     in_span t ''complianceloop.retro_eval'' ''complianceloop.retro_eval.run''
       [(''compliance.application_id'', Attr_Str application_id), (''compliance.guideline_version_id'', Attr_Str guideline_version_id),
        (''compliance.is_demo'', Attr_Bool is_demo)]"

text \<open>\<open>format(n, "032x")\<close> of a trace identifier of 128 bits.\<close>

definition get_current_trace_id :: "'w tracing \<Rightarrow> 'w \<Rightarrow> string option" where
  "get_current_trace_id t w =
     (case active t of
        None \<Rightarrow> None
      | Some lib \<Rightarrow> (case ot_trace_id lib w of Inl e \<Rightarrow> None | Inr i \<Rightarrow> map_option uuid_hex i))"

section \<open>Spans do not disturb\<close>

definition api_never_raises :: "'w otel \<Rightarrow> bool" where
  "api_never_raises lib \<longleftrightarrow> (\<forall>w.
     (\<forall>tn sn. fst (ot_start lib tn sn w) = Ok ()) \<and> (\<forall>k v. fst (ot_set_attribute lib k v w) = Ok ()) \<and>
     (\<forall>x. fst (ot_exit lib x w) = Ok ()))"

text \<open>A step that does not touch the library's state.\<close>

definition on_program :: "('p, 'a) step \<Rightarrow> ('w \<times> 'p, 'a) step" where
  "on_program m = (\<lambda>(w, p). case m p of (r, p') \<Rightarrow> (r, (w, p')))"

definition safe_library :: "'w tracing \<Rightarrow> bool" where
  "safe_library t \<longleftrightarrow> (case active t of None \<Rightarrow> True | Some lib \<Rightarrow> api_never_raises lib)"

lemma on_span_quiet:
  assumes "safe_library t" "\<And>lib w. api_never_raises lib \<Longrightarrow> fst (call lib w) = Ok ()"
  shows "fst (on_span t (get_tracer t nm) call w) = Ok ()"
  using assms by (auto simp: on_span_def get_tracer_def safe_library_def active_def sret_def split: option.splits sum.splits if_splits)

lemma seach_quiet:
  assumes "\<And>x w. fst (f x w) = Ok ()"
  shows "fst (seach f xs w) = Ok ()"
proof (induction xs arbitrary: w)
  case (Cons x xs)
  then show ?case using assms [of x w] by (auto split: prod.splits)
qed simp

lemma span_quiet:
  assumes "safe_library t"
  shows "fst (start_as_current_span t (get_tracer t nm) sn w) = Ok ()"
    and "fst (seach (set_attribute t (get_tracer t nm)) attributes w) = Ok ()"
    and "fst (on_span t (get_tracer t nm) (\<lambda>lib. ot_exit lib x) w) = Ok ()"
  unfolding start_as_current_span_def set_attribute_def
  by (auto intro!: on_span_quiet [OF assms] seach_quiet simp: api_never_raises_def split: prod.splits)

text \<open>A step that gives the result of \<open>m\<close> and has its effect on the program.\<close>

definition acts_as :: "('p, 'a) step \<Rightarrow> ('w \<times> 'p, 'a) step \<Rightarrow> bool" where
  "acts_as m f \<longleftrightarrow> (\<forall>w p. \<exists>w'. f (w, p) = (fst (m p), (w', snd (m p))))"

lemma on_program_acts: "acts_as m (on_program m)"
  by (simp add: acts_as_def on_program_def split: prod.split)

lemma in_span_acts:
  assumes "safe_library t" and body: "acts_as m body"
  shows "acts_as m (in_span t tn sn attributes body)"
  unfolding acts_as_def
proof (intro allI)
  fix w p
  obtain w1 where 1: "start_as_current_span t (get_tracer t tn) sn w = (Ok (), w1)"
    using span_quiet(1) [OF assms(1)] by (metis prod.collapse)
  obtain w2 where 2: "seach (set_attribute t (get_tracer t tn)) attributes w1 = (Ok (), w2)"
    using span_quiet(2) [OF assms(1)] by (metis prod.collapse)
  obtain w3 where 3: "body (w2, p) = (fst (m p), (w3, snd (m p)))" using body unfolding acts_as_def by blast
  have 4: "\<exists>w'. on_span t (get_tracer t tn) (\<lambda>lib. ot_exit lib x) w = (Ok (), w')" for x w
    using span_quiet(3) [OF assms(1)] by (metis prod.collapse)
  show "\<exists>w'. in_span t tn sn attributes body (w, p) = (fst (m p), (w', snd (m p)))"
  proof (cases "fst (m p)")
    case (Inl e)
    then show ?thesis using 3 4 [of "Some e" "set_span_error t (get_tracer t tn) e w3"] by (auto simp: in_span_def Let_def 1 2)
  next
    case (Inr v)
    then show ?thesis using 3 4 [of None w3] by (auto simp: in_span_def Let_def 1 2)
  qed
qed

section \<open>Spans nest\<close>

text \<open>
  The context of current spans, as the library documents it: entering pushes a span,
  leaving takes it off, the other calls leave the context as it is.
\<close>

definition context_law :: "'w otel \<Rightarrow> ('w \<Rightarrow> 'c list) \<Rightarrow> bool" where
  "context_law lib cur \<longleftrightarrow> (\<forall>w.
     (\<forall>tn sn. case ot_start lib tn sn w of (Inl e, w') \<Rightarrow> cur w' = cur w | (Inr _, w') \<Rightarrow> cur w' \<noteq> [] \<and> tl (cur w') = cur w) \<and>
     (\<forall>x. cur (snd (ot_exit lib x w)) = tl (cur w)) \<and> (\<forall>k v. cur (snd (ot_set_attribute lib k v w)) = cur w) \<and>
     (\<forall>m. cur (snd (ot_set_error_status lib m w)) = cur w) \<and> (\<forall>e. cur (snd (ot_record_exception lib e w)) = cur w))"

lemma context_start:
  assumes "context_law lib cur"
  shows "ot_start lib tn sn w = (Inl e, w') \<Longrightarrow> cur w' = cur w" and "ot_start lib tn sn w = (Inr u, w') \<Longrightarrow> tl (cur w') = cur w"
proof -
  have "case ot_start lib tn sn w of (Inl e, w') \<Rightarrow> cur w' = cur w | (Inr _, w') \<Rightarrow> cur w' \<noteq> [] \<and> tl (cur w') = cur w"
    using assms by (simp add: context_law_def)
  then show "ot_start lib tn sn w = (Inl e, w') \<Longrightarrow> cur w' = cur w" and "ot_start lib tn sn w = (Inr u, w') \<Longrightarrow> tl (cur w') = cur w"
    by simp_all
qed

lemma context_exit: "context_law lib cur \<Longrightarrow> cur (snd (ot_exit lib x w)) = tl (cur w)"
  by (simp add: context_law_def)

definition keeps :: "('w \<Rightarrow> 'c) \<Rightarrow> ('w \<times> 'p, 'a) step \<Rightarrow> bool" where
  "keeps cur f \<longleftrightarrow> (\<forall>w p. cur (fst (snd (f (w, p)))) = cur w)"

lemma on_span_frame:
  assumes "\<And>lib w. tr_library t = Some lib \<Longrightarrow> cur (snd (call lib w)) = cur w"
  shows "cur (snd (on_span t tr call w)) = cur w"
  using assms by (auto simp: on_span_def sret_def split: tracer.splits option.splits)

lemma set_span_error_frame:
  assumes "case tr_library t of None \<Rightarrow> True | Some lib \<Rightarrow> context_law lib cur"
  shows "cur (set_span_error t tr e w) = cur w"
proof -
  have status: "cur (snd (on_span t tr (\<lambda>lib. ot_set_error_status lib m) w)) = cur w" for m w
    using assms by (intro on_span_frame) (simp add: context_law_def)
  have recorded: "cur (snd (on_span t tr (\<lambda>lib. ot_record_exception lib e) w)) = cur w" for e w
    using assms by (intro on_span_frame) (simp add: context_law_def)
  show ?thesis using status [of "exn_text e" w] recorded
    by (auto simp: set_span_error_def sbind_def split: option.splits prod.splits sum.splits)
qed

lemma in_span_keeps:
  assumes law: "case tr_library t of None \<Rightarrow> True | Some lib \<Rightarrow> context_law lib cur" and body: "keeps cur body"
  shows "keeps cur (in_span t tn sn attributes body)"
  unfolding keeps_def
proof (intro allI)
  fix w p
  let ?tr = "get_tracer t tn"
  have attributes: "cur (snd (seach (set_attribute t ?tr) attributes w)) = cur w" for w
    unfolding set_attribute_def using law
    by (intro seach_frame) (auto intro!: on_span_frame simp: context_law_def split: prod.splits)
  have tracer_cases: "?tr = NoOp \<or> (\<exists>lib. tr_library t = Some lib \<and> context_law lib cur \<and> ?tr = Tracer tn)"
    using law by (auto simp: get_tracer_def active_def split: option.splits sum.splits if_splits)
  obtain r1 w1 where 1: "start_as_current_span t ?tr sn w = (r1, w1)" by fastforce
  obtain r2 w2 where 2: "seach (set_attribute t ?tr) attributes w1 = (r2, w2)" by fastforce
  obtain r3 w3 p3 where 3: "body (w2, p) = (r3, (w3, p3))" by (metis prod.exhaust)
  have c2: "cur w2 = cur w1" using attributes [of w1] 2 by simp
  have c3: "cur w3 = cur w2" using body 3 unfolding keeps_def by (metis fst_conv snd_conv)
  have err: "cur (set_span_error t ?tr e w3) = cur w1" for e using set_span_error_frame [OF law] c2 c3 by metis
  show "cur (fst (snd (in_span t tn sn attributes body (w, p)))) = cur w"
  proof (cases r1)
    case (Inl e)
    then have "cur w1 = cur w"
      using tracer_cases 1 context_start(1) by (auto simp: start_as_current_span_def on_span_def sret_def)
    then show ?thesis by (simp add: in_span_def 1 Inl)
  next
    case (Inr u)
    have leave: "cur (snd (on_span t ?tr (\<lambda>lib. ot_exit lib x) v)) = cur w" if "cur v = cur w1" for x v
      using tracer_cases 1 Inr that context_start(2) by (auto simp: start_as_current_span_def on_span_def sret_def context_exit)
    have leave': "cur w' = cur w" if "on_span t ?tr (\<lambda>lib. ot_exit lib x) v = (r, w')" "cur v = cur w1" for x v r w'
      using leave [OF that(2), of x] that(1) by simp
    show ?thesis using Inr c2 c3 leave' err
      by (cases r2; cases r3) (auto simp: in_span_def Let_def 1 2 3 split: prod.splits sum.splits)
  qed
qed

section \<open>Properties\<close>

text \<open>The spans of the module.\<close>

datatype span = Pipeline_Span string string bool bool | Agent_Span string string bool | Audit_Write_Span string bool
  | Retrieval_Span string int | Retro_Eval_Span string string bool

fun run_span :: "'w tracing \<Rightarrow> span \<Rightarrow> ('w \<times> 'p, 'a) step \<Rightarrow> ('w \<times> 'p, 'a) step" where
  "run_span t (Pipeline_Span a g retro demo) = pipeline_span t a g retro demo"
| "run_span t (Agent_Span n a demo) = agent_span t n a demo"
| "run_span t (Audit_Write_Span d demo) = audit_write_span t d demo"
| "run_span t (Retrieval_Span q k) = faiss_retrieval_span t q k"
| "run_span t (Retro_Eval_Span a g demo) = retro_eval_span t a g demo"

text \<open>
  C28: Tracing does not change what it traces. Inside any nesting of spans a step returns or
  raises exactly what it does without them and has the same effect, whether tracing is
  switched off, not installed, or on with a library that keeps its promise not to raise.
\<close>

theorem spans_transparent:
  assumes "safe_library t"
  shows "\<exists>w'. foldr (run_span t) spans (on_program m) (w, p) = (fst (m p), (w', snd (m p)))"
proof -
  have "acts_as m (run_span t sp f)" if "acts_as m f" for sp f
    using in_span_acts [OF assms that]
    by (cases sp) (simp_all add: pipeline_span_def agent_span_def audit_write_span_def faiss_retrieval_span_def retro_eval_span_def)
  then have "acts_as m (foldr (run_span t) spans (on_program m))" by (induction spans) (simp_all add: on_program_acts)
  then show ?thesis by (simp add: acts_as_def)
qed

text \<open>
  Every span that is entered is left. Whatever raises, the library's own calls included,
  after a nesting of spans the spans that are current are those that were before it, so
  that no later record is attached to a span that has ended.
\<close>

theorem spans_are_left:
  assumes "case tr_library t of None \<Rightarrow> True | Some lib \<Rightarrow> context_law lib cur"
  shows "cur (fst (snd (foldr (run_span t) spans (on_program m) (w, p)))) = cur w"
proof -
  have "keeps cur (run_span t sp f)" if "keeps cur f" for sp and f :: "('a \<times> 'c, 'd) step"
    using in_span_keeps [OF assms that]
    by (cases sp) (simp_all add: pipeline_span_def agent_span_def audit_write_span_def faiss_retrieval_span_def retro_eval_span_def)
  moreover have "keeps cur (on_program m :: ('a \<times> 'c, 'd) step)" by (simp add: keeps_def on_program_def split: prod.split)
  ultimately have "keeps cur (foldr (run_span t) spans (on_program m))" by (induction spans) simp_all
  then show ?thesis by (simp add: keeps_def)
qed

text \<open>
  Setting up tracing never raises and is done at most once, and an identifier that goes
  into a log line is 32 digits that read back as the identifier of the current trace.
\<close>

lemma configured_once:
  "\<exists>t' w'. configure_tracing nm env (t, w) = (Ok (), (t', w')) \<and> tr_configured t' \<and>
    configure_tracing nm' env' (t', w') = (Ok (), (t', w'))"
  by (auto simp: configure_tracing_def split: option.splits)

lemma trace_id_text:
  assumes "get_current_trace_id t w = Some s"
  shows "\<exists>lib i. active t = Some lib \<and> ot_trace_id lib w = Ok (Some i) \<and> length s = 32 \<and> set s \<subseteq> hex_chars \<and>
    int_of_hex s = Ok (int (unat i))"
  using assms uuid_hex_chars by (auto simp: get_current_trace_id_def int_of_hex_uuid split: option.splits sum.splits)

section \<open>Witnesses\<close>

text \<open>A library that keeps the names of the current spans.\<close>

definition span_stack :: "string list otel" where
  "span_stack = \<lparr>ot_get_tracer = (\<lambda>_. Ok ()), ot_start = (\<lambda>_ nm w. (Ok (), nm # w)), ot_exit = (\<lambda>_ w. (Ok (), tl w)),
     ot_set_attribute = (\<lambda>_ _. sret ()), ot_set_error_status = (\<lambda>_. sret ()), ot_record_exception = (\<lambda>_. sret ()),
     ot_trace_id = (\<lambda>_. Ok None), ot_new_provider = (\<lambda>_. sret ()), ot_add_exporter = (\<lambda>_. sret ()), ot_set_provider = sret ()\<rparr>"

lemma span_stack_laws: "api_never_raises span_stack" "context_law span_stack (\<lambda>w. w)"
  by (auto simp: api_never_raises_def context_law_def span_stack_def sret_def)

definition traced :: "string list tracing" where
  "traced = import_tracing (Some span_stack) [(''OTEL_ENABLED'', ''True'')]"

lemma traced_library: "active traced = Some span_stack" "tr_library traced = Some span_stack"
proof -
  have "otel_enabled [(''OTEL_ENABLED'', ''True'')]" by code_simp
  then show "active traced = Some span_stack" "tr_library traced = Some span_stack"
    by (simp_all add: traced_def active_def import_tracing_def)
qed

theorem spans_transparent_witness:
  "\<exists>w'. foldr (run_span traced) [Pipeline_Span ''a'' ''g'' False False, Agent_Span ''rag'' ''a'' False]
     (on_program (\<lambda>p. (Raise (ValueError ''v'') :: nat result, p + (1 :: nat)))) ([], 0) = (Raise (ValueError ''v''), (w', 1))"
proof -
  have "safe_library traced" by (simp add: safe_library_def traced_library span_stack_laws)
  from spans_transparent [OF this, of "[Pipeline_Span ''a'' ''g'' False False, Agent_Span ''rag'' ''a'' False]"
      "\<lambda>p. (Raise (ValueError ''v'') :: nat result, p + (1 :: nat))" "[]" 0]
  show ?thesis by simp
qed

theorem spans_are_left_witness:
  "fst (snd (foldr (run_span traced) [Audit_Write_Span ''d'' True]
     (on_program (\<lambda>p. (Raise (ValueError ''v'') :: nat result, p + (1 :: nat)))) ([''outer''], 0))) = [''outer'']"
proof -
  have "case tr_library traced of None \<Rightarrow> True | Some lib \<Rightarrow> context_law lib (\<lambda>w. w)" by (simp add: traced_library span_stack_laws)
  from spans_are_left [OF this, of "[Audit_Write_Span ''d'' True]" "\<lambda>p. (Raise (ValueError ''v'') :: nat result, p + (1 :: nat))" "[''outer'']" 0]
  show ?thesis .
qed

end
