(* ===== verification/Migrations.thy ===== *)
theory Migrations
  imports PyText
begin

text \<open>
  \<open>db/migrations/\<close>: the five revisions of the schema as lists of operations, what each
  operation does to a database, and upgrade and downgrade along the chain. Extensions,
  types, tables with their columns and keys, indexes, functions, triggers and the seeded
  rows are kept; comments and the wording of the seeded notice are left out, the bodies of
  the procedures are in \<open>Breach\<close>. The keywords Alembic and SQLAlchemy take for an index,
  besides those of the dialect, are a parameter.
\<close>

section \<open>Schemas\<close>

datatype sql_type = Uuid | Varchar nat | Text_Type | Boolean | Timestamptz | Date | Integer | Double | Numeric nat nat | Jsonb
  | Varchar_Array nat | Bytea | Enum_Type string "string list"

datatype on_delete = Cascade | Restrict | Set_Null

text \<open>A column is \<open>NOT NULL\<close> unless it is \<open>Nullable\<close>.\<close>

datatype column_option = Primary_Key | Nullable | Unique | Server_Default string | References string string on_delete

datatype column = Column (column_name: string) (column_type: sql_type) (column_options: "column_option list")

datatype sql_value = Text_Value string | Bool_Value bool | Decimal nat | Count nat | Expression string

datatype index_option = Unique_Index | Where string sql_value | Using string | Keyword string

datatype index = Index (index_name: string) (index_table: string) (index_columns: "string list") (index_options: "index_option list")

type_synonym sql_row = "(string \<times> sql_value) list"

record database =
  db_extensions :: "string list"
  db_enum_types :: "(string \<times> string list) list"
  db_tables :: "(string \<times> column list) list"
  db_indexes :: "index list"
  db_functions :: "string list"
  db_triggers :: "(string \<times> string \<times> string) list"
  db_rows :: "(string \<times> sql_row) list"

definition empty_database :: database where
  "empty_database = \<lparr>db_extensions = [], db_enum_types = [], db_tables = [], db_indexes = [], db_functions = [], db_triggers = [], db_rows = []\<rparr>"

section \<open>Operations\<close>

datatype operation =
    Create_Extension string
  | Create_Type string "string list"
  | Create_Table string "column list"
  | Create_Index index
  | Create_Function string
  | Create_Trigger string string string
  | Comment_On_Function string
  | Insert_Row string sql_row
  | Drop_Index string
  | Drop_Table string
  | Drop_Type string
  | Drop_Function string
  | Drop_Trigger string string
  | Delete_Rows string string sql_value

definition programming_error :: "string \<Rightarrow> exn" where
  "programming_error m = OtherExn ''ProgrammingError'' m"

definition relation_names :: "database \<Rightarrow> string list" where
  "relation_names db = map fst (db_tables db) @ map index_name (db_indexes db)"

definition has_table :: "database \<Rightarrow> string \<Rightarrow> bool" where
  "has_table db t \<longleftrightarrow> t \<in> set (map fst (db_tables db))"

definition has_type :: "database \<Rightarrow> string \<Rightarrow> bool" where
  "has_type db n \<longleftrightarrow> n \<in> set (map fst (db_enum_types db))"

definition has_column :: "database \<Rightarrow> string \<Rightarrow> string \<Rightarrow> bool" where
  "has_column db t c \<longleftrightarrow> (case map_of (db_tables db) t of None \<Rightarrow> False | Some cols \<Rightarrow> c \<in> set (map column_name cols))"

fun option_ok :: "database \<Rightarrow> column_option \<Rightarrow> bool" where
  "option_ok db (References t c d) = (case map_of (db_tables db) t of None \<Rightarrow> False
     | Some cols \<Rightarrow> list_ex (\<lambda>k. column_name k = c \<and> Primary_Key \<in> set (column_options k)) cols)"
| "option_ok db _ = True"

fun type_ok :: "database \<Rightarrow> sql_type \<Rightarrow> bool" where
  "type_ok db (Enum_Type n labels) = (has_type db n)"
| "type_ok db _ = True"

text \<open>A table may refer to itself.\<close>

definition columns_ok :: "database \<Rightarrow> string \<Rightarrow> column list \<Rightarrow> bool" where
  "columns_ok db t cols \<longleftrightarrow> list_all (\<lambda>c. type_ok db (column_type c) \<and>
     list_all (option_ok (db\<lparr>db_tables := (t, cols) # db_tables db\<rparr>)) (column_options c)) cols"

fun keyword_of :: "index_option \<Rightarrow> string list" where
  "keyword_of (Keyword k) = [k]"
| "keyword_of _ = []"

fun uses_type :: "string \<Rightarrow> sql_type \<Rightarrow> bool" where
  "uses_type n (Enum_Type m labels) = (m = n)"
| "uses_type n _ = False"

fun refers_to :: "string \<Rightarrow> column_option \<Rightarrow> bool" where
  "refers_to t (References u c d) = (u = t)"
| "refers_to t _ = False"

fun has_default :: "column_option \<Rightarrow> bool" where
  "has_default (Server_Default d) = True"
| "has_default Nullable = True"
| "has_default _ = False"

definition given_or_default :: "sql_row \<Rightarrow> column \<Rightarrow> bool" where
  "given_or_default row c \<longleftrightarrow> column_name c \<in> set (map fst row) \<or> list_ex has_default (column_options c)"

fun covers_row :: "index_option \<Rightarrow> sql_row \<Rightarrow> bool" where
  "covers_row (Where c v) row = (map_of row c = Some v)"
| "covers_row _ row = True"

definition same_on :: "string list \<Rightarrow> sql_row \<Rightarrow> sql_row \<Rightarrow> bool" where
  "same_on cs r r' \<longleftrightarrow> list_all (\<lambda>c. map_of r c \<noteq> None \<and> map_of r c = map_of r' c) cs"

definition index_conflict :: "index \<Rightarrow> sql_row \<Rightarrow> sql_row \<Rightarrow> bool" where
  "index_conflict i r r' \<longleftrightarrow> Unique_Index \<in> set (index_options i) \<and>
     list_all (\<lambda>a. covers_row a r \<and> covers_row a r') (index_options i) \<and> same_on (index_columns i) r r'"

definition row_conflict :: "database \<Rightarrow> string \<Rightarrow> column list \<Rightarrow> sql_row \<Rightarrow> bool" where
  "row_conflict db t cols row \<longleftrightarrow> list_ex (\<lambda>(t', r). t' = t \<and>
     (list_ex (\<lambda>c. Unique \<in> set (column_options c) \<and> same_on [column_name c] r row) cols \<or>
      list_ex (\<lambda>i. index_table i = t \<and> index_conflict i r row) (db_indexes db))) (db_rows db)"

text \<open>
  What PostgreSQL makes of an operation. An index with an unknown keyword is refused by
  the library before anything is sent.
\<close>

fun apply_op :: "string list \<Rightarrow> operation \<Rightarrow> database \<Rightarrow> database result" where
  "apply_op keywords (Create_Extension e) db =
     Ok (if e \<in> set (db_extensions db) then db else db\<lparr>db_extensions := db_extensions db @ [e]\<rparr>)"
| "apply_op keywords (Create_Type n labels) db =
     (if has_type db n then Raise (programming_error ''type already exists'')
      else Ok (db\<lparr>db_enum_types := db_enum_types db @ [(n, labels)]\<rparr>))"
| "apply_op keywords (Create_Table t cols) db =
     (if t \<in> set (relation_names db) then Raise (programming_error ''relation already exists'')
      else if \<not> columns_ok db t cols then Raise (programming_error ''undefined type or referenced key'')
      else Ok (db\<lparr>db_tables := db_tables db @ [(t, cols)]\<rparr>))"
| "apply_op keywords (Create_Index i) db =
     (if \<not> set (concat (map keyword_of (index_options i))) \<subseteq> set keywords
      then Raise (TypeError ''Additional arguments should be named <dialectname>_<argument>'')
      else if index_name i \<in> set (relation_names db) then Raise (programming_error ''relation already exists'')
      else if \<not> has_table db (index_table i) \<or> \<not> list_all (has_column db (index_table i)) (index_columns i)
      then Raise (programming_error ''undefined table or column'')
      else Ok (db\<lparr>db_indexes := db_indexes db @ [i]\<rparr>))"
| "apply_op keywords (Create_Function f) db =
     Ok (if f \<in> set (db_functions db) then db else db\<lparr>db_functions := db_functions db @ [f]\<rparr>)"
| "apply_op keywords (Create_Trigger n t f) db =
     (if \<not> has_table db t \<or> f \<notin> set (db_functions db) then Raise (programming_error ''undefined table or function'')
      else if (n, t) \<in> (\<lambda>(n, t, f). (n, t)) ` set (db_triggers db) then Raise (programming_error ''trigger already exists'')
      else Ok (db\<lparr>db_triggers := db_triggers db @ [(n, t, f)]\<rparr>))"
| "apply_op keywords (Comment_On_Function f) db =
     (if f \<notin> set (db_functions db) then Raise (programming_error ''undefined function'') else Ok db)"
| "apply_op keywords (Insert_Row t row) db =
     (case map_of (db_tables db) t of
        None \<Rightarrow> Raise (programming_error ''undefined table'')
      | Some cols \<Rightarrow>
          if \<not> set (map fst row) \<subseteq> set (map column_name cols) then Raise (programming_error ''undefined column'')
          else if \<not> list_all (given_or_default row) cols then Raise (IntegrityError ''null value in column'')
          else if row_conflict db t cols row then Raise (IntegrityError ''duplicate key value'')
          else Ok (db\<lparr>db_rows := db_rows db @ [(t, row)]\<rparr>))"
| "apply_op keywords (Drop_Index n) db =
     (if n \<notin> set (map index_name (db_indexes db)) then Raise (programming_error ''undefined index'')
      else Ok (db\<lparr>db_indexes := filter (\<lambda>i. index_name i \<noteq> n) (db_indexes db)\<rparr>))"
| "apply_op keywords (Drop_Table t) db =
     (if \<not> has_table db t then Raise (programming_error ''undefined table'')
      else if list_ex (\<lambda>(u, cols). u \<noteq> t \<and> list_ex (\<lambda>c. list_ex (refers_to t) (column_options c)) cols) (db_tables db)
      then Raise (programming_error ''other objects depend on it'')
      else Ok (db\<lparr>db_tables := filter (\<lambda>(u, _). u \<noteq> t) (db_tables db), db_indexes := filter (\<lambda>i. index_table i \<noteq> t) (db_indexes db),
                 db_triggers := filter (\<lambda>(_, u, _). u \<noteq> t) (db_triggers db), db_rows := filter (\<lambda>(u, _). u \<noteq> t) (db_rows db)\<rparr>))"
| "apply_op keywords (Drop_Type n) db =
     (if list_ex (\<lambda>(u, cols). list_ex (\<lambda>c. uses_type n (column_type c)) cols) (db_tables db)
      then Raise (programming_error ''other objects depend on it'')
      else Ok (db\<lparr>db_enum_types := filter (\<lambda>(m, _). m \<noteq> n) (db_enum_types db)\<rparr>))"
| "apply_op keywords (Drop_Function f) db =
     (if f \<in> (\<lambda>(_, _, g). g) ` set (db_triggers db) then Raise (programming_error ''other objects depend on it'')
      else Ok (db\<lparr>db_functions := filter (\<lambda>g. g \<noteq> f) (db_functions db)\<rparr>))"
| "apply_op keywords (Drop_Trigger n t) db =
     Ok (db\<lparr>db_triggers := filter (\<lambda>(m, u, _). \<not> (m = n \<and> u = t)) (db_triggers db)\<rparr>)"
| "apply_op keywords (Delete_Rows t c v) db =
     (if \<not> has_column db t c then Raise (programming_error ''undefined column'')
      else Ok (db\<lparr>db_rows := filter (\<lambda>(u, r). \<not> (u = t \<and> map_of r c = Some v)) (db_rows db)\<rparr>))"

fun run_ops :: "string list \<Rightarrow> operation list \<Rightarrow> database \<Rightarrow> database result" where
  "run_ops keywords [] db = Ok db"
| "run_ops keywords (x # xs) db = rbind (apply_op keywords x db) (run_ops keywords xs)"

section \<open>Tables and indexes of the revisions\<close>

definition api_keys_columns :: "column list" where
  "api_keys_columns =
    [Column ''id'' Uuid [Primary_Key, Server_Default ''gen_random_uuid()''], Column ''key_prefix'' (Varchar 8) [],
     Column ''key_hash'' (Varchar 60) [], Column ''name'' (Varchar 255) [], Column ''description'' Text_Type [Nullable],
     Column ''scopes'' (Varchar_Array 50) [Server_Default (quoted ''{}'')], Column ''is_active'' Boolean [Server_Default ''true''],
     Column ''expires_at'' Timestamptz [Nullable], Column ''last_used_at'' Timestamptz [Nullable],
     Column ''use_count'' Integer [Server_Default ''0''], Column ''created_by'' (Varchar 100) [Nullable],
     Column ''revoked_at'' Timestamptz [Nullable], Column ''revoked_by'' (Varchar 100) [Nullable],
     Column ''created_at'' Timestamptz [Server_Default ''now()''], Column ''updated_at'' Timestamptz [Server_Default ''now()'']]"

definition consent_versions_columns :: "column list" where
  "consent_versions_columns =
    [Column ''id'' Uuid [Primary_Key, Server_Default ''gen_random_uuid()''], Column ''version_id'' (Varchar 50) [Unique],
     Column ''title'' (Varchar 255) [], Column ''consent_text'' Text_Type [], Column ''summary'' Text_Type [Nullable],
     Column ''is_active'' Boolean [Server_Default ''false''], Column ''effective_from'' Timestamptz [],
     Column ''superseded_at'' Timestamptz [Nullable], Column ''change_summary'' Text_Type [Nullable],
     Column ''created_at'' Timestamptz [Server_Default ''now()''], Column ''updated_at'' Timestamptz [Server_Default ''now()'']]"

definition guideline_versions_columns :: "column list" where
  "guideline_versions_columns =
    [Column ''id'' Uuid [Primary_Key, Server_Default ''gen_random_uuid()''], Column ''source_url'' Text_Type [],
     Column ''circular_reference'' (Varchar 200) [], Column ''title'' Text_Type [Nullable],
     Column ''effective_date'' Date [Nullable], Column ''sunset_date'' Date [Nullable], Column ''scraped_at'' Timestamptz [],
     Column ''content_hash'' (Varchar 64) [], Column ''diff_summary'' Text_Type [Nullable],
     Column ''affected_agent_tags'' (Varchar_Array 50) [Server_Default (quoted ''{}'')],
     Column ''parameters'' Jsonb [Server_Default (quoted ''{}'')], Column ''is_active'' Boolean [Server_Default ''false''],
     Column ''promoted_by'' (Varchar 100) [Nullable], Column ''promoted_at'' Timestamptz [Nullable],
     Column ''raw_content_s3_key'' (Varchar 500) [Nullable], Column ''is_demo'' Boolean [Server_Default ''false''],
     Column ''created_at'' Timestamptz [Server_Default ''now()''], Column ''updated_at'' Timestamptz [Server_Default ''now()'']]"

definition reviewers_columns :: "column list" where
  "reviewers_columns =
    [Column ''id'' Uuid [Primary_Key, Server_Default ''gen_random_uuid()''], Column ''email'' (Varchar 255) [Unique],
     Column ''full_name'' (Varchar 255) [],
     Column ''role'' (Enum_Type ''reviewer_role_enum'' [''REVIEWER'', ''SENIOR_REVIEWER'', ''COMPLIANCE_ADMIN'']) [Server_Default (quoted ''REVIEWER'')],
     Column ''is_active'' Boolean [Server_Default ''true''], Column ''notification_webhook_url'' (Varchar 500) [Nullable],
     Column ''created_at'' Timestamptz [Server_Default ''now()''], Column ''updated_at'' Timestamptz [Server_Default ''now()'']]"

definition applications_columns :: "column list" where
  "applications_columns =
    [Column ''id'' Uuid [Primary_Key, Server_Default ''gen_random_uuid()''], Column ''applicant_id'' Uuid [],
     Column ''applicant_name'' (Varchar 255) [], Column ''pan_hmac'' (Varchar 64) [],
     Column ''pan_format_valid'' Boolean [Server_Default ''true''], Column ''loan_amount_requested'' (Numeric 15 2) [],
     Column ''loan_tenure_months'' Integer [], Column ''loan_purpose'' (Varchar 100) [],
     Column ''declared_income'' (Numeric 15 2) [], Column ''declared_obligations'' (Numeric 15 2) [Server_Default ''0''],
     Column ''collateral_value'' (Numeric 15 2) [Nullable], Column ''city_tier'' (Varchar 10) [Nullable],
     Column ''remote_onboarding'' Boolean [Server_Default ''false''],
     Column ''applicant_risk_category'' (Varchar 20) [Server_Default (quoted ''LOW'')],
     Column ''guideline_version_id'' Uuid [Nullable, References ''guideline_versions'' ''id'' Set_Null],
     Column ''payload_encrypted'' Bytea [Nullable], Column ''dpdp_consent_given'' Boolean [],
     Column ''dpdp_consent_version'' (Varchar 50) [], Column ''dpdp_consent_at'' Timestamptz [],
     Column ''data_retention_expires_at'' Timestamptz [], Column ''retention_wiped'' Boolean [Server_Default ''false''],
     Column ''retention_wiped_at'' Timestamptz [Nullable], Column ''submitted_at'' Timestamptz [],
     Column ''source_ip_hash'' (Varchar 64) [Nullable],
     Column ''api_key_id'' Uuid [Nullable, References ''api_keys'' ''id'' Set_Null],
     Column ''is_demo'' Boolean [Server_Default ''false''], Column ''created_at'' Timestamptz [Server_Default ''now()''],
     Column ''updated_at'' Timestamptz [Server_Default ''now()'']]"

definition decisions_columns :: "column list" where
  "decisions_columns =
    [Column ''id'' Uuid [Primary_Key, Server_Default ''gen_random_uuid()''],
     Column ''application_id'' Uuid [References ''applications'' ''id'' Cascade],
     Column ''guideline_version_id'' Uuid [References ''guideline_versions'' ''id'' Restrict],
     Column ''previous_decision_id'' Uuid [Nullable, References ''decisions'' ''id'' Set_Null],
     Column ''run_number'' Integer [Server_Default ''1''], Column ''is_retro_eval'' Boolean [Server_Default ''false''],
     Column ''outcome'' (Enum_Type ''decision_outcome_enum'' [''APPROVE'', ''REVIEW'', ''REJECT'']) [],
     Column ''confidence'' (Numeric 5 4) [], Column ''composite_score'' (Numeric 5 4) [], Column ''agent_outputs'' Jsonb [],
     Column ''outcome_signals'' Jsonb [], Column ''rationale_chain'' Jsonb [], Column ''pipeline_duration_ms'' Integer [Nullable],
     Column ''is_demo'' Boolean [Server_Default ''false''], Column ''created_at'' Timestamptz [Server_Default ''now()''],
     Column ''updated_at'' Timestamptz [Server_Default ''now()'']]"

definition audit_records_columns :: "column list" where
  "audit_records_columns =
    [Column ''id'' Uuid [Primary_Key, Server_Default ''gen_random_uuid()''],
     Column ''decision_id'' Uuid [Unique, References ''decisions'' ''id'' Restrict],
     Column ''application_id'' Uuid [References ''applications'' ''id'' Restrict],
     Column ''guideline_version_id'' Uuid [References ''guideline_versions'' ''id'' Restrict],
     Column ''affected_agent_tags'' (Varchar_Array 50) [Server_Default (quoted ''{}'')],
     Column ''agent_outputs_hash'' (Varchar 64) [], Column ''record_hmac'' (Varchar 64) [],
     Column ''payload_s3_key'' (Varchar 500) [Nullable], Column ''payload_s3_uploaded'' Boolean [Server_Default ''false''],
     Column ''written_at'' Timestamptz [Server_Default ''now()''], Column ''breach_flag'' Boolean [Server_Default ''false''],
     Column ''breach_flagged_at'' Timestamptz [Nullable], Column ''is_demo'' Boolean [Server_Default ''false'']]"

definition reviewer_feedback_columns :: "column list" where
  "reviewer_feedback_columns =
    [Column ''id'' Uuid [Primary_Key, Server_Default ''gen_random_uuid()''],
     Column ''decision_id'' Uuid [References ''decisions'' ''id'' Restrict],
     Column ''reviewer_id'' Uuid [References ''reviewers'' ''id'' Restrict],
     Column ''reviewer_outcome'' (Enum_Type ''reviewer_outcome_enum'' [''CONFIRM_APPROVE'', ''CONFIRM_REJECT'', ''OVERRIDE_APPROVE'', ''OVERRIDE_REJECT'', ''ESCALATE'']) [],
     Column ''reviewer_notes'' Text_Type [Nullable], Column ''pipeline_confidence_at_review'' (Numeric 5 4) [Nullable],
     Column ''review_duration_seconds'' Integer [Nullable], Column ''is_demo'' Boolean [Server_Default ''false''],
     Column ''created_at'' Timestamptz [Server_Default ''now()''], Column ''updated_at'' Timestamptz [Server_Default ''now()'']]"

definition notification_outbox_columns :: "column list" where
  "notification_outbox_columns =
    [Column ''id'' Uuid [Primary_Key, Server_Default ''gen_random_uuid()''],
     Column ''notification_type'' (Enum_Type ''notification_type_enum'' [''DECISION_CHANGE'', ''REVIEW_ASSIGNED'', ''BREACH_ALERT'']) [],
     Column ''channel'' (Enum_Type ''notification_channel_enum'' [''EMAIL'', ''WEBHOOK'']) [],
     Column ''recipient_application_id'' Uuid [Nullable, References ''applications'' ''id'' Set_Null],
     Column ''recipient_reviewer_id'' Uuid [Nullable, References ''reviewers'' ''id'' Set_Null],
     Column ''recipient_email'' (Varchar 255) [Nullable], Column ''recipient_webhook_url'' (Varchar 500) [Nullable],
     Column ''payload'' Jsonb [],
     Column ''status'' (Enum_Type ''notification_status_enum'' [''PENDING'', ''SENT'', ''FAILED'', ''SUPPRESSED'']) [Server_Default (quoted ''PENDING'')],
     Column ''retry_count'' Integer [Server_Default ''0''], Column ''max_retries'' Integer [Server_Default ''3''],
     Column ''next_retry_at'' Timestamptz [Nullable], Column ''sent_at'' Timestamptz [Nullable],
     Column ''failure_reason'' (Varchar 500) [Nullable], Column ''is_demo'' Boolean [Server_Default ''false''],
     Column ''created_at'' Timestamptz [Server_Default ''now()''], Column ''updated_at'' Timestamptz [Server_Default ''now()'']]"

definition calibration_config_columns :: "column list" where
  "calibration_config_columns =
    [Column ''id'' Uuid [Primary_Key, Server_Default ''gen_random_uuid()''],
     Column ''approve_threshold'' Double [Server_Default ''0.82''], Column ''review_threshold'' Double [Server_Default ''0.60''],
     Column ''weight_document'' Double [Server_Default ''0.30''], Column ''weight_sanctions'' Double [Server_Default ''0.25''],
     Column ''weight_temporal'' Double [Server_Default ''0.20''], Column ''weight_transaction'' Double [Server_Default ''0.20''],
     Column ''weight_rag'' Double [Server_Default ''0.05''], Column ''is_active'' Boolean [Server_Default ''false''],
     Column ''version_number'' Integer [Server_Default ''1''], Column ''adjustment_reason'' Text_Type [Nullable],
     Column ''samples_analysed'' Integer [Nullable], Column ''previous_config_id'' (Varchar 36) [Nullable],
     Column ''created_at'' Timestamptz [Server_Default ''now()''], Column ''updated_at'' Timestamptz [Server_Default ''now()'']]"

definition calibration_stats_columns :: "column list" where
  "calibration_stats_columns =
    [Column ''id'' Uuid [Primary_Key, Server_Default ''gen_random_uuid()''],
     Column ''total_decisions_7d'' Integer [Server_Default ''0''], Column ''approve_count_7d'' Integer [Server_Default ''0''],
     Column ''review_count_7d'' Integer [Server_Default ''0''], Column ''reject_count_7d'' Integer [Server_Default ''0''],
     Column ''confidence_mean_7d'' Double [Nullable], Column ''confidence_stddev_7d'' Double [Nullable],
     Column ''confidence_p50_7d'' Double [Nullable], Column ''confidence_p95_7d'' Double [Nullable],
     Column ''override_rate_band_060_065'' Double [Nullable], Column ''override_rate_band_065_070'' Double [Nullable],
     Column ''override_rate_band_070_075'' Double [Nullable], Column ''override_rate_band_075_080'' Double [Nullable],
     Column ''override_rate_band_080_085'' Double [Nullable], Column ''total_feedback_30d'' Integer [Server_Default ''0''],
     Column ''override_approve_30d'' Integer [Server_Default ''0''], Column ''override_reject_30d'' Integer [Server_Default ''0''],
     Column ''approve_threshold_snapshot'' Double [Nullable], Column ''review_threshold_snapshot'' Double [Nullable],
     Column ''run_duration_seconds'' Integer [Nullable], Column ''created_at'' Timestamptz [Server_Default ''now()''],
     Column ''updated_at'' Timestamptz [Server_Default ''now()'']]"

definition retention_events_columns :: "column list" where
  "retention_events_columns =
    [Column ''id'' Uuid [Primary_Key, Server_Default ''gen_random_uuid()''],
     Column ''application_id'' Uuid [References ''applications'' ''id'' Restrict], Column ''wiped_at'' Timestamptz [],
     Column ''wipe_task_run_id'' (Varchar 100) [], Column ''fields_wiped'' Text_Type [],
     Column ''retention_policy_days'' Integer [], Column ''data_retention_expires_at_snapshot'' Timestamptz []]"

definition api_keys_indexes :: "index list" where
  "api_keys_indexes =
    [Index ''ix_api_keys_key_prefix'' ''api_keys'' [''key_prefix''] []]"

definition consent_versions_indexes :: "index list" where
  "consent_versions_indexes =
    [Index ''ix_consent_versions_version_id'' ''consent_versions'' [''version_id''] [Unique_Index],
     Index ''ix_consent_versions_active'' ''consent_versions'' [''is_active''] [Unique_Index, Where ''is_active'' (Bool_Value True)]]"

definition guideline_versions_indexes :: "index list" where
  "guideline_versions_indexes =
    [Index ''ix_guideline_versions_circular_ref'' ''guideline_versions'' [''circular_reference''] [],
     Index ''ix_guideline_versions_is_demo'' ''guideline_versions'' [''is_demo''] [],
     Index ''ix_guideline_versions_active_circular'' ''guideline_versions'' [''circular_reference'', ''is_demo''] [Unique_Index, Where ''is_active'' (Bool_Value True)]]"

definition reviewers_indexes :: "index list" where
  "reviewers_indexes =
    [Index ''ix_reviewers_email'' ''reviewers'' [''email''] [Unique_Index]]"

definition applications_indexes :: "index list" where
  "applications_indexes =
    [Index ''ix_applications_applicant_id'' ''applications'' [''applicant_id''] [],
     Index ''ix_applications_pan_hmac'' ''applications'' [''pan_hmac''] [],
     Index ''ix_applications_submitted_at'' ''applications'' [''submitted_at''] [],
     Index ''ix_applications_loan_purpose'' ''applications'' [''loan_purpose''] [],
     Index ''ix_applications_is_demo'' ''applications'' [''is_demo''] [],
     Index ''ix_applications_guideline_version_id'' ''applications'' [''guideline_version_id''] [],
     Index ''ix_applications_retention_wipe'' ''applications'' [''data_retention_expires_at'', ''retention_wiped''] [],
     Index ''ix_applications_active_demo'' ''applications'' [''is_demo'', ''submitted_at''] [Where ''retention_wiped'' (Bool_Value False)]]"

definition decisions_indexes :: "index list" where
  "decisions_indexes =
    [Index ''ix_decisions_application_id'' ''decisions'' [''application_id''] [],
     Index ''ix_decisions_outcome'' ''decisions'' [''outcome''] [],
     Index ''ix_decisions_guideline_version'' ''decisions'' [''guideline_version_id'', ''outcome''] [],
     Index ''ix_decisions_application_run'' ''decisions'' [''application_id'', ''run_number''] [],
     Index ''ix_decisions_is_demo'' ''decisions'' [''is_demo'', ''created_at''] [],
     Index ''ix_decisions_review_outcomes'' ''decisions'' [''outcome'', ''created_at''] [Where ''outcome'' (Text_Value ''REVIEW'')]]"

definition audit_records_indexes :: "index list" where
  "audit_records_indexes =
    [Index ''ix_audit_records_application_id'' ''audit_records'' [''application_id''] [],
     Index ''ix_audit_records_written_at'' ''audit_records'' [''written_at''] [],
     Index ''ix_audit_records_version_tags'' ''audit_records'' [''guideline_version_id'', ''application_id''] [],
     Index ''ix_audit_records_agent_tags_gin'' ''audit_records'' [''affected_agent_tags''] [Using ''gin''],
     Index ''uq_audit_records_decision_id'' ''audit_records'' [''decision_id''] [Unique_Index]]"

definition reviewer_feedback_indexes :: "index list" where
  "reviewer_feedback_indexes =
    [Index ''ix_reviewer_feedback_decision_id'' ''reviewer_feedback'' [''decision_id''] [],
     Index ''ix_reviewer_feedback_reviewer_id'' ''reviewer_feedback'' [''reviewer_id''] [],
     Index ''ix_reviewer_feedback_created_at'' ''reviewer_feedback'' [''created_at''] [],
     Index ''ix_reviewer_feedback_outcome'' ''reviewer_feedback'' [''reviewer_outcome''] []]"

definition notification_outbox_indexes :: "index list" where
  "notification_outbox_indexes =
    [Index ''ix_notification_outbox_status'' ''notification_outbox'' [''status''] [],
     Index ''ix_notification_outbox_application'' ''notification_outbox'' [''recipient_application_id''] [],
     Index ''ix_notification_outbox_pending'' ''notification_outbox'' [''status'', ''next_retry_at''] [Where ''status'' (Text_Value ''PENDING'')]]"

definition indexes_0002 :: "index list" where
  "indexes_0002 =
    [Index ''ix_guideline_versions_agent_tags_gin'' ''guideline_versions'' [''affected_agent_tags''] [Using ''gin''],
     Index ''ix_guideline_versions_content_hash'' ''guideline_versions'' [''content_hash''] [Keyword ''comment''],
     Index ''ix_audit_records_version_is_demo'' ''audit_records'' [''guideline_version_id'', ''is_demo''] [Keyword ''comment'']]"

definition calibration_config_indexes :: "index list" where
  "calibration_config_indexes =
    [Index ''ix_calibration_config_active'' ''calibration_config'' [''is_active''] [Unique_Index, Where ''is_active'' (Bool_Value True)]]"

definition calibration_stats_indexes :: "index list" where
  "calibration_stats_indexes =
    [Index ''ix_calibration_stats_created_at'' ''calibration_stats'' [''created_at''] []]"

definition indexes_0004 :: "index list" where
  "indexes_0004 =
    [Index ''ix_applications_consent_version'' ''applications'' [''dpdp_consent_version''] [Keyword ''comment'']]"

definition retention_events_indexes :: "index list" where
  "retention_events_indexes =
    [Index ''ix_retention_events_application_id'' ''retention_events'' [''application_id''] [],
     Index ''ix_retention_events_wiped_at'' ''retention_events'' [''wiped_at''] []]"

section \<open>Revisions\<close>

text \<open>A table and its indexes.\<close>

type_synonym table_group = "string \<times> column list \<times> index list"

definition create_group :: "table_group \<Rightarrow> operation list" where
  "create_group = (\<lambda>(t, cols, ixs). Create_Table t cols # map Create_Index ixs)"

definition create_groups :: "table_group list \<Rightarrow> operation list" where
  "create_groups gs = concat (map create_group gs)"

definition groups_0001 :: "table_group list" where
  "groups_0001 =
    [(''api_keys'', api_keys_columns, api_keys_indexes), (''consent_versions'', consent_versions_columns, consent_versions_indexes),
     (''guideline_versions'', guideline_versions_columns, guideline_versions_indexes), (''reviewers'', reviewers_columns, reviewers_indexes),
     (''applications'', applications_columns, applications_indexes), (''decisions'', decisions_columns, decisions_indexes),
     (''audit_records'', audit_records_columns, audit_records_indexes),
     (''reviewer_feedback'', reviewer_feedback_columns, reviewer_feedback_indexes),
     (''notification_outbox'', notification_outbox_columns, notification_outbox_indexes)]"

definition types_0001 :: "(string \<times> string list) list" where
  "types_0001 =
    [(''decision_outcome_enum'', [''APPROVE'', ''REVIEW'', ''REJECT'']),
     (''reviewer_role_enum'', [''REVIEWER'', ''SENIOR_REVIEWER'', ''COMPLIANCE_ADMIN'']),
     (''reviewer_outcome_enum'', [''CONFIRM_APPROVE'', ''CONFIRM_REJECT'', ''OVERRIDE_APPROVE'', ''OVERRIDE_REJECT'', ''ESCALATE'']),
     (''notification_type_enum'', [''DECISION_CHANGE'', ''REVIEW_ASSIGNED'', ''BREACH_ALERT'']),
     (''notification_channel_enum'', [''EMAIL'', ''WEBHOOK'']),
     (''notification_status_enum'', [''PENDING'', ''SENT'', ''FAILED'', ''SUPPRESSED''])]"

definition upgrade_0001 :: "operation list" where
  "upgrade_0001 = map Create_Extension [''pgcrypto'', ''pg_trgm''] @ map (\<lambda>(n, labels). Create_Type n labels) types_0001 @
     create_groups groups_0001"

definition downgrade_0001 :: "operation list" where
  "downgrade_0001 =
     map Drop_Table [''notification_outbox'', ''reviewer_feedback'', ''audit_records'', ''decisions'', ''applications'', ''reviewers'',
       ''guideline_versions'', ''consent_versions'', ''api_keys''] @
     map Drop_Type [''notification_status_enum'', ''notification_channel_enum'', ''notification_type_enum'', ''reviewer_outcome_enum'',
       ''reviewer_role_enum'', ''decision_outcome_enum'']"

definition downgrade_0002 :: "operation list" where
  "downgrade_0002 = map Drop_Index [''ix_audit_records_version_is_demo'', ''ix_guideline_versions_content_hash'',
     ''ix_guideline_versions_agent_tags_gin'']"

text \<open>The first configuration; numbers with two decimals are in hundredths.\<close>

definition initial_config :: sql_row where
  "initial_config =
     [(''id'', Expression ''gen_random_uuid()''), (''approve_threshold'', Decimal 82), (''review_threshold'', Decimal 60),
      (''weight_document'', Decimal 30), (''weight_sanctions'', Decimal 25), (''weight_temporal'', Decimal 20),
      (''weight_transaction'', Decimal 20), (''weight_rag'', Decimal 5), (''is_active'', Bool_Value True), (''version_number'', Count 1),
      (''adjustment_reason'', Text_Value []), (''created_at'', Expression ''now()''), (''updated_at'', Expression ''now()'')]"

definition groups_0003 :: "table_group list" where
  "groups_0003 = [(''calibration_config'', calibration_config_columns, calibration_config_indexes),
     (''calibration_stats'', calibration_stats_columns, calibration_stats_indexes)]"

definition upgrade_0003 :: "operation list" where
  "upgrade_0003 = create_groups groups_0003 @ [Insert_Row ''calibration_config'' initial_config]"

definition downgrade_0003 :: "operation list" where
  "downgrade_0003 = map Drop_Table [''calibration_stats'', ''calibration_config'']"

definition notice_text :: string where
  "notice_text =
     ''By submitting this application, you (the Applicant) consent to the collection, storage, and processing of your'' @
     '' personal data including identity documents, financial information, and credit history by [NBFC Name] (the '' @
     ''Data Fiduciary) for the purpose of evaluating your loan application under the Digital Personal Data Protection'' @
     '' Act, 2023. Your data will be retained for 90 days after the final decision on your application, after which '' @
     ''it will be securely deleted. You may withdraw consent at any time by contacting [NBFC Name] at [contact '' @
     ''details]. This processing is governed by the DPDP Act 2023 and RBI KYC Master Direction 2016.''"

definition notice_summary :: string where
  "notice_summary =
     ''We collect your identity documents, financial information, and credit history to evaluate your loan '' @
     ''application. Your data is deleted 90 days after decision.''"

text \<open>The title and the summary of changes have a character beyond those of a string here and are left empty.\<close>

definition initial_notice :: sql_row where
  "initial_notice =
     [(''id'', Expression ''gen_random_uuid()''), (''version_id'', Text_Value ''v1.0''), (''title'', Text_Value []),
      (''consent_text'', Text_Value notice_text), (''summary'', Text_Value notice_summary), (''is_active'', Bool_Value True),
      (''effective_from'', Expression ''now()''), (''change_summary'', Text_Value []), (''created_at'', Expression ''now()''),
      (''updated_at'', Expression ''now()'')]"

definition upgrade_0004 :: "operation list" where
  "upgrade_0004 = map Create_Index indexes_0004 @ [Insert_Row ''consent_versions'' initial_notice]"

definition downgrade_0004 :: "operation list" where
  "downgrade_0004 = [Drop_Index ''ix_applications_consent_version'', Delete_Rows ''consent_versions'' ''version_id'' (Text_Value ''v1.0'')]"

definition tables_with_updated_at :: "string list" where
  "tables_with_updated_at = [''api_keys'', ''consent_versions'', ''guideline_versions'', ''reviewers'', ''applications'', ''decisions'',
     ''reviewer_feedback'', ''notification_outbox'', ''calibration_config'', ''calibration_stats'']"

definition trigger_name :: "string \<Rightarrow> string" where
  "trigger_name t = ''trigger_'' @ t @ ''_updated_at''"

definition groups_0005 :: "table_group list" where
  "groups_0005 = [(''retention_events'', retention_events_columns, retention_events_indexes)]"

definition upgrade_0005 :: "operation list" where
  "upgrade_0005 =
     create_groups groups_0005 @ Create_Function ''update_updated_at_column'' #
     map (\<lambda>t. Create_Trigger (trigger_name t) t ''update_updated_at_column'') tables_with_updated_at @
     [Create_Function ''break_glass'', Create_Function ''break_glass_range'', Comment_On_Function ''break_glass'',
      Comment_On_Function ''break_glass_range'']"

definition downgrade_0005 :: "operation list" where
  "downgrade_0005 =
     [Drop_Function ''break_glass_range'', Drop_Function ''break_glass''] @
     map (\<lambda>t. Drop_Trigger (trigger_name t) t) tables_with_updated_at @
     [Drop_Function ''update_updated_at_column'', Drop_Table ''retention_events'']"

datatype revision = Revision (revision_id: string) (down_revision: "string option") (upgrade_ops: "operation list")
  (downgrade_ops: "operation list")

definition revisions :: "revision list" where
  "revisions =
     [Revision ''0001'' None upgrade_0001 downgrade_0001,
      Revision ''0002'' (Some ''0001'') (map Create_Index indexes_0002) downgrade_0002,
      Revision ''0003'' (Some ''0002'') upgrade_0003 downgrade_0003,
      Revision ''0004'' (Some ''0003'') upgrade_0004 downgrade_0004,
      Revision ''0005'' (Some ''0004'') upgrade_0005 downgrade_0005]"

section \<open>Upgrade and downgrade\<close>

text \<open>
  The current revision and the database. Each revision is one transaction
  (\<open>transaction_per_migration\<close>): when it raises, the database stays at the one before.
\<close>

type_synonym migrated = "string option \<times> database"

definition upgrade_one :: "string list \<Rightarrow> revision \<Rightarrow> (migrated, unit) step" where
  "upgrade_one keywords r = (\<lambda>(cur, db).
     case run_ops keywords (upgrade_ops r) db of Inl e \<Rightarrow> (Inl e, (cur, db)) | Inr db' \<Rightarrow> (Ok (), (Some (revision_id r), db')))"

definition downgrade_one :: "string list \<Rightarrow> revision \<Rightarrow> (migrated, unit) step" where
  "downgrade_one keywords r = (\<lambda>(cur, db).
     case run_ops keywords (downgrade_ops r) db of Inl e \<Rightarrow> (Inl e, (cur, db)) | Inr db' \<Rightarrow> (Ok (), (down_revision r, db')))"

fun pending_after :: "string option \<Rightarrow> revision list \<Rightarrow> revision list" where
  "pending_after cur [] = []"
| "pending_after cur (r # rs) = (if down_revision r = cur then r # pending_after (Some (revision_id r)) rs else pending_after cur rs)"

fun applied_before :: "string option \<Rightarrow> revision list \<Rightarrow> revision list" where
  "applied_before cur [] = []"
| "applied_before cur (r # rs) = (if Some (revision_id r) = cur then r # applied_before (down_revision r) rs else applied_before cur rs)"

definition upgrade_head :: "string list \<Rightarrow> (migrated, unit) step" where
  "upgrade_head keywords s = seach (upgrade_one keywords) (pending_after (fst s) revisions) s"

definition downgrade_base :: "string list \<Rightarrow> (migrated, unit) step" where
  "downgrade_base keywords s = seach (downgrade_one keywords) (applied_before (fst s) (rev revisions)) s"

section \<open>Well-formed schemas\<close>

lemma table_update [simp]:
  "has_table (db\<lparr>db_rows := rs\<rparr>) t = has_table db t" "has_table (db\<lparr>db_triggers := ts\<rparr>) t = has_table db t"
  "has_table (db\<lparr>db_functions := fs\<rparr>) t = has_table db t" "has_table (db\<lparr>db_enum_types := es\<rparr>) t = has_table db t"
  "has_table (db\<lparr>db_extensions := xs\<rparr>) t = has_table db t" "has_table (db\<lparr>db_indexes := ixs\<rparr>) t = has_table db t"
  "has_table (db\<lparr>db_tables := db_tables db @ [(u, cols)]\<rparr>) t = (t = u \<or> has_table db t)"
  "has_table (db\<lparr>db_tables := (u, cols) # db_tables db\<rparr>) t = (t = u \<or> has_table db t)"
  "has_table (db\<lparr>db_tables := filter (\<lambda>(v, _). v \<noteq> u) (db_tables db)\<rparr>) t = (t \<noteq> u \<and> has_table db t)"
  by (auto simp: has_table_def)

lemma type_update [simp]:
  "has_type (db\<lparr>db_rows := rs\<rparr>) n = has_type db n" "has_type (db\<lparr>db_triggers := ts\<rparr>) n = has_type db n"
  "has_type (db\<lparr>db_functions := fs\<rparr>) n = has_type db n" "has_type (db\<lparr>db_tables := tabs\<rparr>) n = has_type db n"
  "has_type (db\<lparr>db_extensions := xs\<rparr>) n = has_type db n" "has_type (db\<lparr>db_indexes := ixs\<rparr>) n = has_type db n"
  "has_type (db\<lparr>db_enum_types := db_enum_types db @ [(m, labels)]\<rparr>) n = (n = m \<or> has_type db n)"
  "has_type (db\<lparr>db_enum_types := filter (\<lambda>(k, _). k \<noteq> m) (db_enum_types db)\<rparr>) n = (n \<noteq> m \<and> has_type db n)"
  by (auto simp: has_type_def)

lemma has_column_update [simp]:
  "has_column (db\<lparr>db_rows := rs\<rparr>) t c = has_column db t c" "has_column (db\<lparr>db_triggers := ts\<rparr>) t c = has_column db t c"
  "has_column (db\<lparr>db_functions := fs\<rparr>) t c = has_column db t c" "has_column (db\<lparr>db_enum_types := es\<rparr>) t c = has_column db t c"
  "has_column (db\<lparr>db_extensions := xs\<rparr>) t c = has_column db t c" "has_column (db\<lparr>db_indexes := ixs\<rparr>) t c = has_column db t c"
  by (simp_all add: has_column_def)

lemma has_column_append: "has_column db t c \<Longrightarrow> has_column (db\<lparr>db_tables := db_tables db @ xs\<rparr>) t c"
  by (auto simp: has_column_def map_add_def split: option.splits)

lemma has_column_drop: "u \<noteq> t \<Longrightarrow> has_column (db\<lparr>db_tables := filter (\<lambda>(v, _). v \<noteq> t) (db_tables db)\<rparr>) u c = has_column db u c"
proof -
  assume "u \<noteq> t"
  then have "map_of (filter (\<lambda>(v, _). v \<noteq> t) xs) u = map_of xs u" for xs :: "(string \<times> column list) list"
    by (induction xs) auto
  then show ?thesis by (simp add: has_column_def)
qed

text \<open>What an index and a table need of the rest of the schema.\<close>

definition index_ok :: "database \<Rightarrow> index \<Rightarrow> bool" where
  "index_ok db i \<longleftrightarrow> has_table db (index_table i) \<and> list_all (has_column db (index_table i)) (index_columns i)"

definition needs_met :: "database \<Rightarrow> column list \<Rightarrow> bool" where
  "needs_met db cols \<longleftrightarrow> (\<forall>c\<in>set cols. (\<forall>n. uses_type n (column_type c) \<longrightarrow> has_type db n) \<and>
     (\<forall>x\<in>set (column_options c). \<forall>t. refers_to t x \<longrightarrow> has_table db t))"

definition well_formed_db :: "database \<Rightarrow> bool" where
  "well_formed_db db \<longleftrightarrow> distinct (relation_names db) \<and>
     (\<forall>(t, cols)\<in>set (db_tables db). needs_met db cols) \<and> (\<forall>i\<in>set (db_indexes db). index_ok db i) \<and>
     (\<forall>(n, t, f)\<in>set (db_triggers db). has_table db t \<and> f \<in> set (db_functions db)) \<and>
     (\<forall>(t, r)\<in>set (db_rows db). has_table db t)"

lemma well_formedD:
  assumes "well_formed_db db"
  shows "distinct (relation_names db)" "(t, cols) \<in> set (db_tables db) \<Longrightarrow> needs_met db cols"
    "i \<in> set (db_indexes db) \<Longrightarrow> index_ok db i"
    "(n, t, f) \<in> set (db_triggers db) \<Longrightarrow> has_table db t" "(n, t, f) \<in> set (db_triggers db) \<Longrightarrow> f \<in> set (db_functions db)"
    "(t, r) \<in> set (db_rows db) \<Longrightarrow> has_table db t"
  using assms by (auto simp: well_formed_db_def)

lemma well_formedI:
  assumes "distinct (relation_names db)" "\<And>t cols. (t, cols) \<in> set (db_tables db) \<Longrightarrow> needs_met db cols"
    "\<And>i. i \<in> set (db_indexes db) \<Longrightarrow> index_ok db i"
    "\<And>n t f. (n, t, f) \<in> set (db_triggers db) \<Longrightarrow> has_table db t \<and> f \<in> set (db_functions db)"
    "\<And>t r. (t, r) \<in> set (db_rows db) \<Longrightarrow> has_table db t"
  shows "well_formed_db db"
  using assms by (auto simp: well_formed_db_def)

lemma index_ok_update [simp]:
  "index_ok (db\<lparr>db_rows := rs\<rparr>) i = index_ok db i" "index_ok (db\<lparr>db_triggers := ts\<rparr>) i = index_ok db i"
  "index_ok (db\<lparr>db_functions := fs\<rparr>) i = index_ok db i" "index_ok (db\<lparr>db_enum_types := es\<rparr>) i = index_ok db i"
  "index_ok (db\<lparr>db_extensions := xs\<rparr>) i = index_ok db i" "index_ok (db\<lparr>db_indexes := ixs\<rparr>) i = index_ok db i"
  by (simp_all add: index_ok_def list_all_iff)

lemma needs_met_update [simp]:
  "needs_met (db\<lparr>db_rows := rs\<rparr>) cols = needs_met db cols" "needs_met (db\<lparr>db_triggers := ts\<rparr>) cols = needs_met db cols"
  "needs_met (db\<lparr>db_functions := fs\<rparr>) cols = needs_met db cols" "needs_met (db\<lparr>db_indexes := ixs\<rparr>) cols = needs_met db cols"
  "needs_met (db\<lparr>db_extensions := xs\<rparr>) cols = needs_met db cols"
  by (simp_all add: needs_met_def)

lemma needs_met_mono:
  assumes "needs_met db cols" "\<And>n. has_type db n \<Longrightarrow> has_type db' n" "\<And>t. has_table db t \<Longrightarrow> has_table db' t"
  shows "needs_met db' cols"
  using assms unfolding needs_met_def by blast

lemma relation_names_update [simp]:
  "relation_names (db\<lparr>db_rows := rs\<rparr>) = relation_names db" "relation_names (db\<lparr>db_triggers := ts\<rparr>) = relation_names db"
  "relation_names (db\<lparr>db_functions := fs\<rparr>) = relation_names db" "relation_names (db\<lparr>db_enum_types := es\<rparr>) = relation_names db"
  "relation_names (db\<lparr>db_extensions := xs\<rparr>) = relation_names db"
  by (simp_all add: relation_names_def)

lemma option_ok_refers: "option_ok db x \<Longrightarrow> refers_to t x \<Longrightarrow> has_table db t"
  by (cases x) (auto simp: has_table_def split: option.splits dest: map_of_SomeD intro: rev_image_eqI)

lemma type_ok_uses: "type_ok db ty \<Longrightarrow> uses_type n ty \<Longrightarrow> has_type db n"
  by (cases ty) auto

lemma columns_ok_needs: "columns_ok db t cols \<Longrightarrow> needs_met (db\<lparr>db_tables := db_tables db @ [(t, cols)]\<rparr>) cols"
  using option_ok_refers [of "db\<lparr>db_tables := (t, cols) # db_tables db\<rparr>"] type_ok_uses [of db]
  unfolding columns_ok_def needs_met_def list_all_iff by simp blast

lemma well_formed_create_table:
  assumes wf: "well_formed_db db" and "t \<notin> set (relation_names db)" "columns_ok db t cols"
  shows "well_formed_db (db\<lparr>db_tables := db_tables db @ [(t, cols)]\<rparr>)" (is "well_formed_db ?db")
proof (rule well_formedI)
  show "distinct (relation_names ?db)" using assms(2) well_formedD(1) [OF wf] by (auto simp: relation_names_def)
  fix u cs assume "(u, cs) \<in> set (db_tables ?db)"
  then show "needs_met ?db cs"
    using needs_met_mono [OF well_formedD(2) [OF wf], of u cs ?db] columns_ok_needs [OF assms(3)] by auto
next
  fix i assume "i \<in> set (db_indexes ?db)"
  then show "index_ok ?db i" using well_formedD(3) [OF wf, of i] has_column_append by (simp add: index_ok_def list_all_iff)
qed (use well_formedD(4-6) [OF wf] in \<open>auto\<close>)

lemma well_formed_drop_table:
  assumes wf: "well_formed_db db"
    and free: "\<not> list_ex (\<lambda>(u, cols). u \<noteq> t \<and> list_ex (\<lambda>c. list_ex (refers_to t) (column_options c)) cols) (db_tables db)"
  shows "well_formed_db (db\<lparr>db_tables := filter (\<lambda>(u, _). u \<noteq> t) (db_tables db), db_indexes := filter (\<lambda>i. index_table i \<noteq> t) (db_indexes db),
    db_triggers := filter (\<lambda>(_, u, _). u \<noteq> t) (db_triggers db), db_rows := filter (\<lambda>(u, _). u \<noteq> t) (db_rows db)\<rparr>)"
    (is "well_formed_db ?db")
proof (rule well_formedI)
  show "distinct (relation_names ?db)"
    using well_formedD(1) [OF wf] unfolding relation_names_def by (auto simp: distinct_map_filter)
  fix u cs assume "(u, cs) \<in> set (db_tables ?db)"
  then have u: "(u, cs) \<in> set (db_tables db)" "u \<noteq> t" by auto
  then have "\<not> refers_to t x" if "c \<in> set cs" "x \<in> set (column_options c)" for c x
    using free that by (auto simp: list_ex_iff)
  moreover have "needs_met db cs" using well_formedD(2) [OF wf u(1)] .
  moreover have "has_table ?db v = (v \<noteq> t \<and> has_table db v)" "has_type ?db n = has_type db n" for v n
    by (auto simp: has_table_def has_type_def)
  ultimately show "needs_met ?db cs" unfolding needs_met_def by metis
next
  fix i assume "i \<in> set (db_indexes ?db)"
  then show "index_ok ?db i" using well_formedD(3) [OF wf, of i] has_column_drop [of "index_table i" t db] 
    by (simp add: index_ok_def list_all_iff)
qed (use well_formedD(4-6) [OF wf] in \<open>auto\<close>)

lemma well_formed_apply:
  assumes wf: "well_formed_db db" and run: "apply_op keywords x db = Ok db'"
  shows "well_formed_db db'"
proof (cases x)
  case (Create_Table t cols)
  then show ?thesis using run well_formed_create_table [OF wf, of t cols] by (auto split: if_splits)
next
  case (Drop_Table t)
  then show ?thesis using run well_formed_drop_table [OF wf, of t] by (simp split: if_splits)
next
  case (Create_Index i)
  then have i: "index_name i \<notin> set (relation_names db)" "index_ok db i" and db': "db' = db\<lparr>db_indexes := db_indexes db @ [i]\<rparr>"
    using run by (auto simp: index_ok_def split: if_splits)
  show ?thesis unfolding db' using i well_formedD [OF wf] by (intro well_formedI) (auto simp: relation_names_def)
next
  case (Insert_Row t r)
  then have t: "has_table db t" and db': "db' = db\<lparr>db_rows := db_rows db @ [(t, r)]\<rparr>"
    using run by (auto simp: has_table_def split: option.splits if_splits dest: map_of_SomeD intro: rev_image_eqI)
  show ?thesis unfolding db' using t well_formedD [OF wf] by (intro well_formedI) auto
next
  case (Create_Type n labels)
  then have db': "db' = db\<lparr>db_enum_types := db_enum_types db @ [(n, labels)]\<rparr>" using run by (simp split: if_splits)
  have "needs_met db' cols" if "(t, cols) \<in> set (db_tables db)" for t cols
    by (rule needs_met_mono [OF well_formedD(2) [OF wf that]]) (simp_all add: db')
  then show ?thesis using well_formedD [OF wf] by (intro well_formedI) (auto simp: db')
next
  case (Drop_Type n)
  then have free: "\<not> list_ex (\<lambda>(u, cols). list_ex (\<lambda>c. uses_type n (column_type c)) cols) (db_tables db)"
    and db': "db' = db\<lparr>db_enum_types := filter (\<lambda>(m, _). m \<noteq> n) (db_enum_types db)\<rparr>"
    using run by (auto split: if_splits)
  have "needs_met db' cols" if t: "(t, cols) \<in> set (db_tables db)" for t cols
    using well_formedD(2) [OF wf t] free t unfolding needs_met_def db' by (auto simp: list_ex_iff)
  then show ?thesis using well_formedD [OF wf] by (intro well_formedI) (auto simp: db')
next
  case (Drop_Index n)
  then have db': "db' = db\<lparr>db_indexes := filter (\<lambda>i. index_name i \<noteq> n) (db_indexes db)\<rparr>"
    using run by (simp split: if_splits)
  show ?thesis unfolding db' using well_formedD [OF wf]
    by (intro well_formedI) (auto simp: relation_names_def distinct_map_filter)
next
  case (Create_Trigger n t f)
  then show ?thesis using run well_formedD [OF wf] by (intro well_formedI) (auto split: if_splits)
next
  case (Drop_Trigger n t)
  then show ?thesis using run well_formedD [OF wf] by (intro well_formedI) (auto split: if_splits)
next
  case (Drop_Function f)
  then have "f \<notin> (\<lambda>(_, _, g). g) ` set (db_triggers db)" and db': "db' = db\<lparr>db_functions := filter (\<lambda>g. g \<noteq> f) (db_functions db)\<rparr>"
    using run by (simp_all split: if_splits)
  then have "g \<noteq> f" if "(n, t, g) \<in> set (db_triggers db)" for n t g using that by force
  then show ?thesis unfolding db' using well_formedD [OF wf] by (intro well_formedI) auto
next
  case (Create_Extension e)
  then show ?thesis using run well_formedD [OF wf] by (intro well_formedI) (auto split: if_splits)
next
  case (Create_Function f)
  then show ?thesis using run well_formedD [OF wf] by (intro well_formedI) (auto split: if_splits)
next
  case (Comment_On_Function f)
  then show ?thesis using run wf by (auto split: if_splits)
next
  case (Delete_Rows t c v)
  then show ?thesis using run well_formedD [OF wf] by (intro well_formedI) (auto split: if_splits)
qed

lemma well_formed_run: "well_formed_db db \<Longrightarrow> run_ops keywords xs db = Ok db' \<Longrightarrow> well_formed_db db'"
  by (induction xs arbitrary: db) (auto simp: rbind_Inr_iff dest: well_formed_apply)

section \<open>Undoing operations\<close>

lemma run_append: "run_ops keywords (xs @ ys) db = rbind (run_ops keywords xs db) (run_ops keywords ys)"
proof (induction xs arbitrary: db)
  case (Cons x xs)
  then show ?case by (cases "apply_op keywords x db") simp_all
qed simp

fun is_extension :: "operation \<Rightarrow> bool" where
  "is_extension (Create_Extension e) = True"
| "is_extension _ = False"

fun is_function :: "operation \<Rightarrow> bool" where
  "is_function (Create_Function f) = True"
| "is_function _ = False"

lemma run_extensions: "run_ops keywords xs db = Ok db' \<Longrightarrow> list_all (\<lambda>x. \<not> is_extension x) xs \<Longrightarrow> db_extensions db' = db_extensions db"
proof (induction xs arbitrary: db)
  case (Cons x xs)
  then obtain db1 where "apply_op keywords x db = Ok db1" "run_ops keywords xs db1 = Ok db'" by (auto simp: rbind_Inr_iff)
  then show ?case using Cons by (cases x) (auto split: if_splits option.splits)
qed simp

lemma run_functions: "run_ops keywords xs db = Ok db' \<Longrightarrow> list_all (\<lambda>x. \<not> is_function x) xs \<Longrightarrow> set (db_functions db') \<subseteq> set (db_functions db)"
proof (induction xs arbitrary: db)
  case (Cons x xs)
  then obtain db1 where x: "apply_op keywords x db = Ok db1" and xs: "run_ops keywords xs db1 = Ok db'" by (auto simp: rbind_Inr_iff)
  have "set (db_functions db1) \<subseteq> set (db_functions db)" using x Cons.prems(2) by (cases x) (auto split: if_splits option.splits)
  then show ?case using Cons.IH [OF xs] Cons.prems(2) by auto
qed simp

lemma filter_all: "(\<And>x. x \<in> set xs \<Longrightarrow> P x) \<Longrightarrow> filter P xs = xs"
  by (simp add: filter_id_conv)

lemma create_indexes_run:
  "run_ops keywords (map Create_Index ixs) db = Ok db' \<Longrightarrow> db' = db\<lparr>db_indexes := db_indexes db @ ixs\<rparr>"
proof (induction ixs arbitrary: db)
  case (Cons i ixs)
  then have "run_ops keywords (map Create_Index ixs) (db\<lparr>db_indexes := db_indexes db @ [i]\<rparr>) = Ok db'" by (auto split: if_splits)
  then show ?case using Cons.IH by fastforce
qed simp

lemma undo_indexes:
  "run_ops keywords (map Create_Index ixs) db = Ok db' \<Longrightarrow> run_ops keywords' (map Drop_Index (rev (map index_name ixs))) db' = Ok db"
proof (induction ixs arbitrary: db)
  case (Cons i ixs)
  then have "index_name i \<notin> set (relation_names db)" and run: "run_ops keywords (map Create_Index ixs) (db\<lparr>db_indexes := db_indexes db @ [i]\<rparr>) = Ok db'"
    by (auto split: if_splits)
  then have "index_name j \<noteq> index_name i" if "j \<in> set (db_indexes db)" for j
    using that by (metis Un_iff image_eqI list.set_map relation_names_def set_append)
  then have "filter (\<lambda>j. index_name j \<noteq> index_name i) (db_indexes db) = db_indexes db" by (rule filter_all)
  then show ?case using Cons.IH [OF run] by (simp add: run_append)
qed simp

lemma undo_types:
  "well_formed_db db \<Longrightarrow> run_ops keywords (map (\<lambda>(n, labels). Create_Type n labels) ts) db = Ok db' \<Longrightarrow>
   run_ops keywords' (map Drop_Type (rev (map fst ts))) db' = Ok db"
proof (induction ts arbitrary: db)
  case (Cons nl ts)
  obtain n labels where nl: "nl = (n, labels)" by (cases nl)
  let ?db = "db\<lparr>db_enum_types := db_enum_types db @ [(n, labels)]\<rparr>"
  have fresh: "\<not> has_type db n" and run: "run_ops keywords (map (\<lambda>(n, labels). Create_Type n labels) ts) ?db = Ok db'"
    using Cons.prems(2) by (auto simp: nl split: if_splits)
  have "well_formed_db ?db"
    using well_formed_apply [OF Cons.prems(1), of "keywords" "Create_Type n labels"] fresh by simp
  then have "run_ops keywords' (map Drop_Type (rev (map fst ts))) db' = Ok ?db" using Cons.IH run by blast
  moreover have "\<not> list_ex (\<lambda>(u, cols). list_ex (\<lambda>c. uses_type n (column_type c)) cols) (db_tables db)"
    using well_formedD(2) [OF Cons.prems(1)] fresh by (auto simp: list_ex_iff needs_met_def)
  moreover have "filter (\<lambda>(m, _). m \<noteq> n) (db_enum_types db) = db_enum_types db"
    using fresh by (intro filter_all) (force simp: has_type_def)
  ultimately show ?case by (simp add: nl run_append)
qed simp

text \<open>Dropping a table gives back the schema it was created in, less the rows on it.\<close>

lemma undo_group:
  assumes wf: "well_formed_db db" and run: "run_ops keywords (create_group (t, cols, ixs)) db = Ok db'"
    and ixs: "list_all (\<lambda>i. index_table i = t) ixs"
  shows "apply_op keywords' (Drop_Table t) (db'\<lparr>db_rows := db_rows db' @ extra\<rparr>) =
    Ok (db\<lparr>db_rows := db_rows db @ filter (\<lambda>(u, _). u \<noteq> t) extra\<rparr>)"
proof -
  have new: "t \<notin> set (relation_names db)"
    and "run_ops keywords (map Create_Index ixs) (db\<lparr>db_tables := db_tables db @ [(t, cols)]\<rparr>) = Ok db'"
    using run by (auto simp: create_group_def split: if_splits)
  then have db': "db' = db\<lparr>db_tables := db_tables db @ [(t, cols)], db_indexes := db_indexes db @ ixs\<rparr>"
    using create_indexes_run by fastforce
  have no: "\<not> has_table db t" using new by (auto simp: has_table_def relation_names_def)
  have "filter (\<lambda>(u, _). u \<noteq> t) (db_tables db) = db_tables db"
    using no by (intro filter_all) (force simp: has_table_def)
  moreover have "filter (\<lambda>i. index_table i \<noteq> t) (db_indexes db) = db_indexes db"
    using no well_formedD(3) [OF wf] by (intro filter_all) (auto simp: index_ok_def)
  moreover have "filter (\<lambda>i. index_table i \<noteq> t) ixs = []" using ixs by (simp add: filter_empty_conv list_all_iff)
  moreover have "filter (\<lambda>(_, u, _). u \<noteq> t) (db_triggers db) = db_triggers db"
    using no well_formedD(4) [OF wf] by (intro filter_all) auto
  moreover have "filter (\<lambda>(u, _). u \<noteq> t) (db_rows db) = db_rows db"
    using no well_formedD(6) [OF wf] by (intro filter_all) auto
  moreover have "\<not> list_ex (\<lambda>(u, cols). u \<noteq> t \<and> list_ex (\<lambda>c. list_ex (refers_to t) (column_options c)) cols) (db_tables db @ [(t, cols)])"
    using well_formedD(2) [OF wf] no by (auto simp: list_ex_iff needs_met_def)
  ultimately show ?thesis by (simp add: db' has_table_def)
qed

lemma undo_groups:
  assumes "well_formed_db db" "run_ops keywords (create_groups gs) db = Ok db'" "list_all (\<lambda>(t, _, ixs). list_all (\<lambda>i. index_table i = t) ixs) gs"
  shows "run_ops keywords' (map Drop_Table (rev (map fst gs))) (db'\<lparr>db_rows := db_rows db' @ extra\<rparr>) =
    Ok (db\<lparr>db_rows := db_rows db @ filter (\<lambda>(u, _). u \<notin> fst ` set gs) extra\<rparr>)"
  using assms
proof (induction gs arbitrary: db)
  case Nil
  then show ?case by (simp add: create_groups_def)
next
  case (Cons g gs)
  obtain t cols ixs where g: "g = (t, cols, ixs)" by (cases g)
  obtain db1 where 1: "run_ops keywords (create_group g) db = Ok db1" "run_ops keywords (create_groups gs) db1 = Ok db'"
    using Cons.prems(2) by (auto simp: create_groups_def run_append rbind_Inr_iff)
  have "well_formed_db db1" using well_formed_run [OF Cons.prems(1) 1(1)] .
  then have "run_ops keywords' (map Drop_Table (rev (map fst gs))) (db'\<lparr>db_rows := db_rows db' @ extra\<rparr>) =
      Ok (db1\<lparr>db_rows := db_rows db1 @ filter (\<lambda>(u, _). u \<notin> fst ` set gs) extra\<rparr>)"
    using Cons.IH 1(2) Cons.prems(3) by simp
  moreover have "filter (\<lambda>(u, _). u \<noteq> t) (filter (\<lambda>(u, _). u \<notin> fst ` set gs) extra) = filter (\<lambda>(u, _). u \<notin> fst ` set (g # gs)) extra"
    by (auto simp: g intro: filter_cong)
  ultimately show ?case
    using undo_group [OF Cons.prems(1) 1(1) [unfolded g]] Cons.prems(3) by (simp add: g run_append)
qed

section \<open>Undoing revisions\<close>

lemma run_create_extensions: "\<exists>xs. run_ops keywords (map Create_Extension es) db = Ok (db\<lparr>db_extensions := xs\<rparr>)"
proof (induction es arbitrary: db)
  case Nil
  have "run_ops keywords [] db = Ok (db\<lparr>db_extensions := db_extensions db\<rparr>)" by simp
  then show ?case by (metis list.simps(8))
next
  case (Cons e es)
  show ?case
  proof (cases "e \<in> set (db_extensions db)")
    case False
    then show ?thesis using Cons.IH [of "db\<lparr>db_extensions := db_extensions db @ [e]\<rparr>"] by simp
  qed (use Cons.IH [of db] in simp)
qed

lemma well_formed_extensions: "well_formed_db (db\<lparr>db_extensions := xs\<rparr>) = well_formed_db db"
  by (simp add: well_formed_db_def)

lemma groups_own_indexes:
  "list_all (\<lambda>(t, _, ixs). list_all (\<lambda>i. index_table i = t) ixs) groups_0001"
  "list_all (\<lambda>(t, _, ixs). list_all (\<lambda>i. index_table i = t) ixs) groups_0003"
  "list_all (\<lambda>(t, _, ixs). list_all (\<lambda>i. index_table i = t) ixs) groups_0005"
  by (simp_all add: groups_0001_def groups_0003_def groups_0005_def api_keys_indexes_def consent_versions_indexes_def guideline_versions_indexes_def reviewers_indexes_def applications_indexes_def decisions_indexes_def
    audit_records_indexes_def reviewer_feedback_indexes_def notification_outbox_indexes_def calibration_config_indexes_def calibration_stats_indexes_def
    retention_events_indexes_def)

lemma undo_groups_only:
  assumes "well_formed_db db" "run_ops keywords (create_groups gs) db = Ok db'" "list_all (\<lambda>(t, _, ixs). list_all (\<lambda>i. index_table i = t) ixs) gs"
  shows "run_ops keywords' (map Drop_Table (rev (map fst gs))) db' = Ok db"
  using undo_groups [OF assms, of keywords' "[]"] by simp

lemma create_groups_kinds:
  "list_all (\<lambda>x. \<not> is_extension x \<and> \<not> is_function x) (create_groups gs)"
  by (auto simp: create_groups_def create_group_def list_all_iff)

lemma undo_0001:
  assumes wf: "well_formed_db db" and run: "run_ops keywords upgrade_0001 db = Ok db'"
  shows "run_ops keywords' downgrade_0001 db' = Ok (db\<lparr>db_extensions := db_extensions db'\<rparr>)"
proof -
  obtain xs where "run_ops keywords (map Create_Extension [''pgcrypto'', ''pg_trgm'']) db = Ok (db\<lparr>db_extensions := xs\<rparr>)"
    using run_create_extensions by blast
  then obtain db2 where types: "run_ops keywords (map (\<lambda>(n, labels). Create_Type n labels) types_0001) (db\<lparr>db_extensions := xs\<rparr>) = Ok db2"
    and groups: "run_ops keywords (create_groups groups_0001) db2 = Ok db'"
    using run by (auto simp: upgrade_0001_def run_append rbind_Inr_iff simp del: list.map)
  have wf1: "well_formed_db (db\<lparr>db_extensions := xs\<rparr>)" using wf well_formed_extensions by simp
  have wf2: "well_formed_db db2" using well_formed_run [OF wf1 types] .
  have "db_extensions db2 = xs" using run_extensions [OF types] by (simp add: list_all_iff case_prod_beta)
  then have ext: "db_extensions db' = xs" using run_extensions [OF groups] create_groups_kinds [of groups_0001] by (simp add: list_all_iff)
  have down: "downgrade_0001 = map Drop_Table (rev (map fst groups_0001)) @ map Drop_Type (rev (map fst types_0001))"
    by (simp add: downgrade_0001_def groups_0001_def types_0001_def)
  show ?thesis unfolding down run_append undo_groups_only [OF wf2 groups groups_own_indexes(1)] ext
    by (simp only: rbind.simps undo_types [OF wf1 types])
qed

lemma undo_0002:
  assumes "run_ops keywords (map Create_Index indexes_0002) db = Ok db'"
  shows "run_ops keywords' downgrade_0002 db' = Ok db"
  using undo_indexes [OF assms] by (simp add: downgrade_0002_def indexes_0002_def)

lemma insert_row_run:
  assumes "run_ops keywords [Insert_Row t r] db = Ok db'"
  shows "db' = db\<lparr>db_rows := db_rows db @ [(t, r)]\<rparr>" and "\<exists>cols. map_of (db_tables db) t = Some cols \<and> \<not> row_conflict db t cols r"
  using assms by (auto split: option.splits if_splits)

lemma undo_0003:
  assumes wf: "well_formed_db db" and run: "run_ops keywords upgrade_0003 db = Ok db'"
  shows "run_ops keywords' downgrade_0003 db' = Ok db"
proof -
  obtain db1 where 1: "run_ops keywords (create_groups groups_0003) db = Ok db1"
    and 2: "run_ops keywords [Insert_Row ''calibration_config'' initial_config] db1 = Ok db'"
    using run by (auto simp: upgrade_0003_def run_append rbind_Inr_iff simp del: run_ops.simps)
  have "downgrade_0003 = map Drop_Table (rev (map fst groups_0003))" by (simp add: downgrade_0003_def groups_0003_def)
  then show ?thesis unfolding insert_row_run(1) [OF 2]
    using undo_groups [OF wf 1 groups_own_indexes(2), of keywords' "[(''calibration_config'', initial_config)]"] by (simp add: groups_0003_def)
qed

lemma undo_0004:
  assumes run: "run_ops keywords upgrade_0004 db = Ok db'" and notice: "map_of (db_tables db) ''consent_versions'' = Some consent_versions_columns"
  shows "run_ops keywords' downgrade_0004 db' = Ok db"
proof -
  obtain db1 where 1: "run_ops keywords (map Create_Index indexes_0004) db = Ok db1"
    and 2: "run_ops keywords [Insert_Row ''consent_versions'' initial_notice] db1 = Ok db'"
    using run by (auto simp: upgrade_0004_def run_append rbind_Inr_iff simp del: run_ops.simps)
  have db1: "db1 = db\<lparr>db_indexes := db_indexes db @ indexes_0004\<rparr>" using create_indexes_run [OF 1] .
  have "run_ops keywords' [Drop_Index ''ix_applications_consent_version''] db1 = Ok db"
    using undo_indexes [OF 1, of keywords'] by (simp add: indexes_0004_def)
  then have there: "''ix_applications_consent_version'' \<in> set (map index_name (db_indexes db1))"
    and "db1\<lparr>db_indexes := filter (\<lambda>i. index_name i \<noteq> ''ix_applications_consent_version'') (db_indexes db1)\<rparr> = db"
    by (simp_all del: list.set_map split: if_splits)
  then have keep: "filter (\<lambda>i. index_name i \<noteq> ''ix_applications_consent_version'') (db_indexes db1) = db_indexes db"
    by (metis (no_types, lifting) database.select_convs(4) database.surjective database.update_convs(4))
  have "\<not> row_conflict db1 ''consent_versions'' consent_versions_columns initial_notice"
    using insert_row_run(2) [OF 2] notice by (simp add: db1)
  moreover have "list_ex (\<lambda>c. Unique \<in> set (column_options c) \<and> same_on [column_name c] r initial_notice) consent_versions_columns"
    if "map_of r ''version_id'' = Some (Text_Value ''v1.0'')" for r
    using that by (simp add: consent_versions_columns_def same_on_def initial_notice_def)
  ultimately have "\<not> (u = ''consent_versions'' \<and> map_of r ''version_id'' = Some (Text_Value ''v1.0''))" if "(u, r) \<in> set (db_rows db)" for u r
    using that by (auto simp: row_conflict_def list_ex_iff db1)
  then have "filter (\<lambda>(u, r). \<not> (u = ''consent_versions'' \<and> map_of r ''version_id'' = Some (Text_Value ''v1.0''))) (db_rows db) = db_rows db"
    by (intro filter_all) auto
  moreover have "has_column db ''consent_versions'' ''version_id''" using notice by (simp add: has_column_def consent_versions_columns_def)
  moreover have "map_of initial_notice ''version_id'' = Some (Text_Value ''v1.0'')" by (simp add: initial_notice_def)
  ultimately show ?thesis unfolding insert_row_run(1) [OF 2] downgrade_0004_def using keep there by (simp add: db1)
qed

lemma create_triggers_run:
  "run_ops keywords (map (\<lambda>t. Create_Trigger (trigger_name t) t f) ts) db = Ok db' \<Longrightarrow>
   db' = db\<lparr>db_triggers := db_triggers db @ map (\<lambda>t. (trigger_name t, t, f)) ts\<rparr> \<and>
   (\<forall>(n, t, g)\<in>set (db_triggers db). \<not> (t \<in> set ts \<and> n = trigger_name t))"
proof (induction ts arbitrary: db)
  case (Cons t ts)
  then have "run_ops keywords (map (\<lambda>t. Create_Trigger (trigger_name t) t f) ts) (db\<lparr>db_triggers := db_triggers db @ [(trigger_name t, t, f)]\<rparr>) = Ok db'"
    and "(trigger_name t, t) \<notin> (\<lambda>(n, t, f). (n, t)) ` set (db_triggers db)"
    by (auto split: if_splits)
  then show ?case using Cons.IH by force
qed simp

lemma drop_triggers_run:
  "run_ops keywords (map (\<lambda>t. Drop_Trigger (trigger_name t) t) ts) db =
   Ok (db\<lparr>db_triggers := filter (\<lambda>(n, t, _). \<not> (t \<in> set ts \<and> n = trigger_name t)) (db_triggers db)\<rparr>)"
proof (induction ts arbitrary: db)
  case Nil
  show ?case by (simp add: case_prod_beta)
next
  case (Cons t ts)
  have "filter (\<lambda>(n, u, _). \<not> (u \<in> set ts \<and> n = trigger_name u)) (filter (\<lambda>(m, u, _). \<not> (m = trigger_name t \<and> u = t)) xs) =
      filter (\<lambda>(n, u, _). \<not> (u \<in> set (t # ts) \<and> n = trigger_name u)) xs" for xs :: "(string \<times> string \<times> string) list"
    by (auto intro: filter_cong)
  then show ?case by (simp add: Cons.IH)
qed

text \<open>The names of the functions of the last revision are not taken.\<close>

definition functions_free :: "database \<Rightarrow> bool" where
  "functions_free db \<longleftrightarrow> set (db_functions db) \<inter> {''update_updated_at_column'', ''break_glass'', ''break_glass_range''} = {}"

lemma undo_0005:
  assumes wf: "well_formed_db db" and run: "run_ops keywords upgrade_0005 db = Ok db'" and free: "functions_free db"
  shows "run_ops keywords' downgrade_0005 db' = Ok db"
proof -
  let ?upd = "''update_updated_at_column''"
  obtain db1 where 1: "run_ops keywords (create_groups groups_0005) db = Ok db1"
    and rest: "run_ops keywords (Create_Function ?upd # map (\<lambda>t. Create_Trigger (trigger_name t) t ?upd) tables_with_updated_at @
      [Create_Function ''break_glass'', Create_Function ''break_glass_range'', Comment_On_Function ''break_glass'',
       Comment_On_Function ''break_glass_range'']) db1 = Ok db'"
    using run by (auto simp: upgrade_0005_def run_append rbind_Inr_iff simp del: run_ops.simps)
  have wf1: "well_formed_db db1" using well_formed_run [OF wf 1] .
  have "set (db_functions db1) \<subseteq> set (db_functions db)" using run_functions [OF 1] create_groups_kinds [of groups_0005] by (simp add: list_all_iff)
  then have free1: "?upd \<notin> set (db_functions db1)" "''break_glass'' \<notin> set (db_functions db1)" "''break_glass_range'' \<notin> set (db_functions db1)"
    using free by (auto simp: functions_free_def)
  obtain db2 where 2: "run_ops keywords (map (\<lambda>t. Create_Trigger (trigger_name t) t ?upd) tables_with_updated_at)
      (db1\<lparr>db_functions := db_functions db1 @ [?upd]\<rparr>) = Ok db2"
    and 3: "run_ops keywords [Create_Function ''break_glass'', Create_Function ''break_glass_range'', Comment_On_Function ''break_glass'',
       Comment_On_Function ''break_glass_range''] db2 = Ok db'"
    using rest free1(1) by (auto simp: run_append rbind_Inr_iff simp del: list.map)
  have db2: "db2 = db1\<lparr>db_functions := db_functions db1 @ [?upd],
      db_triggers := db_triggers db1 @ map (\<lambda>t. (trigger_name t, t, ?upd)) tables_with_updated_at\<rparr>"
    and new: "\<forall>(n, t, g)\<in>set (db_triggers db1). \<not> (t \<in> set tables_with_updated_at \<and> n = trigger_name t)"
    using create_triggers_run [OF 2] by simp_all
  have db': "db' = db2\<lparr>db_functions := db_functions db1 @ [?upd, ''break_glass'', ''break_glass_range'']\<rparr>"
    using 3 free1 by (simp add: db2)
  have others: "f \<notin> (\<lambda>(_, _, g). g) ` set (db_triggers db1)" if "f \<notin> set (db_functions db1)" for f
    using well_formedD(5) [OF wf1] that by auto
  have kept: "filter (\<lambda>g. g \<noteq> f) (db_functions db1) = db_functions db1" if "f \<notin> set (db_functions db1)" for f
    using that by (intro filter_all) auto
  have procs: "run_ops keywords' [Drop_Function ''break_glass_range'', Drop_Function ''break_glass''] db' = Ok db2"
    using others free1 kept by (auto simp: db' db2 image_Un image_image)
  have trigs: "run_ops keywords' (map (\<lambda>t. Drop_Trigger (trigger_name t) t) tables_with_updated_at) db2 =
      Ok (db1\<lparr>db_functions := db_functions db1 @ [?upd]\<rparr>)"
  proof -
    have "filter (\<lambda>(n, t, _). \<not> (t \<in> set tables_with_updated_at \<and> n = trigger_name t)) (db_triggers db1) = db_triggers db1"
      using new by (intro filter_all) auto
    moreover have "filter (\<lambda>(n, t, _). \<not> (t \<in> set tables_with_updated_at \<and> n = trigger_name t))
        (map (\<lambda>t. (trigger_name t, t, ?upd)) tables_with_updated_at) = []"
      by (auto simp: filter_empty_conv)
    ultimately show ?thesis by (simp add: drop_triggers_run db2)
  qed
  have "run_ops keywords' [Drop_Function ?upd, Drop_Table ''retention_events''] (db1\<lparr>db_functions := db_functions db1 @ [?upd]\<rparr>) =
      run_ops keywords' [Drop_Table ''retention_events''] db1"
    using others free1 kept by (simp add: image_Un)
  also have "\<dots> = Ok db" using undo_groups_only [OF wf 1 groups_own_indexes(3), of keywords'] by (simp add: groups_0005_def)
  finally show ?thesis unfolding downgrade_0005_def by (simp only: run_append procs trigs rbind.simps)
qed

section \<open>Whatever was upgraded can be taken back\<close>

fun is_drop_table :: "operation \<Rightarrow> bool" where
  "is_drop_table (Drop_Table t) = True"
| "is_drop_table _ = False"

lemma tables_grow:
  "run_ops keywords xs db = Ok db' \<Longrightarrow> list_all (\<lambda>x. \<not> is_drop_table x) xs \<Longrightarrow>
   (map_of (db_tables db) t = Some cols \<longrightarrow> map_of (db_tables db') t = Some cols) \<and>
   (Create_Table t cols \<in> set xs \<longrightarrow> map_of (db_tables db') t = Some cols)"
proof (induction xs arbitrary: db)
  case (Cons x xs)
  then obtain db1 where x: "apply_op keywords x db = Ok db1" and xs: "run_ops keywords xs db1 = Ok db'" by (auto simp: rbind_Inr_iff)
  have "map_of (db_tables db) t = Some cols \<Longrightarrow> map_of (db_tables db1) t = Some cols"
    using x Cons.prems(2) by (cases x) (auto simp: map_add_def split: if_splits option.splits)
  moreover have "map_of (db_tables db1) t = Some cols" if "x = Create_Table t cols"
  proof -
    have "map_of (db_tables db) t = None" using x that by (auto simp: relation_names_def map_of_eq_None_iff split: if_splits)
    then show ?thesis using x that by (auto simp: map_add_def split: if_splits option.splits)
  qed
  ultimately show ?case using Cons.IH [OF xs] Cons.prems(2) by auto
qed simp

lemma create_groups_no_drop: "list_all (\<lambda>x. \<not> is_drop_table x) (create_groups gs)"
  by (auto simp: create_groups_def create_group_def list_all_iff)

lemma revisions_keep:
  "list_all (\<lambda>x. \<not> is_drop_table x \<and> \<not> is_function x) upgrade_0001"
  "list_all (\<lambda>x. \<not> is_drop_table x \<and> \<not> is_function x \<and> \<not> is_extension x) (map Create_Index indexes_0002)"
  "list_all (\<lambda>x. \<not> is_drop_table x \<and> \<not> is_function x \<and> \<not> is_extension x) upgrade_0003"
  "list_all (\<lambda>x. \<not> is_drop_table x \<and> \<not> is_function x \<and> \<not> is_extension x) upgrade_0004"
  "list_all (\<lambda>x. \<not> is_drop_table x \<and> \<not> is_extension x) upgrade_0005"
  using create_groups_no_drop create_groups_kinds
  by (auto simp: upgrade_0001_def upgrade_0003_def upgrade_0004_def upgrade_0005_def list_all_iff)

text \<open>A schema at a revision, as the later ones expect it.\<close>

definition ready :: "string option \<Rightarrow> database \<Rightarrow> bool" where
  "ready cur db \<longleftrightarrow> well_formed_db db \<and> (cur \<noteq> Some ''0005'' \<longrightarrow> functions_free db) \<and>
     (cur \<noteq> None \<longrightarrow> map_of (db_tables db) ''consent_versions'' = Some consent_versions_columns)"

lemma functions_free_mono: "functions_free db \<Longrightarrow> set (db_functions db') \<subseteq> set (db_functions db) \<Longrightarrow> functions_free db'"
  by (auto simp: functions_free_def)

lemma creates_notice: "Create_Table ''consent_versions'' consent_versions_columns \<in> set upgrade_0001"
  by (simp add: upgrade_0001_def create_groups_def groups_0001_def create_group_def)

lemma revision_ready:
  assumes r: "r \<in> set revisions" and ready: "ready (down_revision r) db" and up: "run_ops keywords (upgrade_ops r) db = Ok db'"
  shows "ready (Some (revision_id r)) db'"
proof -
  have "list_all (\<lambda>x. \<not> is_drop_table x \<and> (revision_id r = ''0005'' \<or> \<not> is_function x)) (upgrade_ops r)"
    using r revisions_keep by (auto simp: revisions_def list_all_iff)
  then have no_drop: "list_all (\<lambda>x. \<not> is_drop_table x) (upgrade_ops r)"
    and no_fn: "revision_id r \<noteq> ''0005'' \<Longrightarrow> list_all (\<lambda>x. \<not> is_function x) (upgrade_ops r)" by (auto simp: list_all_iff)
  have "down_revision r = None \<Longrightarrow> upgrade_ops r = upgrade_0001" "down_revision r \<noteq> Some ''0005''" using r by (auto simp: revisions_def)
  then show ?thesis
    using ready well_formed_run [OF _ up] tables_grow [OF up no_drop] creates_notice functions_free_mono [OF _ run_functions [OF up no_fn]]
    unfolding ready_def by auto
qed

lemma revision_undone:
  assumes r: "r \<in> set revisions" and ready: "ready (down_revision r) db" and up: "run_ops keywords (upgrade_ops r) db = Ok db'"
  shows "run_ops keywords' (downgrade_ops r) db' = Ok (db\<lparr>db_extensions := db_extensions db'\<rparr>)"
    and "down_revision r \<noteq> None \<Longrightarrow> db_extensions db' = db_extensions db"
proof -
  have ext: "db_extensions db' = db_extensions db" if "down_revision r \<noteq> None"
    using r that by (intro run_extensions [OF up]) (use revisions_keep in \<open>auto simp: revisions_def list_all_iff\<close>)
  then show "down_revision r \<noteq> None \<Longrightarrow> db_extensions db' = db_extensions db" by simp
  have wf: "well_formed_db db" using ready by (simp add: ready_def)
  have same: "db_extensions db' = db_extensions db \<Longrightarrow> db\<lparr>db_extensions := db_extensions db'\<rparr> = db" by simp
  consider "r = Revision ''0001'' None upgrade_0001 downgrade_0001" | "r = Revision ''0002'' (Some ''0001'') (map Create_Index indexes_0002) downgrade_0002"
    | "r = Revision ''0003'' (Some ''0002'') upgrade_0003 downgrade_0003" | "r = Revision ''0004'' (Some ''0003'') upgrade_0004 downgrade_0004"
    | "r = Revision ''0005'' (Some ''0004'') upgrade_0005 downgrade_0005" using r by (auto simp: revisions_def)
  then show "run_ops keywords' (downgrade_ops r) db' = Ok (db\<lparr>db_extensions := db_extensions db'\<rparr>)"
  proof cases
    case 1 then show ?thesis using undo_0001 [OF wf] up by simp
  next
    case 2 then show ?thesis using undo_0002 [of "keywords" db db'] up same ext by simp
  next
    case 3 then show ?thesis using undo_0003 [OF wf] up same ext by simp
  next
    case 4 then show ?thesis using undo_0004 [of "keywords" db db'] up same ext ready by (simp add: ready_def)
  next
    case 5 then show ?thesis using undo_0005 [OF wf] up same ext ready by (simp add: ready_def)
  qed
qed

lemma chain: "r \<in> set revisions \<Longrightarrow> applied_before (Some (revision_id r)) (rev revisions) = r # applied_before (down_revision r) (rev revisions)"
proof -
  assume "r \<in> set revisions"
  then consider "r = revisions ! 0" | "r = revisions ! 1" | "r = revisions ! 2" | "r = revisions ! 3" | "r = revisions ! 4"
    by (fastforce simp: revisions_def)
  then show ?thesis by cases (simp_all add: revisions_def)
qed

lemma downgrade_base_None: "downgrade_base keywords (None, db) = (Ok (), (None, db))"
  by (simp add: downgrade_base_def revisions_def)

fun linked :: "string option \<Rightarrow> revision list \<Rightarrow> bool" where
  "linked cur [] = True"
| "linked cur (r # rs) = (down_revision r = cur \<and> linked (Some (revision_id r)) rs)"

definition takes_back :: "string list \<Rightarrow> database \<Rightarrow> migrated \<Rightarrow> bool" where
  "takes_back keywords db0 s \<longleftrightarrow> downgrade_base keywords s = (Ok (), (None, db0\<lparr>db_extensions := db_extensions (snd s)\<rparr>))"

lemma upgrade_one_takes_back:
  assumes r: "r \<in> set revisions" and ready: "ready (down_revision r) db" and up: "run_ops keywords (upgrade_ops r) db = Ok db'"
    and was: "takes_back keywords db0 (down_revision r, db)"
  shows "takes_back keywords db0 (Some (revision_id r), db')"
proof -
  have step: "downgrade_base keywords (Some (revision_id r), db') = downgrade_base keywords (down_revision r, db\<lparr>db_extensions := db_extensions db'\<rparr>)"
    using chain [OF r] revision_undone(1) [OF r ready up] by (simp add: downgrade_base_def downgrade_one_def)
  show ?thesis
  proof (cases "down_revision r")
    case None
    then have "db = db0\<lparr>db_extensions := db_extensions db\<rparr>" using was by (simp add: takes_back_def downgrade_base_None)
    then have "db\<lparr>db_extensions := db_extensions db'\<rparr> = db0\<lparr>db_extensions := db_extensions db'\<rparr>"
      by (metis database.cases database.update_convs(1))
    then show ?thesis using step None by (simp add: takes_back_def downgrade_base_None)
  next
    case (Some v)
    then have same: "db_extensions db' = db_extensions db" using revision_undone(2) [OF r ready up] by simp
    then have "db\<lparr>db_extensions := db_extensions db'\<rparr> = db" by simp
    then show ?thesis using step was same by (simp add: takes_back_def)
  qed
qed

lemma upgrades_take_back:
  "set rs \<subseteq> set revisions \<Longrightarrow> linked cur rs \<Longrightarrow> ready cur db \<Longrightarrow> takes_back keywords db0 (cur, db) \<Longrightarrow>
   takes_back keywords db0 (snd (seach (upgrade_one keywords) rs (cur, db)))"
proof (induction rs arbitrary: cur db)
  case (Cons r rs)
  show ?case
  proof (cases "run_ops keywords (upgrade_ops r) db")
    case (Inl e)
    then show ?thesis using Cons.prems(4) by (simp add: upgrade_one_def)
  next
    case (Inr db')
    have r: "r \<in> set revisions" "ready (down_revision r) db" "takes_back keywords db0 (down_revision r, db)" using Cons.prems by simp_all
    show ?thesis using Cons.IH [OF _ _ revision_ready [OF r(1,2) Inr] upgrade_one_takes_back [OF r(1,2) Inr r(3)]] Cons.prems(1,2) Inr
      by (simp add: upgrade_one_def)
  qed
qed simp


section \<open>Upgrading an empty database\<close>

text \<open>What creating tables needs, checked on the tables alone.\<close>

definition refers_ok :: "(string \<times> string) list \<Rightarrow> column_option \<Rightarrow> bool" where
  "refers_ok keys x = (case x of References t c d \<Rightarrow> (t, c) \<in> set keys | _ \<Rightarrow> True)"

definition column_ok :: "string list \<Rightarrow> (string \<times> string) list \<Rightarrow> column \<Rightarrow> bool" where
  "column_ok types keys c \<longleftrightarrow> (case column_type c of Enum_Type n labels \<Rightarrow> n \<in> set types | _ \<Rightarrow> True) \<and>
     list_all (refers_ok keys) (column_options c)"

definition index_fits :: "string list \<Rightarrow> string \<Rightarrow> column list \<Rightarrow> index \<Rightarrow> bool" where
  "index_fits keywords t cols i \<longleftrightarrow> index_table i = t \<and> list_all (\<lambda>c. c \<in> set (map column_name cols)) (index_columns i) \<and>
     list_all (\<lambda>k. k \<in> set keywords) (concat (map keyword_of (index_options i)))"

definition keys_of :: "table_group \<Rightarrow> (string \<times> string) list" where
  "keys_of = (\<lambda>(t, cols, _). map (\<lambda>c. (t, column_name c)) (filter (\<lambda>c. Primary_Key \<in> set (column_options c)) cols))"

fun groups_ok :: "string list \<Rightarrow> string list \<Rightarrow> (string \<times> string) list \<Rightarrow> table_group list \<Rightarrow> bool" where
  "groups_ok keywords types keys [] = True"
| "groups_ok keywords types keys (g # gs) =
     (let keys' = keys_of g @ keys
      in list_all (column_ok types keys') (fst (snd g)) \<and> list_all (index_fits keywords (fst g) (fst (snd g))) (snd (snd g)) \<and>
         groups_ok keywords types keys' gs)"

definition group_names :: "table_group list \<Rightarrow> string list" where
  "group_names gs = concat (map (\<lambda>(t, _, ixs). t # map index_name ixs) gs)"

definition group_tables :: "table_group list \<Rightarrow> (string \<times> column list) list" where
  "group_tables gs = map (\<lambda>(t, cols, _). (t, cols)) gs"

definition group_indexes :: "table_group list \<Rightarrow> index list" where
  "group_indexes gs = concat (map (\<lambda>(_, _, ixs). ixs) gs)"

lemma create_indexes_ok:
  assumes "distinct (map index_name ixs)" "set (map index_name ixs) \<inter> set (relation_names db) = {}"
    "\<forall>i\<in>set ixs. index_ok db i \<and> set (concat (map keyword_of (index_options i))) \<subseteq> set keywords"
  shows "run_ops keywords (map Create_Index ixs) db = Ok (db\<lparr>db_indexes := db_indexes db @ ixs\<rparr>)"
  using assms
proof (induction ixs arbitrary: db)
  case (Cons i ixs)
  let ?db = "db\<lparr>db_indexes := db_indexes db @ [i]\<rparr>"
  have "apply_op keywords (Create_Index i) db = Ok ?db" using Cons.prems by (simp add: index_ok_def)
  moreover have "run_ops keywords (map Create_Index ixs) ?db = Ok (?db\<lparr>db_indexes := db_indexes ?db @ ixs\<rparr>)"
    using Cons.prems by (intro Cons.IH) (auto simp: relation_names_def)
  ultimately show ?case by simp
qed simp

definition keys_there :: "database \<Rightarrow> (string \<times> string) list \<Rightarrow> bool" where
  "keys_there db keys \<longleftrightarrow> (\<forall>(t, c)\<in>set keys. option_ok db (References t c Cascade))"

lemma column_ok_needs:
  assumes "column_ok types keys c" "set types \<subseteq> set (map fst (db_enum_types db))" "keys_there db keys"
  shows "type_ok db (column_type c) \<and> list_all (option_ok db) (column_options c)"
proof
  show "type_ok db (column_type c)" using assms(1,2) by (cases "column_type c") (auto simp: column_ok_def has_type_def)
  have "option_ok db x" if "refers_ok keys x" for x
    using that assms(3) by (cases x) (auto simp: refers_ok_def keys_there_def)
  then show "list_all (option_ok db) (column_options c)" using assms(1) by (auto simp: column_ok_def list_all_iff)
qed

lemma create_group_ok:
  assumes g: "g = (t, cols, ixs)" and names: "distinct (t # map index_name ixs)" "set (t # map index_name ixs) \<inter> set (relation_names db) = {}"
    and types: "set types \<subseteq> set (map fst (db_enum_types db))" and keys: "keys_there db keys"
    and cols: "list_all (column_ok types (keys_of g @ keys)) cols" and ixs: "list_all (index_fits keywords t cols) ixs"
  defines "db' \<equiv> db\<lparr>db_tables := db_tables db @ [(t, cols)], db_indexes := db_indexes db @ ixs\<rparr>"
  shows "run_ops keywords (create_group g) db = Ok db'" and "keys_there db' (keys_of g @ keys)"
proof -
  let ?front = "db\<lparr>db_tables := (t, cols) # db_tables db\<rparr>" and ?rear = "db\<lparr>db_tables := db_tables db @ [(t, cols)]\<rparr>"
  have new: "\<not> has_table db t" using names(2) by (auto simp: has_table_def relation_names_def)
  then have none: "map_of (db_tables db) t = None" by (simp add: has_table_def map_of_eq_None_iff)
  have own: "option_ok db2 (References t c Cascade)" if "map_of (db_tables db2) t = Some cols" "(t, c) \<in> set (keys_of g)" for db2 c
    using that by (auto simp: keys_of_def g list_ex_iff)
  have fst_own: "u = t" if "(u, c) \<in> set (keys_of g)" for u c using that by (auto simp: keys_of_def g)
  have other: "option_ok ?front (References u c Cascade) \<and> option_ok db' (References u c Cascade)" if "(u, c) \<in> set keys" for u c
  proof -
    have "option_ok db (References u c Cascade)" using keys that by (auto simp: keys_there_def)
    then obtain cs where "map_of (db_tables db) u = Some cs" "list_ex (\<lambda>k. column_name k = c \<and> Primary_Key \<in> set (column_options k)) cs"
      by (auto split: option.splits)
    moreover have "u \<noteq> t" using none calculation(1) by auto
    ultimately show ?thesis by (simp add: db'_def map_add_def)
  qed
  have "map_of (db_tables ?front) t = Some cols" "map_of (db_tables db') t = Some cols" using none by (simp_all add: db'_def map_add_def)
  then have keys': "keys_there ?front (keys_of g @ keys)" "keys_there db' (keys_of g @ keys)"
    using own fst_own other unfolding keys_there_def set_append by blast+
  then show "keys_there db' (keys_of g @ keys)" by simp
  have "type_ok db (column_type c) \<and> list_all (option_ok ?front) (column_options c)" if "c \<in> set cols" for c
  proof -
    have "column_ok types (keys_of g @ keys) c" using cols that by (simp add: list_all_iff)
    from column_ok_needs [OF this _ keys'(1)] types have "type_ok ?front (column_type c) \<and> list_all (option_ok ?front) (column_options c)" by simp
    then show ?thesis by (cases "column_type c") simp_all
  qed
  then have "columns_ok db t cols" by (simp add: columns_ok_def list_all_iff)
  then have create: "apply_op keywords (Create_Table t cols) db = Ok ?rear" using names(2) by simp
  have "index_ok ?rear i \<and> set (concat (map keyword_of (index_options i))) \<subseteq> set keywords" if "i \<in> set ixs" for i
  proof -
    have "index_fits keywords t cols i" using ixs that by (simp add: list_all_iff)
    then show ?thesis using none by (auto simp: index_fits_def index_ok_def has_column_def list_all_iff map_add_def)
  qed
  moreover have "set (map index_name ixs) \<inter> set (relation_names ?rear) = {}" using names by (auto simp: relation_names_def)
  ultimately have "run_ops keywords (map Create_Index ixs) ?rear = Ok (?rear\<lparr>db_indexes := db_indexes ?rear @ ixs\<rparr>)"
    using create_indexes_ok names(1) by simp
  then show "run_ops keywords (create_group g) db = Ok db'" using create by (simp add: g create_group_def db'_def)
qed

lemma create_groups_ok:
  assumes "distinct (group_names gs)" "set (group_names gs) \<inter> set (relation_names db) = {}"
    "set types \<subseteq> set (map fst (db_enum_types db))" "keys_there db keys" "groups_ok keywords types keys gs"
  shows "run_ops keywords (create_groups gs) db =
    Ok (db\<lparr>db_tables := db_tables db @ group_tables gs, db_indexes := db_indexes db @ group_indexes gs\<rparr>)"
  using assms
proof (induction gs arbitrary: db keys)
  case Nil
  then show ?case by (simp add: create_groups_def group_tables_def group_indexes_def)
next
  case (Cons g gs)
  obtain t cols ixs where g: "g = (t, cols, ixs)" by (cases g)
  let ?db = "db\<lparr>db_tables := db_tables db @ [(t, cols)], db_indexes := db_indexes db @ ixs\<rparr>"
  obtain own where own: "own = t # map index_name ixs" by simp
  have "group_names (g # gs) = own @ group_names gs" by (simp add: own group_names_def g)
  then have "distinct own" "set own \<inter> set (relation_names db) = {}"
    and rest: "distinct (group_names gs)" "set (group_names gs) \<inter> set own = {}" "set (group_names gs) \<inter> set (relation_names db) = {}"
    using Cons.prems(1,2) by auto
  then have names: "distinct (t # map index_name ixs)" "set (t # map index_name ixs) \<inter> set (relation_names db) = {}"
    by (simp_all add: own)
  have checks: "list_all (column_ok types (keys_of g @ keys)) cols" "list_all (index_fits keywords t cols) ixs" "groups_ok keywords types (keys_of g @ keys) gs"
    using Cons.prems(5) by (simp_all add: g Let_def)
  note this_group = create_group_ok [OF g names Cons.prems(3,4) checks(1,2)]
  have "set (relation_names ?db) = set (relation_names db) \<union> set own" by (auto simp: relation_names_def own)
  then have "run_ops keywords (create_groups gs) ?db =
      Ok (?db\<lparr>db_tables := db_tables ?db @ group_tables gs, db_indexes := db_indexes ?db @ group_indexes gs\<rparr>)"
    using this_group(2) checks(3) Cons.prems(3) rest by (intro Cons.IH [of ?db "keys_of g @ keys"]) auto
  moreover have "create_groups (g # gs) = create_group g @ create_groups gs" by (simp add: create_groups_def)
  ultimately show ?case using this_group(1) by (simp add: run_append g group_tables_def group_indexes_def)
qed

lemma create_types_ok:
  "distinct (map fst ts) \<Longrightarrow> set (map fst ts) \<inter> set (map fst (db_enum_types db)) = {} \<Longrightarrow>
   run_ops keywords (map (\<lambda>(n, labels). Create_Type n labels) ts) db = Ok (db\<lparr>db_enum_types := db_enum_types db @ ts\<rparr>)"
proof (induction ts arbitrary: db)
  case (Cons nl ts)
  obtain n labels where nl: "nl = (n, labels)" by (cases nl)
  have "\<not> has_type db n" using Cons.prems(2) by (auto simp: nl has_type_def)
  moreover have "run_ops keywords (map (\<lambda>(n, labels). Create_Type n labels) ts) (db\<lparr>db_enum_types := db_enum_types db @ [(n, labels)]\<rparr>) =
      Ok (db\<lparr>db_enum_types := (db_enum_types db @ [(n, labels)]) @ ts\<rparr>)"
    using Cons.prems Cons.IH [of "db\<lparr>db_enum_types := db_enum_types db @ [(n, labels)]\<rparr>"] by (auto simp: nl)
  ultimately show ?case by (simp add: nl)
qed simp

lemma create_triggers_ok:
  assumes "distinct ts" "\<forall>t\<in>set ts. has_table db t" "f \<in> set (db_functions db)" "\<forall>(n, t, g)\<in>set (db_triggers db). t \<notin> set ts"
  shows "run_ops keywords (map (\<lambda>t. Create_Trigger (trigger_name t) t f) ts) db =
    Ok (db\<lparr>db_triggers := db_triggers db @ map (\<lambda>t. (trigger_name t, t, f)) ts\<rparr>)"
  using assms
proof (induction ts arbitrary: db)
  case (Cons t ts)
  have "(trigger_name t, t) \<notin> (\<lambda>(n, t, f). (n, t)) ` set (db_triggers db)" using Cons.prems(4) by auto
  moreover have "run_ops keywords (map (\<lambda>t. Create_Trigger (trigger_name t) t f) ts) (db\<lparr>db_triggers := db_triggers db @ [(trigger_name t, t, f)]\<rparr>) =
      Ok (db\<lparr>db_triggers := (db_triggers db @ [(trigger_name t, t, f)]) @ map (\<lambda>t. (trigger_name t, t, f)) ts\<rparr>)"
  proof -
    have "\<forall>(n, u, g)\<in>set (db_triggers (db\<lparr>db_triggers := db_triggers db @ [(trigger_name t, t, f)]\<rparr>)). u \<notin> set ts"
      using Cons.prems(1,4) by auto
    then show ?thesis using Cons.prems Cons.IH [of "db\<lparr>db_triggers := db_triggers db @ [(trigger_name t, t, f)]\<rparr>"] by simp
  qed
  ultimately show ?case using Cons.prems by simp
qed simp

text \<open>The checks, by computation on the tables of the revisions.\<close>

lemma all_names_distinct:
  "distinct (group_names groups_0001 @ map index_name indexes_0002 @ group_names groups_0003 @ map index_name indexes_0004 @ group_names groups_0005)"
  by (simp add: group_names_def groups_0001_def groups_0003_def groups_0005_def indexes_0002_def indexes_0004_def api_keys_indexes_def consent_versions_indexes_def guideline_versions_indexes_def reviewers_indexes_def applications_indexes_def decisions_indexes_def
    audit_records_indexes_def reviewer_feedback_indexes_def notification_outbox_indexes_def calibration_config_indexes_def calibration_stats_indexes_def
    retention_events_indexes_def)

lemma groups_0001_ok: "groups_ok [] (map fst types_0001) [] groups_0001"
  by code_simp

lemma groups_later_ok: "groups_ok [] [] [] groups_0003" "groups_ok [] [] [(''applications'', ''id'')] groups_0005"
  by code_simp+

lemma later_indexes_there:
  "list_all (\<lambda>i. case map_of (group_tables groups_0001) (index_table i) of None \<Rightarrow> False
     | Some cols \<Rightarrow> list_all (\<lambda>c. c \<in> set (map column_name cols)) (index_columns i)) (indexes_0002 @ indexes_0004)"
  by code_simp

lemma groups_ok_more: "groups_ok [] types keys gs \<Longrightarrow> groups_ok keywords types keys gs"
proof (induction gs arbitrary: keys)
  case (Cons g gs)
  have "index_fits [] t cols i \<Longrightarrow> index_fits keywords t cols i" for t cols i by (auto simp: index_fits_def list_all_iff)
  then show ?case using Cons by (auto simp: Let_def list_all_iff)
qed simp

text \<open>The schema the revisions describe: that of the first one, and that of all five.\<close>

definition first_database :: database where
  "first_database = \<lparr>db_extensions = [''pgcrypto'', ''pg_trgm''], db_enum_types = types_0001, db_tables = group_tables groups_0001,
     db_indexes = group_indexes groups_0001, db_functions = [], db_triggers = [], db_rows = []\<rparr>"

definition migrated_database :: database where
  "migrated_database = \<lparr>db_extensions = [''pgcrypto'', ''pg_trgm''], db_enum_types = types_0001,
     db_tables = group_tables groups_0001 @ group_tables groups_0003 @ group_tables groups_0005,
     db_indexes = group_indexes groups_0001 @ indexes_0002 @ group_indexes groups_0003 @ indexes_0004 @ group_indexes groups_0005,
     db_functions = [''update_updated_at_column'', ''break_glass'', ''break_glass_range''],
     db_triggers = map (\<lambda>t. (trigger_name t, t, ''update_updated_at_column'')) tables_with_updated_at,
     db_rows = [(''calibration_config'', initial_config), (''consent_versions'', initial_notice)]\<rparr>"

lemma names_of_groups: "set (group_names gs) = fst ` set (group_tables gs) \<union> index_name ` set (group_indexes gs)"
proof (induction gs)
  case (Cons g gs)
  obtain t cols ixs where g: "g = (t, cols, ixs)" by (cases g)
  have "set (group_names (g # gs)) = insert t (index_name ` set ixs) \<union> set (group_names gs)" by (simp add: group_names_def g)
  moreover have "group_tables (g # gs) = (t, cols) # group_tables gs" by (simp add: group_tables_def g)
  moreover have "group_indexes (g # gs) = ixs @ group_indexes gs" by (simp add: group_indexes_def g)
  ultimately show ?case using Cons by auto
qed (simp add: group_names_def group_tables_def group_indexes_def)

lemma names_of_relations: "set (relation_names db) = fst ` set (db_tables db) \<union> index_name ` set (db_indexes db)"
  by (simp add: relation_names_def)

lemma upgrade_first: "run_ops keywords upgrade_0001 empty_database = Ok first_database"
proof -
  let ?db = "empty_database\<lparr>db_extensions := [''pgcrypto'', ''pg_trgm''], db_enum_types := types_0001\<rparr>"
  have "run_ops keywords (map Create_Extension [''pgcrypto'', ''pg_trgm'']) empty_database = Ok (empty_database\<lparr>db_extensions := [''pgcrypto'', ''pg_trgm'']\<rparr>)"
    by (simp add: empty_database_def)
  moreover have "distinct (map fst types_0001)" by (simp add: types_0001_def)
  then have "run_ops keywords (map (\<lambda>(n, labels). Create_Type n labels) types_0001) (empty_database\<lparr>db_extensions := [''pgcrypto'', ''pg_trgm'']\<rparr>) = Ok ?db"
    by (subst create_types_ok) (simp_all add: empty_database_def)
  moreover have "run_ops keywords (create_groups groups_0001) ?db = Ok first_database"
    using all_names_distinct groups_ok_more [OF groups_0001_ok]
    by (subst create_groups_ok [where types = "map fst types_0001" and keys = "[]"])
      (simp_all add: keys_there_def empty_database_def relation_names_def first_database_def)
  ultimately show ?thesis by (simp add: upgrade_0001_def run_append del: run_ops.simps list.map)
qed

text \<open>An index on a table of the first revision can be created as long as the table is there.\<close>

lemma later_index_ok:
  assumes "i \<in> set (indexes_0002 @ indexes_0004)" "db_tables db = group_tables groups_0001 @ later"
  shows "index_ok db i"
proof -
  obtain cols where "map_of (group_tables groups_0001) (index_table i) = Some cols" "list_all (\<lambda>c. c \<in> set (map column_name cols)) (index_columns i)"
    using assms(1) later_indexes_there by (auto simp: list_all_iff split: option.splits)
  then have "map_of (db_tables db) (index_table i) = Some cols" and c: "list_all (\<lambda>c. c \<in> set (map column_name cols)) (index_columns i)"
    by (simp_all add: assms(2) map_add_def split: option.split)
  then show ?thesis by (auto simp: index_ok_def has_table_def has_column_def list_all_iff dest: map_of_SomeD intro: rev_image_eqI)
qed

text \<open>The states between the revisions.\<close>

definition second_database :: database where
  "second_database = first_database\<lparr>db_indexes := db_indexes first_database @ indexes_0002\<rparr>"

definition third_database :: database where
  "third_database = second_database\<lparr>db_tables := db_tables second_database @ group_tables groups_0003,
     db_indexes := db_indexes second_database @ group_indexes groups_0003, db_rows := [(''calibration_config'', initial_config)]\<rparr>"

definition fourth_database :: database where
  "fourth_database = third_database\<lparr>db_indexes := db_indexes third_database @ indexes_0004,
     db_rows := [(''calibration_config'', initial_config), (''consent_versions'', initial_notice)]\<rparr>"

lemmas databases = first_database_def second_database_def third_database_def fourth_database_def

lemma distinct_parts:
  assumes "distinct (a @ b @ c @ d @ e)"
  shows "distinct a" "distinct b" "distinct c" "distinct d" "distinct e" "set b \<inter> set a = {}" "set c \<inter> (set a \<union> set b) = {}"
    "set d \<inter> (set a \<union> set b \<union> set c) = {}" "set e \<inter> (set a \<union> set b \<union> set c \<union> set d) = {}"
  using assms by auto

lemma names_apart:
  "distinct (map index_name indexes_0002)" "distinct (group_names groups_0003)" "distinct (map index_name indexes_0004)" "distinct (group_names groups_0005)"
  "set (map index_name indexes_0002) \<inter> set (group_names groups_0001) = {}"
  "set (group_names groups_0003) \<inter> (set (group_names groups_0001) \<union> set (map index_name indexes_0002)) = {}"
  "set (map index_name indexes_0004) \<inter> (set (group_names groups_0001) \<union> set (map index_name indexes_0002) \<union> set (group_names groups_0003)) = {}"
  "set (group_names groups_0005) \<inter> (set (group_names groups_0001) \<union> set (map index_name indexes_0002) \<union> set (group_names groups_0003) \<union>
     set (map index_name indexes_0004)) = {}"
  using distinct_parts(2-) [OF all_names_distinct] .

lemma relations_of_databases:
  "set (relation_names first_database) = set (group_names groups_0001)"
  "set (relation_names second_database) = set (group_names groups_0001) \<union> set (map index_name indexes_0002)"
  "set (relation_names third_database) = set (group_names groups_0001) \<union> set (map index_name indexes_0002) \<union> set (group_names groups_0003)"
  "set (relation_names fourth_database) = set (group_names groups_0001) \<union> set (map index_name indexes_0002) \<union> set (group_names groups_0003) \<union>
     set (map index_name indexes_0004)"
  by (auto simp: names_of_relations names_of_groups databases)

lemma later_keywords:
  "list_all (\<lambda>i. list_all (\<lambda>k. k = ''comment'') (concat (map keyword_of (index_options i)))) (indexes_0002 @ indexes_0004)"
  by (simp add: indexes_0002_def indexes_0004_def)

lemma tables_of_databases:
  "db_tables first_database = group_tables groups_0001 @ []" "db_tables third_database = group_tables groups_0001 @ group_tables groups_0003"
  by (simp_all add: databases)

lemma later_index_creatable:
  assumes "i \<in> set (indexes_0002 @ indexes_0004)" "db_tables db = group_tables groups_0001 @ later" "''comment'' \<in> set keywords"
  shows "index_ok db i \<and> set (concat (map keyword_of (index_options i))) \<subseteq> set keywords"
proof -
  have "list_all (\<lambda>k. k = ''comment'') (concat (map keyword_of (index_options i)))" using assms(1) later_keywords unfolding list_all_iff by blast
  then show ?thesis using later_index_ok [OF assms(1,2)] assms(3) by (auto simp: list_all_iff)
qed

lemma upgrade_second:
  assumes "''comment'' \<in> set keywords"
  shows "run_ops keywords (map Create_Index indexes_0002) first_database = Ok second_database"
proof -
  have "\<forall>i\<in>set indexes_0002. index_ok first_database i \<and> set (concat (map keyword_of (index_options i))) \<subseteq> set keywords"
    using later_index_creatable [OF _ tables_of_databases(1) assms] by simp
  then show ?thesis using create_indexes_ok [of indexes_0002 first_database "keywords"] names_apart relations_of_databases(1)
    by (simp add: second_database_def)
qed

lemma third_columns: "map_of (db_tables second_database @ group_tables groups_0003) ''calibration_config'' = Some calibration_config_columns"
  by (simp add: databases group_tables_def groups_0001_def groups_0003_def)

lemma config_insertable:
  "set (map fst initial_config) \<subseteq> set (map column_name calibration_config_columns)"
  "list_all (given_or_default initial_config) calibration_config_columns"
  by code_simp+

lemma notice_insertable:
  "set (map fst initial_notice) \<subseteq> set (map column_name consent_versions_columns)"
  "list_all (given_or_default initial_notice) consent_versions_columns"
  by code_simp+

lemma upgrade_third: "run_ops keywords upgrade_0003 second_database = Ok third_database"
proof -
  let ?db = "second_database\<lparr>db_tables := db_tables second_database @ group_tables groups_0003,
     db_indexes := db_indexes second_database @ group_indexes groups_0003\<rparr>"
  have "run_ops keywords (create_groups groups_0003) second_database = Ok ?db"
    using names_apart(2,6) relations_of_databases(2) groups_ok_more [OF groups_later_ok(1)]
    by (intro create_groups_ok [where types = "[]" and keys = "[]"]) (simp_all add: keys_there_def)
  moreover have "apply_op keywords (Insert_Row ''calibration_config'' initial_config) ?db = Ok third_database"
    using third_columns config_insertable by (simp add: row_conflict_def third_database_def second_database_def first_database_def)
  ultimately show ?thesis by (simp add: upgrade_0003_def run_append)
qed

lemma upgrade_fourth:
  assumes "''comment'' \<in> set keywords"
  shows "run_ops keywords upgrade_0004 third_database = Ok fourth_database"
proof -
  let ?db = "third_database\<lparr>db_indexes := db_indexes third_database @ indexes_0004\<rparr>"
  have "\<forall>i\<in>set indexes_0004. index_ok third_database i \<and> set (concat (map keyword_of (index_options i))) \<subseteq> set keywords"
    using later_index_creatable [OF _ tables_of_databases(2) assms] by simp
  then have "run_ops keywords (map Create_Index indexes_0004) third_database = Ok ?db"
    using names_apart(3,7) relations_of_databases(3) by (intro create_indexes_ok) simp_all
  moreover have "map_of (db_tables third_database) ''consent_versions'' = Some consent_versions_columns"
    by (simp add: databases group_tables_def groups_0001_def groups_0003_def)
  then have "apply_op keywords (Insert_Row ''consent_versions'' initial_notice) ?db = Ok fourth_database"
    using notice_insertable by (simp add: row_conflict_def fourth_database_def third_database_def)
  ultimately show ?thesis by (simp add: upgrade_0004_def run_append)
qed

lemma upgrade_fifth: "run_ops keywords upgrade_0005 fourth_database = Ok migrated_database"
proof -
  let ?db = "fourth_database\<lparr>db_tables := db_tables fourth_database @ group_tables groups_0005,
     db_indexes := db_indexes fourth_database @ group_indexes groups_0005\<rparr>"
  let ?fn = "?db\<lparr>db_functions := [''update_updated_at_column'']\<rparr>"
  have "map_of (db_tables fourth_database) ''applications'' = Some applications_columns"
    by (simp add: databases group_tables_def groups_0001_def groups_0003_def)
  then have "keys_there fourth_database [(''applications'', ''id'')]" by (simp add: keys_there_def applications_columns_def)
  then have groups: "run_ops keywords (create_groups groups_0005) fourth_database = Ok ?db"
    using names_apart(4,8) relations_of_databases(4) groups_ok_more [OF groups_later_ok(2)]
    by (intro create_groups_ok [where types = "[]" and keys = "[(''applications'', ''id'')]"]) simp_all
  have fn: "apply_op keywords (Create_Function ''update_updated_at_column'') ?db = Ok ?fn" by (simp add: databases)
  have "run_ops keywords (map (\<lambda>t. Create_Trigger (trigger_name t) t ''update_updated_at_column'') tables_with_updated_at) ?fn =
      Ok (?fn\<lparr>db_triggers := db_triggers ?fn @ map (\<lambda>t. (trigger_name t, t, ''update_updated_at_column'')) tables_with_updated_at\<rparr>)"
  proof (rule create_triggers_ok)
    show "distinct tables_with_updated_at" by (simp add: tables_with_updated_at_def)
    show "\<forall>t\<in>set tables_with_updated_at. has_table ?fn t"
      by (simp add: tables_with_updated_at_def has_table_def databases group_tables_def groups_0001_def groups_0003_def groups_0005_def)
  qed (simp_all add: databases)
  then show ?thesis using groups fn
    by (simp add: upgrade_0005_def run_append databases migrated_database_def)
qed

lemma upgrade_head_run:
  assumes "''comment'' \<in> set keywords"
  shows "upgrade_head keywords (None, empty_database) = (Ok (), (Some ''0005'', migrated_database))"
proof -
  have "pending_after None revisions = revisions" by (simp add: revisions_def)
  then show ?thesis using upgrade_second [OF assms] upgrade_fourth [OF assms]
    by (simp add: upgrade_head_def revisions_def upgrade_one_def upgrade_first upgrade_third upgrade_fifth)
qed

lemma second_refused:
  assumes "''comment'' \<notin> set keywords"
  shows "run_ops keywords (map Create_Index indexes_0002) first_database =
    Raise (TypeError ''Additional arguments should be named <dialectname>_<argument>'')"
proof -
  let ?i = "Index ''ix_guideline_versions_agent_tags_gin'' ''guideline_versions'' [''affected_agent_tags''] [Using ''gin'']"
  have i: "?i \<in> set (indexes_0002 @ indexes_0004)" and "index_name ?i \<in> set (map index_name indexes_0002)" by (simp_all add: indexes_0002_def)
  then have "index_name ?i \<notin> set (relation_names first_database)" using names_apart(5) relations_of_databases(1) by blast
  then have "run_ops keywords (map Create_Index [?i]) first_database = Ok (first_database\<lparr>db_indexes := db_indexes first_database @ [?i]\<rparr>)"
    using later_index_ok [OF i, of first_database "[]"] by (intro create_indexes_ok) (simp_all add: first_database_def)
  then have first: "apply_op keywords (Create_Index ?i) first_database = Ok (first_database\<lparr>db_indexes := db_indexes first_database @ [?i]\<rparr>)"
    by (simp only: list.map run_ops.simps rbind_Inr_iff) simp
  obtain j rest where ixs: "indexes_0002 = ?i # j # rest" and j: "concat (map keyword_of (index_options j)) = [''comment'']"
    by (simp add: indexes_0002_def)
  have "run_ops keywords (map Create_Index indexes_0002) first_database =
      rbind (apply_op keywords (Create_Index j) (first_database\<lparr>db_indexes := db_indexes first_database @ [?i]\<rparr>)) (run_ops keywords (map Create_Index rest))"
    unfolding ixs list.map run_ops.simps first rbind.simps ..
  then show ?thesis using assms j by simp
qed

section \<open>Properties\<close>

text \<open>
  C25: A downgrade takes back what an upgrade did. However far an upgrade of a database came,
  and whatever stopped it, the downgrade to the base succeeds and leaves the database it
  was before, its other tables, rows, functions and triggers included; only the
  extensions stay.
\<close>

theorem downgrade_takes_back:
  assumes "well_formed_db db" and "functions_free db" and up: "upgrade_head keywords (None, db) = (res, (cur, db'))"
  shows "downgrade_base keywords (cur, db') = (Ok (), (None, db\<lparr>db_extensions := db_extensions db'\<rparr>))"
proof -
  have "ready None db" using assms by (simp add: ready_def)
  moreover have "pending_after None revisions = revisions" "linked None revisions" by (simp_all add: revisions_def)
  moreover have "takes_back keywords db (None, db)" by (simp add: takes_back_def downgrade_base_None)
  ultimately show ?thesis using upgrades_take_back [of revisions None db "keywords" db] up
    by (simp add: upgrade_head_def takes_back_def)
qed

lemma upgrade_head_refused:
  assumes "''comment'' \<notin> set keywords"
  shows "upgrade_head keywords (None, empty_database) =
    (Raise (TypeError ''Additional arguments should be named <dialectname>_<argument>''), (Some ''0001'', first_database))"
proof -
  have path: "pending_after None revisions = revisions" by (simp add: revisions_def)
  obtain rs where rs: "revisions = Revision ''0001'' None upgrade_0001 downgrade_0001 #
      Revision ''0002'' (Some ''0001'') (map Create_Index indexes_0002) downgrade_0002 # rs" by (simp add: revisions_def)
  have "seach (upgrade_one keywords) revisions (None, empty_database) =
      (Raise (TypeError ''Additional arguments should be named <dialectname>_<argument>''), (Some ''0001'', first_database))"
    unfolding rs by (simp add: upgrade_one_def upgrade_first second_refused [OF assms])
  then show ?thesis using path by (simp add: upgrade_head_def)
qed

lemma upgrade_head_Ok:
  assumes "upgrade_head keywords (None, empty_database) = (Ok (), (cur, db))"
  shows "db = migrated_database"
  using assms upgrade_head_run [of "keywords"] upgrade_head_refused [of "keywords"] by (cases "''comment'' \<in> set keywords") simp_all

text \<open>
  C26: The chain of revisions reaches its head only where an index may have a comment. If the
  library takes the keyword, an empty database is upgraded to the schema of all five
  revisions; if it does not, as SQLAlchemy documents, the second revision raises and the
  database stays at the first one, without calibration, retention events, procedures and
  an active consent notice.
\<close>

theorem upgrade_stops_at_comment:
  "upgrade_head keywords (None, empty_database) =
     (if ''comment'' \<in> set keywords then (Ok (), (Some ''0005'', migrated_database))
      else (Raise (TypeError ''Additional arguments should be named <dialectname>_<argument>''), (Some ''0001'', first_database))) \<and>
   \<not> has_table first_database ''retention_events'' \<and> \<not> has_table first_database ''calibration_config'' \<and>
   db_functions first_database = [] \<and> db_rows first_database = []"
proof -
  have "\<not> has_table first_database ''retention_events''" "\<not> has_table first_database ''calibration_config''"
    by (simp_all add: has_table_def first_database_def group_tables_def groups_0001_def)
  moreover have "db_functions first_database = []" "db_rows first_database = []" by (simp_all add: first_database_def)
  ultimately show ?thesis by (cases "''comment'' \<in> set keywords") (simp_all add: upgrade_head_run upgrade_head_refused)
qed

lemmas table_columns = api_keys_columns_def consent_versions_columns_def guideline_versions_columns_def reviewers_columns_def
  applications_columns_def decisions_columns_def audit_records_columns_def reviewer_feedback_columns_def
  notification_outbox_columns_def calibration_config_columns_def calibration_stats_columns_def retention_events_columns_def

lemmas migrated_parts = migrated_database_def group_tables_def groups_0001_def groups_0003_def groups_0005_def

lemma migrated_tables:
  "list_all (\<lambda>(t, cols). (t \<in> set tables_with_updated_at) = (''updated_at'' \<in> set (map column_name cols))) (db_tables migrated_database)"
  by (simp add: tables_with_updated_at_def migrated_parts table_columns)

fun nulled_by :: "column_option \<Rightarrow> bool" where
  "nulled_by (References t c Set_Null) = True"
| "nulled_by _ = False"

lemma migrated_keys:
  "list_all (\<lambda>(t, cols). list_all (\<lambda>c. \<not> list_ex nulled_by (column_options c) \<or> Nullable \<in> set (column_options c)) cols)
     (db_tables migrated_database)"
  "list_all (\<lambda>(t, cols). list_all (\<lambda>c. \<not> list_ex (refers_to u) (column_options c) \<or> column_type c = Uuid) cols) (db_tables migrated_database)"
  by (simp_all add: migrated_parts table_columns)

lemma migrated_well_formed: "well_formed_db migrated_database"
proof -
  have "well_formed_db empty_database" by (simp add: well_formed_db_def empty_database_def relation_names_def)
  then have "well_formed_db first_database" "run_ops [''comment''] (map Create_Index indexes_0002) first_database = Ok second_database"
    using well_formed_run [OF _ upgrade_first] upgrade_second by auto
  then show ?thesis
    using well_formed_run [OF _ upgrade_third] well_formed_run [OF _ upgrade_fourth [of "[''comment'']"]] well_formed_run [OF _ upgrade_fifth]
      well_formed_run by (metis list.set_intros(1))
qed

text \<open>
  The migrated schema is sound. It is well formed; a table has the trigger that keeps
  \<open>updated_at\<close> exactly when it has that column; a foreign key that is set to null on
  deletion is on a column that may be null; and foreign keys are UUIDs like the keys
  they refer to.
\<close>

theorem migrated_schema_sound:
  "well_formed_db migrated_database \<and>
   ((\<exists>n f. (n, t, f) \<in> set (db_triggers migrated_database)) = has_column migrated_database t ''updated_at'') \<and>
   list_all (\<lambda>(t, cols). list_all (\<lambda>c. \<not> list_ex nulled_by (column_options c) \<or> Nullable \<in> set (column_options c)) cols)
     (db_tables migrated_database) \<and>
   list_all (\<lambda>(t, cols). list_all (\<lambda>c. \<not> list_ex (refers_to u) (column_options c) \<or> column_type c = Uuid) cols) (db_tables migrated_database)"
proof -
  have "(\<exists>n f. (n, t, f) \<in> set (db_triggers migrated_database)) = (t \<in> set tables_with_updated_at)"
    by (auto simp: migrated_database_def)
  moreover have "(t \<in> set tables_with_updated_at) = has_column migrated_database t ''updated_at''"
  proof (cases "map_of (db_tables migrated_database) t")
    case None
    moreover have "has_table migrated_database t" if "t \<in> set tables_with_updated_at"
      using that by (auto simp: tables_with_updated_at_def migrated_database_def has_table_def group_tables_def groups_0001_def groups_0003_def)
    ultimately have "t \<notin> set tables_with_updated_at" by (auto simp: has_table_def map_of_eq_None_iff)
    then show ?thesis by (simp add: has_column_def None)
  next
    case (Some cols)
    then have "(t, cols) \<in> set (db_tables migrated_database)" by (rule map_of_SomeD)
    then show ?thesis using migrated_tables Some by (auto simp: list_all_iff has_column_def)
  qed
  ultimately show ?thesis using migrated_well_formed migrated_keys by simp
qed

text \<open>The seeded configuration can be used: thresholds in order, weights that sum to one.\<close>

lemma initial_config_usable:
  "\<exists>a r. map_of initial_config ''approve_threshold'' = Some (Decimal a) \<and> map_of initial_config ''review_threshold'' = Some (Decimal r) \<and> r < a"
  "map (map_of initial_config) [''weight_document'', ''weight_sanctions'', ''weight_temporal'', ''weight_transaction'', ''weight_rag''] =
     map (Some \<circ> Decimal) [30, 25, 20, 20, 5] \<and> sum_list [30, 25, 20, 20, 5 :: nat] = 100"
  by (simp_all add: initial_config_def)

section \<open>Witnesses\<close>

theorem downgrade_takes_back_witness:
  "downgrade_base [] (Some ''0001'', first_database) = (Ok (), (None, empty_database\<lparr>db_extensions := [''pgcrypto'', ''pg_trgm'']\<rparr>))"
proof -
  have "well_formed_db empty_database" "functions_free empty_database"
    by (simp_all add: well_formed_db_def empty_database_def relation_names_def functions_free_def)
  moreover have "pending_after None revisions = revisions" by (simp add: revisions_def)
  then have "upgrade_head [] (None, empty_database) = (fst (upgrade_head [] (None, empty_database)), (Some ''0001'', first_database))"
    using second_refused [of "[]"] by (auto simp: upgrade_head_def revisions_def upgrade_one_def upgrade_first simp del: list.map)
  ultimately have "downgrade_base [] (Some ''0001'', first_database) =
      (Ok (), (None, empty_database\<lparr>db_extensions := db_extensions first_database\<rparr>))"
    by (rule downgrade_takes_back)
  then show ?thesis by (simp add: first_database_def)
qed

end
