(* ===== verification/Metadata.thy ===== *)
theory Metadata
  imports Migrations
begin

text \<open>
  The tables as the ORM models of \<open>models/\<close> declare them (\<open>Base.metadata\<close>), compared
  with the schema the migrations build. A column without a type has the one SQLAlchemy
  documents for its annotation; \<open>index=True\<close> stands for an index \<open>ix_<table>_<column>\<close>.
  Defaults that Python computes, relationships and comments are left out.
\<close>

section \<open>Models\<close>

datatype field = Field string sql_type "column_option list" | Indexed string sql_type "column_option list"

datatype table_arg = Table_Index index | Unique_Constraint string "string list"

datatype model = Model (model_table: string) (model_fields: "field list") (model_args: "table_arg list")

fun column_of :: "field \<Rightarrow> column" where
  "column_of (Field n ty os) = Column n ty os"
| "column_of (Indexed n ty os) = Column n ty os"

definition reviewer_roles :: "string list" where
  "reviewer_roles = [''REVIEWER'', ''SENIOR_REVIEWER'', ''COMPLIANCE_ADMIN'']"

definition reviewer_outcomes :: "string list" where
  "reviewer_outcomes = [''CONFIRM_APPROVE'', ''CONFIRM_REJECT'', ''OVERRIDE_APPROVE'', ''OVERRIDE_REJECT'', ''ESCALATE'']"

definition decision_outcomes :: "string list" where
  "decision_outcomes = [''APPROVE'', ''REVIEW'', ''REJECT'']"

definition notification_types :: "string list" where
  "notification_types = [''DECISION_CHANGE'', ''REVIEW_ASSIGNED'', ''BREACH_ALERT'']"

definition notification_channels :: "string list" where
  "notification_channels = [''EMAIL'', ''WEBHOOK'']"

definition notification_statuses :: "string list" where
  "notification_statuses = [''PENDING'', ''SENT'', ''FAILED'', ''SUPPRESSED'']"

definition uuid_primary_key :: "field list" where
  "uuid_primary_key = [Field ''id'' Uuid [Primary_Key, Server_Default ''gen_random_uuid()'']]"

definition timestamps :: "field list" where
  "timestamps = [Field ''created_at'' Timestamptz [Server_Default ''now()''], Field ''updated_at'' Timestamptz [Server_Default ''now()'']]"

definition is_demo_flag :: "field list" where
  "is_demo_flag = [Indexed ''is_demo'' Boolean [Server_Default ''false'']]"

definition api_key_model :: model where
  "api_key_model = Model ''api_keys''
    (uuid_primary_key @ timestamps @
     [Indexed ''key_prefix'' (Varchar 8) [], Field ''key_hash'' (Varchar 60) [], Field ''name'' (Varchar 255) [],
      Field ''description'' Text_Type [Nullable], Field ''scopes'' (Varchar_Array 50) [],
      Field ''is_active'' Boolean [Server_Default ''true''], Field ''expires_at'' Timestamptz [Nullable],
      Field ''last_used_at'' Timestamptz [Nullable], Field ''use_count'' Integer [Server_Default ''0''],
      Field ''created_by'' (Varchar 100) [Nullable], Field ''revoked_at'' Timestamptz [Nullable],
      Field ''revoked_by'' (Varchar 100) [Nullable]])
    [Table_Index (Index ''ix_api_keys_key_prefix'' ''api_keys'' [''key_prefix''] [])]"

definition application_model :: model where
  "application_model = Model ''applications''
    (uuid_primary_key @ timestamps @ is_demo_flag @
     [Indexed ''applicant_id'' Uuid [], Field ''applicant_name'' (Varchar 255) [], Field ''pan_hmac'' (Varchar 64) [],
      Field ''pan_format_valid'' Boolean [], Field ''loan_amount_requested'' (Numeric 15 2) [],
      Field ''loan_tenure_months'' Integer [], Indexed ''loan_purpose'' (Varchar 100) [],
      Field ''declared_income'' (Numeric 15 2) [], Field ''declared_obligations'' (Numeric 15 2) [],
      Field ''collateral_value'' (Numeric 15 2) [Nullable], Field ''city_tier'' (Varchar 10) [Nullable],
      Field ''remote_onboarding'' Boolean [Server_Default ''false''], Field ''applicant_risk_category'' (Varchar 20) [],
      Indexed ''guideline_version_id'' Uuid [Nullable, References ''guideline_versions'' ''id'' Set_Null],
      Field ''payload_encrypted'' Bytea [Nullable], Field ''dpdp_consent_given'' Boolean [],
      Field ''dpdp_consent_version'' (Varchar 50) [], Field ''dpdp_consent_at'' Timestamptz [],
      Field ''data_retention_expires_at'' Timestamptz [], Field ''retention_wiped'' Boolean [Server_Default ''false''],
      Field ''retention_wiped_at'' Timestamptz [Nullable], Indexed ''submitted_at'' Timestamptz [],
      Field ''source_ip_hash'' (Varchar 64) [Nullable],
      Field ''api_key_id'' Uuid [Nullable, References ''api_keys'' ''id'' Set_Null]])
    [Table_Index (Index ''ix_applications_retention_wipe'' ''applications'' [''data_retention_expires_at'', ''retention_wiped''] []),
     Table_Index (Index ''ix_applications_pan_hmac'' ''applications'' [''pan_hmac''] []),
     Table_Index (Index ''ix_applications_active_demo'' ''applications'' [''is_demo'', ''submitted_at''] [Where ''retention_wiped'' (Bool_Value False)])]"

definition audit_record_model :: model where
  "audit_record_model = Model ''audit_records''
    (uuid_primary_key @ is_demo_flag @
     [Field ''decision_id'' Uuid [Unique, References ''decisions'' ''id'' Restrict],
      Field ''application_id'' Uuid [References ''applications'' ''id'' Restrict],
      Field ''guideline_version_id'' Uuid [References ''guideline_versions'' ''id'' Restrict],
      Field ''affected_agent_tags'' (Varchar_Array 50) [], Field ''agent_outputs_hash'' (Varchar 64) [],
      Field ''record_hmac'' (Varchar 64) [], Field ''payload_s3_key'' (Varchar 500) [Nullable],
      Field ''payload_s3_uploaded'' Boolean [Server_Default ''false''], Field ''written_at'' Timestamptz [Server_Default ''now()''],
      Field ''breach_flag'' Boolean [Server_Default ''false''], Field ''breach_flagged_at'' Timestamptz [Nullable]])
    [Unique_Constraint ''uq_audit_records_decision_id'' [''decision_id''],
     Table_Index (Index ''ix_audit_records_agent_tags_gin'' ''audit_records'' [''affected_agent_tags''] [Using ''gin'']),
     Table_Index (Index ''ix_audit_records_version_tags'' ''audit_records'' [''guideline_version_id'', ''application_id''] []),
     Table_Index (Index ''ix_audit_records_application_id'' ''audit_records'' [''application_id''] []),
     Table_Index (Index ''ix_audit_records_written_at'' ''audit_records'' [''written_at''] [])]"

definition calibration_config_model :: model where
  "calibration_config_model = Model ''calibration_config''
    (uuid_primary_key @ timestamps @
     [Field ''approve_threshold'' Double [], Field ''review_threshold'' Double [], Field ''weight_document'' Double [],
      Field ''weight_sanctions'' Double [], Field ''weight_temporal'' Double [], Field ''weight_transaction'' Double [],
      Field ''weight_rag'' Double [], Field ''is_active'' Boolean [Server_Default ''false''], Field ''version_number'' Integer [],
      Field ''adjustment_reason'' Text_Type [Nullable], Field ''samples_analysed'' Integer [Nullable],
      Field ''previous_config_id'' (Varchar 36) [Nullable]])
    [Table_Index (Index ''ix_calibration_config_active'' ''calibration_config'' [''is_active''] [Unique_Index, Where ''is_active'' (Bool_Value True)])]"

definition calibration_stats_model :: model where
  "calibration_stats_model = Model ''calibration_stats''
    (uuid_primary_key @ timestamps @
     [Field ''total_decisions_7d'' Integer [], Field ''approve_count_7d'' Integer [], Field ''review_count_7d'' Integer [],
      Field ''reject_count_7d'' Integer [], Field ''confidence_mean_7d'' Double [Nullable],
      Field ''confidence_stddev_7d'' Double [Nullable], Field ''confidence_p50_7d'' Double [Nullable],
      Field ''confidence_p95_7d'' Double [Nullable], Field ''override_rate_band_060_065'' Double [Nullable],
      Field ''override_rate_band_065_070'' Double [Nullable], Field ''override_rate_band_070_075'' Double [Nullable],
      Field ''override_rate_band_075_080'' Double [Nullable], Field ''override_rate_band_080_085'' Double [Nullable],
      Field ''total_feedback_30d'' Integer [], Field ''override_approve_30d'' Integer [], Field ''override_reject_30d'' Integer [],
      Field ''approve_threshold_snapshot'' Double [Nullable], Field ''review_threshold_snapshot'' Double [Nullable],
      Field ''run_duration_seconds'' Integer [Nullable]])
    [Table_Index (Index ''ix_calibration_stats_created_at'' ''calibration_stats'' [''created_at''] [])]"

definition consent_version_model :: model where
  "consent_version_model = Model ''consent_versions''
    (uuid_primary_key @ timestamps @
     [Field ''version_id'' (Varchar 50) [Unique], Field ''title'' (Varchar 255) [], Field ''consent_text'' Text_Type [],
      Field ''summary'' Text_Type [Nullable], Field ''is_active'' Boolean [Server_Default ''false''],
      Field ''effective_from'' Timestamptz [], Field ''superseded_at'' Timestamptz [Nullable],
      Field ''change_summary'' Text_Type [Nullable]])
    [Table_Index (Index ''ix_consent_versions_active'' ''consent_versions'' [''is_active''] [Unique_Index, Where ''is_active'' (Bool_Value True)]),
     Table_Index (Index ''ix_consent_versions_version_id'' ''consent_versions'' [''version_id''] [Unique_Index])]"

definition decision_model :: model where
  "decision_model = Model ''decisions''
    (uuid_primary_key @ timestamps @ is_demo_flag @
     [Indexed ''application_id'' Uuid [References ''applications'' ''id'' Cascade],
      Indexed ''guideline_version_id'' Uuid [References ''guideline_versions'' ''id'' Restrict],
      Field ''previous_decision_id'' Uuid [Nullable, References ''decisions'' ''id'' Set_Null], Field ''run_number'' Integer [],
      Field ''is_retro_eval'' Boolean [Server_Default ''false''],
      Indexed ''outcome'' (Enum_Type ''decision_outcome_enum'' decision_outcomes) [], Field ''confidence'' (Numeric 5 4) [],
      Field ''composite_score'' (Numeric 5 4) [], Field ''agent_outputs'' Jsonb [], Field ''outcome_signals'' Jsonb [],
      Field ''rationale_chain'' Jsonb [], Field ''pipeline_duration_ms'' Integer [Nullable]])
    [Table_Index (Index ''ix_decisions_application_run'' ''decisions'' [''application_id'', ''run_number''] []),
     Table_Index (Index ''ix_decisions_guideline_version'' ''decisions'' [''guideline_version_id'', ''outcome''] []),
     Table_Index (Index ''ix_decisions_review_outcomes'' ''decisions'' [''outcome'', ''created_at''] [Where ''outcome'' (Text_Value ''REVIEW'')]),
     Table_Index (Index ''ix_decisions_is_demo'' ''decisions'' [''is_demo'', ''created_at''] [])]"

definition guideline_version_model :: model where
  "guideline_version_model = Model ''guideline_versions''
    (uuid_primary_key @ timestamps @ is_demo_flag @
     [Field ''source_url'' Text_Type [], Field ''circular_reference'' (Varchar 200) [], Field ''title'' Text_Type [Nullable],
      Field ''effective_date'' Date [Nullable], Field ''sunset_date'' Date [Nullable], Field ''scraped_at'' Timestamptz [],
      Field ''content_hash'' (Varchar 64) [], Field ''diff_summary'' Text_Type [Nullable],
      Field ''affected_agent_tags'' (Varchar_Array 50) [], Field ''parameters'' Jsonb [],
      Field ''is_active'' Boolean [Server_Default ''false''], Field ''promoted_by'' (Varchar 100) [Nullable],
      Field ''promoted_at'' Timestamptz [Nullable], Field ''raw_content_s3_key'' (Varchar 500) [Nullable]])
    [Unique_Constraint ''uq_guideline_active_per_circular'' [''circular_reference'', ''is_active'', ''is_demo''],
     Table_Index (Index ''ix_guideline_versions_active_circular'' ''guideline_versions'' [''circular_reference'', ''is_demo''] [Unique_Index, Where ''is_active'' (Bool_Value True)]),
     Table_Index (Index ''ix_guideline_versions_agent_tags_gin'' ''guideline_versions'' [''affected_agent_tags''] [Using ''gin'']),
     Table_Index (Index ''ix_guideline_versions_circular_ref'' ''guideline_versions'' [''circular_reference''] [])]"

definition notification_outbox_model :: model where
  "notification_outbox_model = Model ''notification_outbox''
    (uuid_primary_key @ timestamps @ is_demo_flag @
     [Indexed ''notification_type'' (Enum_Type ''notification_type_enum'' notification_types) [],
      Field ''channel'' (Enum_Type ''notification_channel_enum'' notification_channels) [],
      Field ''recipient_application_id'' Uuid [Nullable, References ''applications'' ''id'' Set_Null],
      Field ''recipient_reviewer_id'' Uuid [Nullable, References ''reviewers'' ''id'' Set_Null],
      Field ''recipient_email'' (Varchar 255) [Nullable], Field ''recipient_webhook_url'' (Varchar 500) [Nullable],
      Field ''payload'' Jsonb [],
      Indexed ''status'' (Enum_Type ''notification_status_enum'' notification_statuses) [Server_Default (quoted ''PENDING'')],
      Field ''retry_count'' Integer [Server_Default ''0''], Field ''max_retries'' Integer [Server_Default ''3''],
      Field ''next_retry_at'' Timestamptz [Nullable], Field ''sent_at'' Timestamptz [Nullable],
      Field ''failure_reason'' (Varchar 500) [Nullable]])
    [Table_Index (Index ''ix_notification_outbox_pending'' ''notification_outbox'' [''status'', ''next_retry_at''] [Where ''status'' (Text_Value ''PENDING'')]),
     Table_Index (Index ''ix_notification_outbox_application'' ''notification_outbox'' [''recipient_application_id''] [])]"

definition retention_event_model :: model where
  "retention_event_model = Model ''retention_events''
    (uuid_primary_key @
     [Field ''application_id'' Uuid [References ''applications'' ''id'' Restrict], Field ''wiped_at'' Timestamptz [],
      Field ''wipe_task_run_id'' (Varchar 100) [], Field ''fields_wiped'' Text_Type [], Field ''retention_policy_days'' Integer [],
      Field ''data_retention_expires_at_snapshot'' Timestamptz []])
    [Table_Index (Index ''ix_retention_events_application_id'' ''retention_events'' [''application_id''] []),
     Table_Index (Index ''ix_retention_events_wiped_at'' ''retention_events'' [''wiped_at''] [])]"

definition reviewer_model :: model where
  "reviewer_model = Model ''reviewers''
    (uuid_primary_key @ timestamps @
     [Field ''email'' (Varchar 255) [Unique], Field ''full_name'' (Varchar 255) [],
      Field ''role'' (Enum_Type ''reviewer_role_enum'' reviewer_roles) [], Field ''is_active'' Boolean [Server_Default ''true''],
      Field ''notification_webhook_url'' (Varchar 500) [Nullable]])
    [Table_Index (Index ''ix_reviewers_email'' ''reviewers'' [''email''] [Unique_Index])]"

definition reviewer_feedback_model :: model where
  "reviewer_feedback_model = Model ''reviewer_feedback''
    (uuid_primary_key @ timestamps @ is_demo_flag @
     [Field ''decision_id'' Uuid [References ''decisions'' ''id'' Restrict],
      Field ''reviewer_id'' Uuid [References ''reviewers'' ''id'' Restrict],
      Indexed ''reviewer_outcome'' (Enum_Type ''reviewer_outcome_enum'' reviewer_outcomes) [],
      Field ''reviewer_notes'' Text_Type [Nullable], Field ''pipeline_confidence_at_review'' Double [Nullable],
      Field ''review_duration_seconds'' Integer [Nullable]])
    [Table_Index (Index ''ix_reviewer_feedback_created_at'' ''reviewer_feedback'' [''created_at''] []),
     Table_Index (Index ''ix_reviewer_feedback_decision_id'' ''reviewer_feedback'' [''decision_id''] []),
     Table_Index (Index ''ix_reviewer_feedback_reviewer_id'' ''reviewer_feedback'' [''reviewer_id''] [])]"

text \<open>In the order in which \<open>migrations/env.py\<close> imports them.\<close>

definition models :: "model list" where
  "models = [api_key_model, application_model, audit_record_model, calibration_config_model, calibration_stats_model, consent_version_model,
     decision_model, guideline_version_model, notification_outbox_model, retention_event_model, reviewer_model,
     reviewer_feedback_model]"

section \<open>The schema of the metadata\<close>

fun implicit_index :: "string \<Rightarrow> field \<Rightarrow> index list" where
  "implicit_index t (Field n ty os) = []"
| "implicit_index t (Indexed n ty os) = [Index (''ix_'' @ t @ ''_'' @ n) t [n] []]"

fun explicit_index :: "string \<Rightarrow> table_arg \<Rightarrow> index list" where
  "explicit_index t (Table_Index i) = [i]"
| "explicit_index t (Unique_Constraint n cs) = [Index n t cs [Unique_Index]]"

definition model_columns :: "model \<Rightarrow> column list" where
  "model_columns m = map column_of (model_fields m)"

definition model_indexes :: "model \<Rightarrow> index list" where
  "model_indexes m = concat (map (explicit_index (model_table m)) (model_args m)) @ concat (map (implicit_index (model_table m)) (model_fields m))"

text \<open>What \<open>create_all\<close> sends for a table; a unique constraint is an index of its name.\<close>

definition create_model :: "model \<Rightarrow> operation list" where
  "create_model m = create_group (model_table m, model_columns m, model_indexes m)"

section \<open>Columns agree\<close>

fun is_default :: "column_option \<Rightarrow> bool" where
  "is_default (Server_Default d) = True"
| "is_default _ = False"

text \<open>A column without its server default, which a model may leave to Python.\<close>

definition plain :: "column \<Rightarrow> column" where
  "plain c = Column (column_name c) (column_type c) (filter (\<lambda>x. \<not> is_default x) (column_options c))"

text \<open>The one column whose type is not the migration's.\<close>

definition drifted :: "string \<Rightarrow> column \<Rightarrow> bool" where
  "drifted t c \<longleftrightarrow> t = ''reviewer_feedback'' \<and> column_name c = ''pipeline_confidence_at_review''"

definition agrees :: "database \<Rightarrow> model \<Rightarrow> bool" where
  "agrees db m \<longleftrightarrow> (case map_of (db_tables db) (model_table m) of None \<Rightarrow> False
     | Some cols \<Rightarrow> length (model_fields m) = length cols \<and> distinct (map column_name (model_columns m)) \<and>
         list_all (\<lambda>c. list_ex (\<lambda>d. column_name d = column_name c \<and> (drifted (model_table m) c \<or> plain d = plain c) \<and>
           list_all (\<lambda>x. \<not> is_default x \<or> x \<in> set (column_options d)) (column_options c)) cols) (model_columns m))"

lemma migrated_table:
  "map_of (db_tables migrated_database) ''api_keys'' = Some api_keys_columns"
  "map_of (db_tables migrated_database) ''applications'' = Some applications_columns"
  "map_of (db_tables migrated_database) ''audit_records'' = Some audit_records_columns"
  "map_of (db_tables migrated_database) ''calibration_config'' = Some calibration_config_columns"
  "map_of (db_tables migrated_database) ''calibration_stats'' = Some calibration_stats_columns"
  "map_of (db_tables migrated_database) ''consent_versions'' = Some consent_versions_columns"
  "map_of (db_tables migrated_database) ''decisions'' = Some decisions_columns"
  "map_of (db_tables migrated_database) ''guideline_versions'' = Some guideline_versions_columns"
  "map_of (db_tables migrated_database) ''notification_outbox'' = Some notification_outbox_columns"
  "map_of (db_tables migrated_database) ''retention_events'' = Some retention_events_columns"
  "map_of (db_tables migrated_database) ''reviewers'' = Some reviewers_columns"
  "map_of (db_tables migrated_database) ''reviewer_feedback'' = Some reviewer_feedback_columns"
  by (simp_all add: migrated_parts)

lemmas mixins = uuid_primary_key_def timestamps_def is_demo_flag_def reviewer_roles_def reviewer_outcomes_def decision_outcomes_def
  notification_types_def notification_channels_def notification_statuses_def

lemma api_key_model_agrees: "agrees migrated_database api_key_model"
  by (simp add: agrees_def model_columns_def api_key_model_def api_keys_columns_def mixins migrated_table(1) plain_def drifted_def)

lemma application_model_agrees: "agrees migrated_database application_model"
  by (simp add: agrees_def model_columns_def application_model_def applications_columns_def mixins migrated_table(2) plain_def drifted_def)

lemma audit_record_model_agrees: "agrees migrated_database audit_record_model"
  by (simp add: agrees_def model_columns_def audit_record_model_def audit_records_columns_def mixins migrated_table(3) plain_def drifted_def)

lemma calibration_config_model_agrees: "agrees migrated_database calibration_config_model"
  by (simp add: agrees_def model_columns_def calibration_config_model_def calibration_config_columns_def mixins migrated_table(4) plain_def drifted_def)

lemma calibration_stats_model_agrees: "agrees migrated_database calibration_stats_model"
  by (simp add: agrees_def model_columns_def calibration_stats_model_def calibration_stats_columns_def mixins migrated_table(5) plain_def drifted_def)

lemma consent_version_model_agrees: "agrees migrated_database consent_version_model"
  by (simp add: agrees_def model_columns_def consent_version_model_def consent_versions_columns_def mixins migrated_table(6) plain_def drifted_def)

lemma decision_model_agrees: "agrees migrated_database decision_model"
  by (simp add: agrees_def model_columns_def decision_model_def decisions_columns_def mixins migrated_table(7) plain_def drifted_def)

lemma guideline_version_model_agrees: "agrees migrated_database guideline_version_model"
  by (simp add: agrees_def model_columns_def guideline_version_model_def guideline_versions_columns_def mixins migrated_table(8) plain_def drifted_def)

lemma notification_outbox_model_agrees: "agrees migrated_database notification_outbox_model"
  by (simp add: agrees_def model_columns_def notification_outbox_model_def notification_outbox_columns_def mixins migrated_table(9) plain_def drifted_def)

lemma retention_event_model_agrees: "agrees migrated_database retention_event_model"
  by (simp add: agrees_def model_columns_def retention_event_model_def retention_events_columns_def mixins migrated_table(10) plain_def drifted_def)

lemma reviewer_model_agrees: "agrees migrated_database reviewer_model"
  by (simp add: agrees_def model_columns_def reviewer_model_def reviewers_columns_def mixins migrated_table(11) plain_def drifted_def)

lemma reviewer_feedback_model_agrees: "agrees migrated_database reviewer_feedback_model"
  by (simp add: agrees_def model_columns_def reviewer_feedback_model_def reviewer_feedback_columns_def mixins migrated_table(12) plain_def drifted_def)

lemmas model_agrees = api_key_model_agrees application_model_agrees audit_record_model_agrees calibration_config_model_agrees
  calibration_stats_model_agrees consent_version_model_agrees decision_model_agrees guideline_version_model_agrees
  notification_outbox_model_agrees retention_event_model_agrees reviewer_model_agrees reviewer_feedback_model_agrees

lemmas model_tables = api_key_model_def application_model_def audit_record_model_def calibration_config_model_def
  calibration_stats_model_def consent_version_model_def decision_model_def guideline_version_model_def notification_outbox_model_def
  retention_event_model_def reviewer_model_def reviewer_feedback_model_def

section \<open>Names of the indexes\<close>

definition table_indexes :: "database \<Rightarrow> string \<Rightarrow> string list" where
  "table_indexes db t = map index_name (filter (\<lambda>i. index_table i = t) (db_indexes db))"

text \<open>The index names of a model that the schema lacks, and the schema's that the model lacks.\<close>

definition only_in_model :: "database \<Rightarrow> model \<Rightarrow> string list" where
  "only_in_model db m = filter (\<lambda>n. n \<notin> set (table_indexes db (model_table m))) (map index_name (model_indexes m))"

definition only_in_schema :: "database \<Rightarrow> model \<Rightarrow> string list" where
  "only_in_schema db m = filter (\<lambda>n. n \<notin> set (map index_name (model_indexes m))) (table_indexes db (model_table m))"

section \<open>The models and the migrations\<close>

lemma agrees_first:
  assumes "has_table first_database (model_table m)"
  shows "agrees first_database m = agrees migrated_database m"
proof -
  obtain cols where "map_of (db_tables first_database) (model_table m) = Some cols"
    using assms weak_map_of_SomeI by (fastforce simp: has_table_def)
  moreover from this have "map_of (db_tables migrated_database) (model_table m) = Some cols"
    by (simp add: migrated_database_def first_database_def map_add_def)
  ultimately show ?thesis by (simp add: agrees_def)
qed

text \<open>
  C27: the models and the schema \<open>upgrade head\<close> leaves behind. Every table of that
  schema is the table of a model and has the columns of the model: the same number,
  names, types, constraints and foreign keys, with every server default of the model;
  the one exception is the type of the confidence that reviewer feedback keeps. With
  the \<open>comment\<close> keyword that the second revision passes to its index every model has
  its table. Without it, as SQLAlchemy documents, the upgrade raises and three
  models have none: the calibration configuration and statistics and the retention
  events, to which every wipe writes.
\<close>

theorem models_match_migrations:
  "\<exists>res cur db. upgrade_head keywords (None, empty_database) = (res, (cur, db)) \<and>
     set (map fst (db_tables db)) \<subseteq> set (map model_table models) \<and>
     list_all (agrees db) (filter (\<lambda>m. has_table db (model_table m)) models) \<and>
     map model_table (filter (\<lambda>m. \<not> has_table db (model_table m)) models) =
       (if ''comment'' \<in> set keywords then [] else [''calibration_config'', ''calibration_stats'', ''retention_events'']) \<and>
     (is_ok res \<longleftrightarrow> ''comment'' \<in> set keywords)"
proof -
  have all: "list_all (agrees migrated_database) models" by (simp add: models_def model_agrees)
  have tables: "set (map fst (db_tables migrated_database)) = set (map model_table models)"
    by (simp add: models_def model_tables migrated_parts insert_commute)
  have sub: "set (map fst (db_tables first_database)) \<subseteq> set (map fst (db_tables migrated_database))"
    by (auto simp: first_database_def migrated_database_def)
  have first: "map model_table (filter (\<lambda>m. \<not> has_table first_database (model_table m)) models) =
      [''calibration_config'', ''calibration_stats'', ''retention_events'']"
    by (simp add: models_def model_tables has_table_def first_database_def group_tables_def groups_0001_def)
  have none: "filter (\<lambda>m. \<not> has_table migrated_database (model_table m)) models = []"
    using tables by (auto simp: has_table_def filter_empty_conv)
  show ?thesis
  proof (cases "''comment'' \<in> set keywords")
    case True
    then show ?thesis
      using upgrade_head_run [OF True] all tables none by (auto simp: list_all_iff)
  next
    case False
    have "list_all (agrees first_database) (filter (\<lambda>m. has_table first_database (model_table m)) models)"
      using all by (auto simp: list_all_iff agrees_first)
    then show ?thesis
      using upgrade_head_refused [OF False] sub tables first False by simp
  qed
qed

lemmas table_indexes_of = api_keys_indexes_def consent_versions_indexes_def guideline_versions_indexes_def reviewers_indexes_def
  applications_indexes_def decisions_indexes_def audit_records_indexes_def reviewer_feedback_indexes_def notification_outbox_indexes_def
  indexes_0002_def calibration_config_indexes_def calibration_stats_indexes_def indexes_0004_def retention_events_indexes_def

lemma filter_own: "list_all (\<lambda>i. index_table i = u) ixs \<Longrightarrow> filter (\<lambda>i. index_table i = t) ixs = (if u = t then ixs else [])"
  by (induction ixs) auto

lemma own_tables:
  "list_all (\<lambda>i. index_table i = ''api_keys'') api_keys_indexes"
  "list_all (\<lambda>i. index_table i = ''consent_versions'') consent_versions_indexes"
  "list_all (\<lambda>i. index_table i = ''guideline_versions'') guideline_versions_indexes"
  "list_all (\<lambda>i. index_table i = ''reviewers'') reviewers_indexes"
  "list_all (\<lambda>i. index_table i = ''applications'') applications_indexes"
  "list_all (\<lambda>i. index_table i = ''decisions'') decisions_indexes"
  "list_all (\<lambda>i. index_table i = ''audit_records'') audit_records_indexes"
  "list_all (\<lambda>i. index_table i = ''reviewer_feedback'') reviewer_feedback_indexes"
  "list_all (\<lambda>i. index_table i = ''notification_outbox'') notification_outbox_indexes"
  "list_all (\<lambda>i. index_table i = ''calibration_config'') calibration_config_indexes"
  "list_all (\<lambda>i. index_table i = ''calibration_stats'') calibration_stats_indexes"
  "list_all (\<lambda>i. index_table i = ''retention_events'') retention_events_indexes"
  by (simp_all add: table_indexes_of)

lemmas own_indexes = own_tables [THEN filter_own]

lemma migrated_indexes:
  "table_indexes migrated_database ''api_keys'' = map index_name api_keys_indexes"
  "table_indexes migrated_database ''applications'' = map index_name applications_indexes @ [''ix_applications_consent_version'']"
  "table_indexes migrated_database ''audit_records'' = map index_name audit_records_indexes @ [''ix_audit_records_version_is_demo'']"
  "table_indexes migrated_database ''calibration_config'' = map index_name calibration_config_indexes"
  "table_indexes migrated_database ''calibration_stats'' = map index_name calibration_stats_indexes"
  "table_indexes migrated_database ''consent_versions'' = map index_name consent_versions_indexes"
  "table_indexes migrated_database ''decisions'' = map index_name decisions_indexes"
  "table_indexes migrated_database ''guideline_versions'' = map index_name guideline_versions_indexes @ [''ix_guideline_versions_agent_tags_gin'', ''ix_guideline_versions_content_hash'']"
  "table_indexes migrated_database ''notification_outbox'' = map index_name notification_outbox_indexes"
  "table_indexes migrated_database ''retention_events'' = map index_name retention_events_indexes"
  "table_indexes migrated_database ''reviewers'' = map index_name reviewers_indexes"
  "table_indexes migrated_database ''reviewer_feedback'' = map index_name reviewer_feedback_indexes"
  by (simp_all add: table_indexes_def migrated_parts group_indexes_def own_indexes indexes_0002_def indexes_0004_def)

text \<open>
  The drift of the index names. A database created from the models has indexes the
  migrations do not build and lacks some they build; among the former is a unique
  constraint on circular, activity and demo flag.
\<close>

lemma index_drift:
  "map (only_in_model migrated_database) models =
     [[], [], [''ix_audit_records_is_demo''], [], [], [], [''ix_decisions_guideline_version_id''], [''uq_guideline_active_per_circular''],
      [''ix_notification_outbox_is_demo'', ''ix_notification_outbox_notification_type''], [], [], [''ix_reviewer_feedback_is_demo'',
      ''ix_reviewer_feedback_reviewer_outcome'']]"
  "map (only_in_schema migrated_database) models =
     [[], [''ix_applications_consent_version''], [''ix_audit_records_version_is_demo''], [], [], [], [],
      [''ix_guideline_versions_content_hash''], [], [], [], [''ix_reviewer_feedback_outcome'']]"
  by (simp_all add: models_def only_in_model_def only_in_schema_def model_indexes_def model_tables mixins migrated_indexes table_indexes_of)

section \<open>Tables created from the models\<close>

lemma created_indexes:
  assumes "run_ops keywords (map Create_Index ixs) db = Ok db'"
  shows "distinct (map index_name ixs) \<and> set (map index_name ixs) \<inter> set (relation_names db) = {}"
  using assms
proof (induction ixs arbitrary: db)
  case (Cons i ixs)
  obtain db1 where db1: "apply_op keywords (Create_Index i) db = Ok db1" "run_ops keywords (map Create_Index ixs) db1 = Ok db'"
    using Cons.prems by (auto simp: rbind_Inr_iff)
  then have "db1 = db\<lparr>db_indexes := db_indexes db @ [i]\<rparr>" "index_name i \<notin> set (relation_names db)"
    by (auto split: if_splits)
  then show ?case using Cons.IH [OF db1(2)] by (auto simp: relation_names_def)
qed simp

lemma created_model:
  assumes "run_ops keywords (create_model m) db = Ok db'"
  shows "distinct (map index_name (model_indexes m))"
  using assms created_indexes by (auto simp: create_model_def create_group_def rbind_Inr_iff simp del: apply_op.simps)

text \<open>
  Two models name an index that \<open>index=True\<close> already gives them, so \<open>create_all\<close> cannot
  create their tables in any database.
\<close>

lemma create_all_fails:
  assumes "m \<in> {api_key_model, decision_model}"
  shows "\<not> is_ok (run_ops keywords (create_model m) db)"
proof -
  have "\<not> distinct (map index_name (model_indexes m))"
    using assms by (auto simp: model_indexes_def model_tables(1,7) mixins)
  then show ?thesis using created_model [of "keywords" m db] by (auto simp: is_ok_iff)
qed

text \<open>
  The models' unique constraint also covers versions that are no longer active: a second
  superseded version of a circular violates it, and no unique index of the migrations.
\<close>

lemma superseded_version_refused:
  assumes "map_of r ''circular_reference'' = Some c" "map_of r' ''circular_reference'' = Some c"
    and "map_of r ''is_active'' = Some (Bool_Value False)" "map_of r' ''is_active'' = Some (Bool_Value False)"
    and "map_of r ''is_demo'' = Some d" "map_of r' ''is_demo'' = Some d"
  shows "list_ex (\<lambda>i. index_conflict i r r') (model_indexes guideline_version_model) \<and>
    \<not> list_ex (\<lambda>i. index_table i = ''guideline_versions'' \<and> index_conflict i r r') (db_indexes migrated_database)"
proof
  show "list_ex (\<lambda>i. index_conflict i r r') (model_indexes guideline_version_model)"
    using assms by (simp add: model_indexes_def guideline_version_model_def index_conflict_def same_on_def)
  have "list_all (\<lambda>i. index_table i = ''guideline_versions'' \<longrightarrow> Unique_Index \<in> set (index_options i) \<longrightarrow>
      Where ''is_active'' (Bool_Value True) \<in> set (index_options i)) (db_indexes migrated_database)"
    by (simp add: migrated_parts group_indexes_def table_indexes_of)
  then show "\<not> list_ex (\<lambda>i. index_table i = ''guideline_versions'' \<and> index_conflict i r r') (db_indexes migrated_database)"
    using assms(3) by (fastforce simp: list_ex_iff list_all_iff index_conflict_def)
qed

end
