(* ===== verification/Spec2Isabelle.thy ===== *)
theory Spec2Isabelle
  imports PanHandler Secrets Verifier DataSubject Outbox Embedder Engine CeleryApp Corpus Metrics Tracing Metadata
begin

text \<open>
  ComplianceLoop is the backend of a lender's compliance pipeline. A request is
  gated by a consent check, decided by a pipeline of agents, and the decision is
  signed and written to an audit ledger before the response; an encrypted copy of
  the agents' outputs goes to an object store. Later tasks verify the ledger, wipe
  personal data after its retention period, answer the requests of data subjects,
  flag breaches and deliver notifications from an outbox.

  Not all of it is in the repository: the modules \<open>api\<close>, \<open>pipeline\<close>, \<open>calibration\<close>,
  \<open>scraper\<close>, \<open>retro_eval\<close>, \<open>notifications\<close> and \<open>demo\<close> are empty files. What has code is
  \<open>security\<close>, \<open>audit\<close>, \<open>dpdp\<close>, \<open>models\<close>, \<open>db\<close>, \<open>workers\<close>, \<open>retrieval\<close> and \<open>observability\<close>.

  \<^bold>\<open>Foundations.\<close> \<open>Prelude\<close> holds exceptions, results and state transformers, and the
  interfaces \<open>codec\<close>, \<open>field_codec\<close> and \<open>step_system\<close>. \<open>PyText\<close>, \<open>PyTime\<close>, \<open>PyUuid\<close>, \<open>Json\<close> and \<open>Sha256\<close>
  are the parts of Python's standard library the code computes with: texts (of
  characters below 256), UTF-8, hexadecimal, instants and \<open>isoformat\<close>, UUIDs as
  128-bit words, the JSON writer with sorted keys and its reader, SHA-256 and HMAC
  on 32-bit words. \<open>Json_Facts\<close> shows that the reader inverts the writer. The
  recursion of the JSON reader is bounded by the length of its text, which is
  enough: the round trip is proved with that bound.

  \<^bold>\<open>Security\<close> (\<open>security/\<close>). \<open>Process\<close> is the state of a process: its environment and
  the module-level caches of keys. \<open>HmacUtils\<close>, \<open>PanHandler\<close>, \<open>Encryption\<close> and \<open>Secrets\<close>
  follow the modules of these names. AES-GCM of the cryptography package is a
  parameter, together with the keywords its methods take: \<open>aead_correct\<close> states what
  the package documents of the cipher, and \<open>takes_aad\<close> whether it takes the keyword
  \<open>aad\<close> that every call passes, which the documentation does not have. Where an
  operation encrypts or decrypts, its lemmas say what happens in both cases. The Vault
  client is a parameter. The lemmas show that messages are injective, that key
  rotation keeps old digests valid, that encryption round trips or raises, and what a
  successful start guarantees of the keys, from the environment or from Vault.

  \<^bold>\<open>Models\<close> (\<open>models/\<close>, \<open>db/\<close>). \<open>Models\<close> has a record per table, the production and the
  demo database as lists of rows, the constraints checked by an insert, the session
  context as a transaction, and the world: process, databases, object store, sent
  messages and faults. Faults are constant during an operation. \<open>Engine\<close> has
  \<open>db/engine.py\<close> and \<open>db/session.py\<close> in full: engines and session factories cached for
  each context, and the four kinds of session over databases stored under their DSNs.
  Its lemmas show that these sessions refine the transactions of \<open>Models\<close>.

  \<^bold>\<open>Schema\<close> (\<open>db/migrations/\<close>, \<open>models/\<close>). \<open>Migrations\<close> translates the five revisions into
  operations on a schema, with upgrade and downgrade along the chain; which keywords an
  index takes is a parameter, since two revisions pass one SQLAlchemy does not have.
  \<open>Metadata\<close> has the twelve tables as the ORM declares them. The lemmas show that a
  downgrade takes back what an upgrade built, that the tables an upgrade leaves behind
  agree with the models, which models are left without a table when it stops, and
  where the indexes differ.

  \<^bold>\<open>Audit\<close> (\<open>audit/\<close>). \<open>AuditHasher\<close>, \<open>AuditWriter\<close>, \<open>Uploader\<close> and \<open>Verifier\<close> compose: what
  the writer commits and the uploader stores is what the verifier accepts, and
  where the cipher call raises, the verifier still accepts the record alone. The
  lemmas cover the uniqueness of the ledger, failed writes, retried uploads,
  verification with and without the payload, and the frame of each operation.

  \<^bold>\<open>DPDP\<close> (\<open>dpdp/\<close> and the stored procedures of migration 0005). \<open>Dpdp\<close> has the
  interface \<open>row_drain\<close> of operations that take rows out of a target set; wiping an
  application, withdrawing its consent and flagging an audit record are its
  interpretations. \<open>Consent\<close> is the gate and the versions of the notice, \<open>Retention\<close>
  the wipe loop (total by the number of rows not yet wiped), \<open>DataSubject\<close> the three
  requests, \<open>Breach\<close> the response and the procedures \<open>break_glass\<close> and
  \<open>break_glass_range\<close>, with PostgreSQL's treatment of ambiguous names a parameter.

  \<^bold>\<open>Workers\<close> (\<open>workers/notification_worker.py\<close>). \<open>Outbox\<close> is the poll, the delivery task
  and the row's state machine. An attempt works on the row and a log of what the
  dispatchers accepted, from which at-most-once delivery is read off. \<open>outbox_step\<close> is
  the step relation of the table, an interpretation of \<open>step_system\<close>; attempts refine the
  abstract machine \<open>promise_step\<close>.

  \<^bold>\<open>Retrieval\<close> (\<open>retrieval/\<close>). \<open>Chunker\<close> splits a circular into chunks; its loops are shown
  equal to a reference of windows, from which coverage and bounds follow. \<open>Retrieval\<close>
  has the calls of the embedder, the index with its active, staging and backup directory,
  and the queries; a build writes its two files one after the other and may stop at
  any of its steps. \<open>index_step\<close> is the step relation of builds, loads and swaps, the
  second interpretation of \<open>step_system\<close>. The tokeniser, the embedding model and the
  search of FAISS are parameters; \<open>search_law\<close> states what FAISS documents. \<open>Embedder\<close> is
  \<open>retrieval/embedder.py\<close> in full, with the model that is loaded once, and shows that a
  batch is the row-wise embedding \<open>Retrieval\<close> uses. \<open>Corpus\<close> (\<open>retrieval/corpus/\<close>) takes
  texts out of PDF and HTML and cleans them; the two parsers are parameters.

  \<^bold>\<open>Logging and Celery\<close> (\<open>observability/logging_config.py\<close>, \<open>workers/\<close>). \<open>Regex\<close> is the part
  of Python's \<open>re\<close> that is used: a repetition takes at most as many rounds as characters
  are left, which is enough since each round consumes one (\<open>rounds_fuel\<close>). \<open>Logging\<close> has the
  processors of a log line; its interface \<open>redaction\<close>, a pattern that reads words of a
  form, is interpreted on the three patterns that are censored. \<open>CeleryApp\<close> has the
  queues, routes, periodic tasks and the handlers of a worker. structlog is a parameter.

  \<^bold>\<open>Metrics and tracing\<close> (\<open>observability/metrics.py\<close>, \<open>observability/tracing.py\<close>). \<open>Metrics\<close>
  has the catalogue and the reports of each module as calls on it; the lemmas show that
  the client library, as it documents its checks, accepts every call. \<open>Tracing\<close> has the
  set-up and the spans; the lemmas show that a span neither changes the result of its
  body nor stays open. The client libraries are parameters.

  \<^bold>\<open>Not modelled.\<close> Log lines, and metrics inside the other components (except where an
  exception of a metric changes a row). The connection pools. Rows of reviewers, API
  keys and calibration, which no modelled operation uses: their tables are in the schema
  only. Concurrency inside one transaction: a session is one atomic step, rows locked by
  others are a parameter of the wipe. The thread that listens for reloads (a load step).
  The rounding of vectors to 32 bits. In the schema: comments, defaults computed by
  Python, and the offline mode of the migrations. The empty modules named above, the
  frontend, and the infrastructure, which are not Python code with behaviour to state.
\<close>

end
